theory Spec2Isabelle
  imports Complex_Main "HOL-Library.Char_ord" "HOL-Library.List_Lexorder" "HOL-Library.Word"
begin

section \<open>Data model of the pipeline builder (pipeline.cxx)\<close>

type_synonym name_t = string
type_synonym port_t = string
type_synonym port_type_t = string
type_synonym port_flag_t = string
type_synonym port_addr_t = "name_t \<times> port_t"
type_synonym connection_t = "port_addr_t \<times> port_addr_t"
type_synonym config_t = "(string \<times> string) list"

text \<open>
  Modelled from the spec: the rational type of the frequencies is not among the sources.
  \<open>process::port_frequency_t\<close> is declared in process.h as \<open>boost::rational\<close> over
  \<open>process::frequency_component_t\<close>, which is \<open>size_t\<close>: a numerator and a
  denominator, each an unsigned machine integer, here of 64 bits. The source tests a
  frequency with \<open>!freq\<close>, which holds exactly when the numerator is zero: such a
  frequency is the "unknown" frequency. The default value is 0/1. The spec describes the
  frequencies as exact rationals; the program computes them in this machine type, whose
  arithmetic wraps around.
\<close>

type_synonym frequency_component_t = "64 word"

datatype port_frequency_t =
  Rational (numerator: frequency_component_t) (denominator: frequency_component_t)

record port_info =
  ptype :: port_type_t
  flags :: "port_flag_t set"
  frequency :: port_frequency_t

text \<open>
  A process is an external object. The builder only reads its name and its port
  information; a cluster (\<open>process_cluster\<close>, a subclass of process in the source)
  additionally carries its children, its internal connections and its port mappings.
\<close>

datatype process =
    Process (pname: name_t)
            (input_port_infos: "(port_t \<times> port_info) list")
            (output_port_infos: "(port_t \<times> port_info) list")
  | Cluster (pname: name_t)
            (processes: "process list")
            (internal_connections: "connection_t list")
            (input_mappings: "connection_t list")
            (output_mappings: "connection_t list")
where
  "input_port_infos (Cluster n ps ic im om) = []"
| "output_port_infos (Cluster n ps ic im om) = []"
| "processes (Process n ips ops) = []"
| "internal_connections (Process n ips ops) = []"
| "input_mappings (Process n ips ops) = []"
| "output_mappings (Process n ips ops) = []"

record edge =
  edge_config :: config_t
  upstream_process :: "name_t option"
  downstream_process :: "name_t option"

datatype cluster_connection_type_t = cluster_upstream | cluster_downstream

datatype direction_t = push_upstream | push_downstream

datatype port_type_status = type_deferred | type_mismatch | type_compatible

text \<open>
  The exceptions of the source, one constructor per exception class, with the arguments
  the source passes. \<open>logic_error\<close> is \<open>std::logic_error\<close>; \<open>process_exception\<close>
  stands for whatever an external process hook throws; \<open>invalid_access\<close> marks the
  places where the source dereferences an end iterator or indexes a vector out of range.
\<close>

datatype exn =
    null_process_addition_exception
  | add_after_setup_exception name_t
  | duplicate_process_name_exception name_t
  | remove_after_setup_exception name_t
  | no_such_process_exception name_t
  | no_such_port_exception name_t port_t
  | connection_after_setup_exception name_t port_t name_t port_t
  | connection_flag_mismatch_exception name_t port_t name_t port_t
  | connection_type_mismatch_exception name_t port_t port_type_t name_t port_t port_type_t
  | pipeline_duplicate_setup_exception
  | no_processes_exception
  | pipeline_not_setup_exception
  | pipeline_not_ready_exception
  | untyped_data_dependent_exception name_t port_t
  | untyped_connection_exception
  | connection_dependent_type_exception name_t port_t name_t port_t port_type_t bool
  | connection_dependent_type_cascade_exception
      name_t port_t port_type_t name_t port_t name_t port_t port_type_t bool
  | propagation_exception name_t port_t name_t port_t port_type_t bool
  | missing_connection_exception name_t port_t string
  | orphaned_processes_exception
  | not_a_dag_exception
  | frequency_mismatch_exception name_t port_t port_frequency_t name_t port_t port_frequency_t
  | bad_rational
  | logic_error string
  | process_exception string
  | invalid_access

text \<open>
  The private state \<open>pipeline::priv\<close>. A \<open>std::map\<close> is an association list kept
  sorted by key, so that iteration visits the keys in increasing order as the source does.
  The field \<open>is_setup\<close> is the source's \<open>setup\<close>. \<open>core_frequency_calls\<close> is the
  trace of the calls \<open>proc->set_core_frequency(f)\<close> the builder has made, in order.
\<close>

record priv =
  config :: config_t
  planned_connections :: "connection_t list"
  connections :: "connection_t list"
  process_map :: "(name_t \<times> process) list"
  cluster_map :: "(name_t \<times> process) list"
  edge_map :: "(nat \<times> edge option) list"
  process_parent_map :: "(name_t \<times> name_t) list"
  parent_stack :: "name_t list"
  data_dep_connections :: "connection_t list"
  cluster_connections :: "(connection_t \<times> cluster_connection_type_t) list"
  untyped_connections :: "connection_t list"
  type_pinnings :: "(connection_t \<times> direction_t) list"
  is_setup :: bool
  setup_in_progress :: bool
  setup_successful :: bool
  running :: bool
  core_frequency_calls :: "(name_t \<times> port_frequency_t) list"

text \<open>
  The behaviour of the external collaborators: the hooks of a process (a hook returns
  the process as it has left it, and the exception it has thrown, if any) and the
  operations of the configuration store. They are parameters of the model. The two type
  setters return the \<open>bool\<close> of their signature and are taken not to throw.
\<close>

record extern =
  proc_configure :: "process \<Rightarrow> exn option \<times> process"
  proc_init :: "process \<Rightarrow> exn option \<times> process"
  proc_set_input_port_type :: "process \<Rightarrow> port_t \<Rightarrow> port_type_t \<Rightarrow> bool \<times> process"
  proc_set_output_port_type :: "process \<Rightarrow> port_t \<Rightarrow> port_type_t \<Rightarrow> bool \<times> process"
  proc_connect_input_port :: "process \<Rightarrow> port_t \<Rightarrow> edge \<Rightarrow> exn option \<times> process"
  proc_connect_output_port :: "process \<Rightarrow> port_t \<Rightarrow> edge \<Rightarrow> exn option \<times> process"
  config_subblock :: "config_t \<Rightarrow> string \<Rightarrow> config_t"
  config_merge :: "config_t \<Rightarrow> config_t \<Rightarrow> config_t"
  config_set_value :: "config_t \<Rightarrow> string \<Rightarrow> string \<Rightarrow> config_t"
  config_mark_read_only :: "config_t \<Rightarrow> string \<Rightarrow> config_t"

subsection \<open>Constants declared outside the sources\<close>

text \<open>
  Modelled from the spec: the port-type and port-flag constants of \<open>process\<close>
  (\<open>process::type_any\<close> and the others) are defined in process.cxx, which is not among
  the sources; the strings are the ones the specification gives.
\<close>

definition type_any :: port_type_t where
  "type_any = ''any''"

definition type_data_dependent :: port_type_t where
  "type_data_dependent = ''data-dependent''"

definition type_flow_dependent :: port_type_t where
  "type_flow_dependent = ''flow-dependent''"

definition flag_output_const :: port_flag_t where
  "flag_output_const = ''output-const''"

definition flag_input_mutable :: port_flag_t where
  "flag_input_mutable = ''input-mutable''"

definition flag_input_nodep :: port_flag_t where
  "flag_input_nodep = ''input-nodep''"

definition flag_required :: port_flag_t where
  "flag_required = ''required''"

definition port_sep :: string where
  "port_sep = ''.''"

definition config_edge :: string where
  "config_edge = ''_edge''"

definition config_edge_type :: string where
  "config_edge_type = ''_edge_by_type''"

definition config_edge_conn :: string where
  "config_edge_conn = ''_edge_by_conn''"

text \<open>
  Modelled from the spec: \<open>edge::config_dependency\<close> is defined in edge.cxx, which is
  not among the sources; the specification names the key \<open>dependency\<close>.
\<close>

definition config_dependency :: string where
  "config_dependency = ''dependency''"

text \<open>\<open>boost::starts_with (s, t)\<close>: the string \<open>s\<close> begins with \<open>t\<close>.\<close>

definition starts_with :: "string \<Rightarrow> string \<Rightarrow> bool" where
  "starts_with s t = (take (length t) s = t)"

subsection \<open>std::map operations\<close>

fun map_set :: "'k::linorder \<Rightarrow> 'v \<Rightarrow> ('k \<times> 'v) list \<Rightarrow> ('k \<times> 'v) list" where
  "map_set k v [] = [(k, v)]"
| "map_set k v ((k', v') # m) =
     (if k < k' then (k, v) # (k', v') # m
      else if k = k' then (k, v) # m
      else (k', v') # map_set k v m)"

definition map_find :: "('k \<times> 'v) list \<Rightarrow> 'k \<Rightarrow> 'v option" where
  "map_find m k = map_of m k"

definition map_erase :: "'k \<Rightarrow> ('k \<times> 'v) list \<Rightarrow> ('k \<times> 'v) list" where
  "map_erase k m = filter (\<lambda>kv. fst kv \<noteq> k) m"

text \<open>\<open>m[k]\<close> read: a missing key is inserted with the default value first.\<close>

definition map_index :: "'v \<Rightarrow> ('k::linorder \<times> 'v) list \<Rightarrow> 'k \<Rightarrow> 'v \<times> ('k \<times> 'v) list" where
  "map_index dflt m k =
     (case map_find m k of
        Some v \<Rightarrow> (v, m)
      | None \<Rightarrow> (dflt, map_set k dflt m))"

subsection \<open>Sequencing of operations that may throw\<close>

text \<open>
  A \<open>void\<close> member function is a function from the state to the exception it throws,
  if any, and the state it leaves: an exception does not undo the mutations made before it.
\<close>

fun foreach :: "('a \<Rightarrow> 's \<Rightarrow> exn option \<times> 's) \<Rightarrow> 'a list \<Rightarrow> 's \<Rightarrow> exn option \<times> 's" where
  "foreach f [] s = (None, s)"
| "foreach f (x # xs) s =
     (case f x s of
        (Some e, s') \<Rightarrow> (Some e, s')
      | (None, s') \<Rightarrow> foreach f xs s')"

lemma foreach_cong [fundef_cong]:
  "xs = ys \<Longrightarrow> s = t \<Longrightarrow> (\<And>x u. x \<in> set ys \<Longrightarrow> f x u = g x u)
   \<Longrightarrow> foreach f xs s = foreach g ys t"
proof (induction ys arbitrary: xs s t)
  case Nil
  then show ?case by simp
next
  case (Cons y ys)
  have head: "f y t = g y t" using Cons.prems(3) by simp
  have tail: "\<And>u. foreach f ys u = foreach g ys u"
    using Cons.IH [OF refl refl] Cons.prems(3) by simp
  show ?case using Cons.prems(1,2) head tail by (simp split: prod.splits option.splits)
qed

text \<open>
  A recursion of the source that need not return carries a fuel argument: \<open>None\<close> is
  "no result", because the fuel is used up or because the operation does not return at
  all (a division of a machine integer by zero).
\<close>

fun foreach_fuel ::
  "('a \<Rightarrow> 's \<Rightarrow> (exn option \<times> 's) option) \<Rightarrow> 'a list \<Rightarrow> 's \<Rightarrow> (exn option \<times> 's) option" where
  "foreach_fuel f [] s = Some (None, s)"
| "foreach_fuel f (x # xs) s =
     (case f x s of
        None \<Rightarrow> None
      | Some (Some e, s') \<Rightarrow> Some (Some e, s')
      | Some (None, s') \<Rightarrow> foreach_fuel f xs s')"

section \<open>Rational numbers over size\_t\<close>

text \<open>
  Modelled from the spec: the arithmetic of \<open>boost::rational<size_t>\<close> (boost/rational.hpp
  and boost/math/common_factor_rt.hpp) is library code, which is not among the sources.
  The operations are the ones check_port_frequencies uses, as the library computes them
  on unsigned 64-bit components: a product is reduced by two greatest common divisors
  and then multiplied modulo \<open>2^64\<close>, without a check for overflow; equality compares
  numerators and denominators. A division of a component by zero does not return (the
  behaviour is undefined, and on the usual hardware it is a trap): its result is \<open>None\<close>.
  A division of a rational by the zero rational throws \<open>bad_rational\<close>.
\<close>

text \<open>\<open>boost::math::gcd\<close>: the greatest common divisor, by Euclid's algorithm.\<close>

function gcd_component ::
  "frequency_component_t \<Rightarrow> frequency_component_t \<Rightarrow> frequency_component_t" where
  "gcd_component a b = (if b = 0 then a else gcd_component b (a mod b))"
  by pat_completeness auto
termination
  by (relation "measure (\<lambda>(a, b). unat b)") (auto simp: unat_mod unat_gt_0)

declare gcd_component.simps [simp del]

text \<open>\<open>boost::math::lcm\<close>.\<close>

definition lcm_component ::
  "frequency_component_t \<Rightarrow> frequency_component_t \<Rightarrow> frequency_component_t" where
  "lcm_component a b =
     (let temp = gcd_component a b in if temp \<noteq> 0 then a div temp * b else 0)"

text \<open>\<open>rational::operator*=\<close> with a rational.\<close>

definition rational_times ::
  "port_frequency_t \<Rightarrow> port_frequency_t \<Rightarrow> port_frequency_t option" where
  "rational_times l r =
     (let gcd1 = gcd_component (numerator l) (denominator r);
          gcd2 = gcd_component (numerator r) (denominator l) in
      if gcd1 = 0 \<or> gcd2 = 0 then None
      else Some (Rational ((numerator l div gcd1) * (numerator r div gcd2))
                          ((denominator l div gcd2) * (denominator r div gcd1))))"

text \<open>\<open>rational::operator/=\<close> with a rational.\<close>

definition rational_divide ::
  "port_frequency_t \<Rightarrow> port_frequency_t \<Rightarrow> (exn + port_frequency_t) option" where
  "rational_divide l r =
     (if numerator r = 0 then Some (Inl bad_rational)
      else if numerator l = 0 then Some (Inr l)
      else
        let gcd1 = gcd_component (numerator l) (numerator r);
            gcd2 = gcd_component (denominator r) (denominator l) in
        if gcd1 = 0 \<or> gcd2 = 0 then None
        else Some (Inr (Rational ((numerator l div gcd1) * (denominator r div gcd2))
                                 ((denominator l div gcd2) * (numerator r div gcd1)))))"

text \<open>\<open>rational::operator*=\<close> with an integer.\<close>

definition rational_scale ::
  "frequency_component_t \<Rightarrow> port_frequency_t \<Rightarrow> port_frequency_t option" where
  "rational_scale i r =
     (let g = gcd_component i (denominator r) in
      if g = 0 then None
      else Some (Rational (numerator r * (i div g)) (denominator r div g)))"

text \<open>
  Whether the multiplications of an operation leave the range of \<open>size_t\<close>, so that the
  operation wraps around. These predicates are not part of the program: they say when
  its arithmetic is exact.
\<close>

definition product_overflows :: "frequency_component_t \<Rightarrow> frequency_component_t \<Rightarrow> bool" where
  "product_overflows a b \<longleftrightarrow> 2 ^ 64 \<le> uint a * uint b"

definition times_overflows :: "port_frequency_t \<Rightarrow> port_frequency_t \<Rightarrow> bool" where
  "times_overflows l r =
     (let gcd1 = gcd_component (numerator l) (denominator r);
          gcd2 = gcd_component (numerator r) (denominator l) in
      product_overflows (numerator l div gcd1) (numerator r div gcd2)
      \<or> product_overflows (denominator l div gcd2) (denominator r div gcd1))"

definition divide_overflows :: "port_frequency_t \<Rightarrow> port_frequency_t \<Rightarrow> bool" where
  "divide_overflows l r =
     (numerator r \<noteq> 0 \<and> numerator l \<noteq> 0 \<and>
      (let gcd1 = gcd_component (numerator l) (numerator r);
           gcd2 = gcd_component (denominator r) (denominator l) in
       product_overflows (numerator l div gcd1) (denominator r div gcd2)
       \<or> product_overflows (denominator l div gcd2) (numerator r div gcd1)))"

definition scale_overflows :: "frequency_component_t \<Rightarrow> port_frequency_t \<Rightarrow> bool" where
  "scale_overflows i r =
     product_overflows (numerator r) (i div gcd_component i (denominator r))"

definition lcm_overflows :: "frequency_component_t \<Rightarrow> frequency_component_t \<Rightarrow> bool" where
  "lcm_overflows a b =
     (let temp = gcd_component a b in temp \<noteq> 0 \<and> product_overflows (a div temp) b)"

text \<open>The rational number a frequency stands for.\<close>

definition rational_value :: "port_frequency_t \<Rightarrow> rat" where
  "rational_value f = of_int (uint (numerator f)) / of_int (uint (denominator f))"

section \<open>Port information of a process\<close>

text \<open>
  Modelled from the spec: \<open>process::input_port_info\<close> and \<open>process::output_port_info\<close>
  are defined in process.cxx, which is not among the sources. They return the declared
  information of the port and throw \<open>no_such_port_exception\<close> for a port the process
  does not have.
\<close>

definition input_port_info :: "process \<Rightarrow> port_t \<Rightarrow> exn + port_info" where
  "input_port_info p port =
     (case map_of (input_port_infos p) port of
        None \<Rightarrow> Inl (no_such_port_exception (pname p) port)
      | Some info \<Rightarrow> Inr info)"

definition output_port_info :: "process \<Rightarrow> port_t \<Rightarrow> exn + port_info" where
  "output_port_info p port =
     (case map_of (output_port_infos p) port of
        None \<Rightarrow> Inl (no_such_port_exception (pname p) port)
      | Some info \<Rightarrow> Inr info)"

definition input_ports :: "process \<Rightarrow> port_t list" where
  "input_ports p = map fst (input_port_infos p)"

definition output_ports :: "process \<Rightarrow> port_t list" where
  "output_ports p = map fst (output_port_infos p)"

section \<open>The builder\<close>

text \<open>The state the constructor \<open>priv::priv\<close> builds.\<close>

definition new_pipeline :: "config_t \<Rightarrow> priv" where
  "new_pipeline conf =
     \<lparr> config = conf, planned_connections = [], connections = [], process_map = [],
       cluster_map = [], edge_map = [], process_parent_map = [], parent_stack = [],
       data_dep_connections = [], cluster_connections = [], untyped_connections = [],
       type_pinnings = [], is_setup = False, setup_in_progress = False,
       setup_successful = False, running = False, core_frequency_calls = [] \<rparr>"

subsection \<open>Predicates on connections\<close>

definition is_upstream_for :: "port_addr_t \<Rightarrow> connection_t \<Rightarrow> bool" where
  "is_upstream_for addr connection = (addr = fst connection)"

definition is_downstream_for :: "port_addr_t \<Rightarrow> connection_t \<Rightarrow> bool" where
  "is_downstream_for addr connection = (addr = snd connection)"

definition is_addr_on :: "name_t \<Rightarrow> port_addr_t \<Rightarrow> bool" where
  "is_addr_on name addr = (name = fst addr)"

definition is_connection_with :: "name_t \<Rightarrow> connection_t \<Rightarrow> bool" where
  "is_connection_with name connection =
     (is_addr_on name (fst connection) \<or> is_addr_on name (snd connection))"

definition is_cluster_connection_with ::
  "name_t \<Rightarrow> connection_t \<times> cluster_connection_type_t \<Rightarrow> bool" where
  "is_cluster_connection_with name cconnection = is_connection_with name (fst cconnection)"

definition is_cluster_connection_for ::
  "connection_t \<Rightarrow> connection_t \<times> cluster_connection_type_t \<Rightarrow> bool" where
  "is_cluster_connection_for connection cconnection = (connection = fst cconnection)"

subsection \<open>Name lookups\<close>

definition process_names :: "priv \<Rightarrow> name_t list" where
  "process_names d = map fst (process_map d)"

definition process_by_name :: "priv \<Rightarrow> name_t \<Rightarrow> exn + process" where
  "process_by_name d name =
     (case map_find (process_map d) name of
        None \<Rightarrow> Inl (no_such_process_exception name)
      | Some p \<Rightarrow> Inr p)"

definition parent_cluster :: "priv \<Rightarrow> name_t \<Rightarrow> exn + name_t" where
  "parent_cluster d name =
     (case map_find (process_parent_map d) name of
        None \<Rightarrow> Inl (no_such_process_exception name)
      | Some parent \<Rightarrow> Inr parent)"

definition cluster_names :: "priv \<Rightarrow> name_t list" where
  "cluster_names d = map fst (cluster_map d)"

definition cluster_by_name :: "priv \<Rightarrow> name_t \<Rightarrow> exn + process" where
  "cluster_by_name d name =
     (case map_find (cluster_map d) name of
        None \<Rightarrow> Inl (no_such_process_exception name)
      | Some c \<Rightarrow> Inr c)"

definition check_duplicate_name :: "name_t \<Rightarrow> priv \<Rightarrow> exn option" where
  "check_duplicate_name name d =
     (if map_find (process_map d) name \<noteq> None \<or> map_find (cluster_map d) name \<noteq> None
      then Some (duplicate_process_name_exception name)
      else None)"

subsection \<open>Checking a connection\<close>

definition check_connection_types ::
  "connection_t \<Rightarrow> port_type_t \<Rightarrow> port_type_t \<Rightarrow> priv \<Rightarrow> port_type_status \<times> priv" where
  "check_connection_types connection up_type down_type d =
     (let up_data_dep = (up_type = type_data_dependent) in
      if up_data_dep
      then (type_deferred,
            d\<lparr>data_dep_connections := data_dep_connections d @ [connection]\<rparr>)
      else
        let up_flow_dep = starts_with up_type type_flow_dependent;
            down_flow_dep = starts_with down_type type_flow_dependent in
        if up_flow_dep \<or> down_flow_dep
        then (type_deferred,
              if up_flow_dep \<and> down_flow_dep
              then d\<lparr>untyped_connections := untyped_connections d @ [connection]\<rparr>
              else if up_flow_dep
              then d\<lparr>type_pinnings := type_pinnings d @ [(connection, push_upstream)]\<rparr>
              else if down_flow_dep
              then d\<lparr>type_pinnings := type_pinnings d @ [(connection, push_downstream)]\<rparr>
              else d)
        else if up_type \<noteq> type_any \<and> down_type \<noteq> type_any \<and> up_type \<noteq> down_type
        then (type_mismatch, d)
        else (type_compatible, d))"

definition check_connection_flags :: "port_flag_t set \<Rightarrow> port_flag_t set \<Rightarrow> bool" where
  "check_connection_flags up_flags down_flags =
     (let is_const = (flag_output_const \<in> up_flags);
          requires_mutable = (flag_input_mutable \<in> down_flags) in
      if is_const \<and> requires_mutable then False else True)"

subsection \<open>connect\<close>

definition connect ::
  "name_t \<Rightarrow> port_t \<Rightarrow> name_t \<Rightarrow> port_t \<Rightarrow> priv \<Rightarrow> exn option \<times> priv" where
  "connect upstream_name upstream_port downstream_name downstream_port d =
     (if is_setup d \<and> \<not> setup_in_progress d
      then (Some (connection_after_setup_exception upstream_name upstream_port
                    downstream_name downstream_port), d)
      else
        let connection = ((upstream_name, upstream_port), (downstream_name, downstream_port));
            d1 = (if \<not> setup_in_progress d
                  then d\<lparr>planned_connections := planned_connections d @ [connection]\<rparr>
                  else d);
            upstream_is_cluster = (map_find (cluster_map d1) upstream_name \<noteq> None);
            downstream_is_cluster = (map_find (cluster_map d1) downstream_name \<noteq> None) in
        if upstream_is_cluster \<or> downstream_is_cluster
        then
          (None,
           if upstream_is_cluster
           then d1\<lparr>cluster_connections :=
                     cluster_connections d1 @ [(connection, cluster_upstream)]\<rparr>
           else if downstream_is_cluster
           then d1\<lparr>cluster_connections :=
                     cluster_connections d1 @ [(connection, cluster_downstream)]\<rparr>
           else d1)
        else
          (case process_by_name d1 upstream_name of
             Inl e \<Rightarrow> (Some e, d1)
           | Inr up_proc \<Rightarrow>
          (case process_by_name d1 downstream_name of
             Inl e \<Rightarrow> (Some e, d1)
           | Inr down_proc \<Rightarrow>
          (case output_port_info up_proc upstream_port of
             Inl e \<Rightarrow> (Some e, d1)
           | Inr up_info \<Rightarrow>
          (case input_port_info down_proc downstream_port of
             Inl e \<Rightarrow> (Some e, d1)
           | Inr down_info \<Rightarrow>
             if \<not> check_connection_flags (flags up_info) (flags down_info)
             then (Some (connection_flag_mismatch_exception upstream_name upstream_port
                           downstream_name downstream_port), d1)
             else
               (case check_connection_types connection (ptype up_info) (ptype down_info) d1 of
                  (type_deferred, d2) \<Rightarrow> (None, d2)
                | (type_mismatch, d2) \<Rightarrow>
                    (Some (connection_type_mismatch_exception
                             upstream_name upstream_port (ptype up_info)
                             downstream_name downstream_port (ptype down_info)), d2)
                | (type_compatible, d2) \<Rightarrow>
                    (None, d2\<lparr>connections := connections d2 @ [connection]\<rparr>)))))))"

text \<open>The call \<open>connect\<close> on the four components of a connection.\<close>

definition connect_connection :: "connection_t \<Rightarrow> priv \<Rightarrow> exn option \<times> priv" where
  "connect_connection c d = connect (fst (fst c)) (snd (fst c)) (fst (snd c)) (snd (snd c)) d"

subsection \<open>add\_process and remove\_process\<close>

text \<open>
  The argument of \<open>add_process\<close> is a shared pointer: \<open>None\<close> is the null pointer.
  An exception thrown while the children or the internal connections of a cluster are
  added leaves the state as it is at that moment (the parent stack is not popped).
\<close>

function add_process :: "process option \<Rightarrow> priv \<Rightarrow> exn option \<times> priv" where
  "add_process None d = (Some null_process_addition_exception, d)"
| "add_process (Some (Process name ips ops)) d =
     (if is_setup d then (Some (add_after_setup_exception name), d)
      else
        (case check_duplicate_name name d of
           Some e \<Rightarrow> (Some e, d)
         | None \<Rightarrow>
             let parent = (case parent_stack d of [] \<Rightarrow> [] | stack_top # below \<Rightarrow> stack_top) in
             (None, d\<lparr>process_map := map_set name (Process name ips ops) (process_map d),
                      process_parent_map := map_set name parent (process_parent_map d)\<rparr>)))"
| "add_process (Some (Cluster name cluster_procs conns im om)) d =
     (if is_setup d then (Some (add_after_setup_exception name), d)
      else
        (case check_duplicate_name name d of
           Some e \<Rightarrow> (Some e, d)
         | None \<Rightarrow>
             let parent = (case parent_stack d of [] \<Rightarrow> [] | stack_top # below \<Rightarrow> stack_top);
                 d1 = d\<lparr>cluster_map :=
                          map_set name (Cluster name cluster_procs conns im om) (cluster_map d),
                        process_parent_map := map_set name parent (process_parent_map d),
                        parent_stack := name # parent_stack d\<rparr> in
             (case foreach (\<lambda>cluster_proc. add_process (Some cluster_proc)) cluster_procs d1 of
                (Some e, d2) \<Rightarrow> (Some e, d2)
              | (None, d2) \<Rightarrow>
                  (case foreach connect_connection conns d2 of
                     (Some e, d3) \<Rightarrow> (Some e, d3)
                   | (None, d3) \<Rightarrow> (None, d3\<lparr>parent_stack := tl (parent_stack d3)\<rparr>)))))"
  by pat_completeness auto
termination
proof (relation "measure (\<lambda>(p, d). case p of None \<Rightarrow> 0 | Some q \<Rightarrow> size q)")
  show "wf (measure (\<lambda>(p, d). case p of None \<Rightarrow> 0 | Some q \<Rightarrow> size q))" by simp
next
  fix name :: name_t and cluster_procs :: "process list" and conns im om :: "connection_t list"
    and d d1 :: priv and x :: process and parent :: name_t and u :: priv
  assume "x \<in> set cluster_procs"
  then have "size x < Suc (size_list size cluster_procs)"
    by (induction cluster_procs) auto
  then show "((Some x, u), (Some (Cluster name cluster_procs conns im om), d))
     \<in> measure (\<lambda>(p, d). case p of None \<Rightarrow> 0 | Some q \<Rightarrow> size q)"
    by simp
qed

definition remove_from_pipeline :: "name_t \<Rightarrow> priv \<Rightarrow> priv" where
  "remove_from_pipeline name d =
     d\<lparr>planned_connections :=
         filter (\<lambda>c. \<not> is_connection_with name c) (planned_connections d),
       connections := filter (\<lambda>c. \<not> is_connection_with name c) (connections d),
       data_dep_connections :=
         filter (\<lambda>c. \<not> is_connection_with name c) (data_dep_connections d),
       untyped_connections :=
         filter (\<lambda>c. \<not> is_connection_with name c) (untyped_connections d),
       cluster_connections :=
         filter (\<lambda>c. \<not> is_cluster_connection_with name c) (cluster_connections d)\<rparr>"

text \<open>
  \<open>remove_process\<close> recurses through the children of the cluster registered under the
  name; the recursion is bounded by the fuel.
\<close>

fun remove_process :: "nat \<Rightarrow> name_t \<Rightarrow> priv \<Rightarrow> (exn option \<times> priv) option" where
  "remove_process 0 name d = None"
| "remove_process (Suc n) name d =
     (if is_setup d then Some (Some (remove_after_setup_exception name), d)
      else
        (case map_find (cluster_map d) name of
           Some cluster \<Rightarrow>
             (case foreach_fuel (\<lambda>cluster_proc. remove_process n (pname cluster_proc))
                     (processes cluster) d of
                None \<Rightarrow> None
              | Some (Some e, d1) \<Rightarrow> Some (Some e, d1)
              | Some (None, d1) \<Rightarrow> Some (None, d1\<lparr>cluster_map := map_erase name (cluster_map d1)\<rparr>))
         | None \<Rightarrow>
             (case map_find (process_map d) name of
                None \<Rightarrow> Some (Some (no_such_process_exception name), d)
              | Some p \<Rightarrow>
                  Some (None,
                        remove_from_pipeline name
                          (d\<lparr>process_map := map_erase name (process_map d)\<rparr>)))))"

subsection \<open>Queries on the pipeline that is set up\<close>

definition ensure_setup :: "priv \<Rightarrow> exn option" where
  "ensure_setup d =
     (if \<not> is_setup d then Some pipeline_not_setup_exception
      else if \<not> setup_in_progress d \<and> \<not> setup_successful d
      then Some pipeline_not_ready_exception
      else None)"

text \<open>
  The queries look processes up with \<open>process_map.find (name)\<close> and dereference the
  iterator without a test; a name that is not registered gives \<open>invalid_access\<close>.
\<close>

fun lookup_processes :: "priv \<Rightarrow> name_t list \<Rightarrow> exn + process list" where
  "lookup_processes d [] = Inr []"
| "lookup_processes d (process_name # names) =
     (case map_find (process_map d) process_name of
        None \<Rightarrow> Inl invalid_access
      | Some p \<Rightarrow>
          (case lookup_processes d names of
             Inl e \<Rightarrow> Inl e
           | Inr ps \<Rightarrow> Inr (p # ps)))"

text \<open>The body of each query is the code after the call of \<open>ensure_setup\<close>.\<close>

definition upstream_for_process_lookup :: "priv \<Rightarrow> name_t \<Rightarrow> exn + process list" where
  "upstream_for_process_lookup d name =
     lookup_processes d
       (sort (remdups (map (\<lambda>c. fst (fst c)) (filter (\<lambda>c. fst (snd c) = name) (connections d)))))"

definition upstream_for_process :: "priv \<Rightarrow> name_t \<Rightarrow> exn + process list" where
  "upstream_for_process d name =
     (case ensure_setup d of Some e \<Rightarrow> Inl e | None \<Rightarrow> upstream_for_process_lookup d name)"

definition upstream_for_port_lookup :: "priv \<Rightarrow> name_t \<Rightarrow> port_t \<Rightarrow> exn + process option" where
  "upstream_for_port_lookup d name port =
     (case find (\<lambda>c. fst (snd c) = name \<and> snd (snd c) = port) (connections d) of
        None \<Rightarrow> Inr None
      | Some c \<Rightarrow>
          (case map_find (process_map d) (fst (fst c)) of
             None \<Rightarrow> Inl invalid_access
           | Some p \<Rightarrow> Inr (Some p)))"

definition upstream_for_port :: "priv \<Rightarrow> name_t \<Rightarrow> port_t \<Rightarrow> exn + process option" where
  "upstream_for_port d name port =
     (case ensure_setup d of Some e \<Rightarrow> Inl e | None \<Rightarrow> upstream_for_port_lookup d name port)"

definition downstream_for_process_lookup :: "priv \<Rightarrow> name_t \<Rightarrow> exn + process list" where
  "downstream_for_process_lookup d name =
     lookup_processes d
       (sort (remdups (map (\<lambda>c. fst (snd c)) (filter (\<lambda>c. fst (fst c) = name) (connections d)))))"

definition downstream_for_process :: "priv \<Rightarrow> name_t \<Rightarrow> exn + process list" where
  "downstream_for_process d name =
     (case ensure_setup d of Some e \<Rightarrow> Inl e | None \<Rightarrow> downstream_for_process_lookup d name)"

definition downstream_for_port_lookup :: "priv \<Rightarrow> name_t \<Rightarrow> port_t \<Rightarrow> exn + process list" where
  "downstream_for_port_lookup d name port =
     lookup_processes d
       (sort (remdups (map (\<lambda>c. fst (snd c))
          (filter (\<lambda>c. fst (fst c) = name \<and> snd (fst c) = port) (connections d)))))"

definition downstream_for_port :: "priv \<Rightarrow> name_t \<Rightarrow> port_t \<Rightarrow> exn + process list" where
  "downstream_for_port d name port =
     (case ensure_setup d of Some e \<Rightarrow> Inl e | None \<Rightarrow> downstream_for_port_lookup d name port)"

text \<open>\<open>process::port_addr_t()\<close> is the pair of two empty strings.\<close>

definition sender_for_port_lookup :: "priv \<Rightarrow> name_t \<Rightarrow> port_t \<Rightarrow> port_addr_t" where
  "sender_for_port_lookup d name port =
     (case find (\<lambda>c. fst (snd c) = name \<and> snd (snd c) = port) (connections d) of
        None \<Rightarrow> ([], [])
      | Some c \<Rightarrow> fst c)"

definition sender_for_port :: "priv \<Rightarrow> name_t \<Rightarrow> port_t \<Rightarrow> exn + port_addr_t" where
  "sender_for_port d name port =
     (case ensure_setup d of
        Some e \<Rightarrow> Inl e
      | None \<Rightarrow> Inr (sender_for_port_lookup d name port))"

definition receivers_for_port_lookup :: "priv \<Rightarrow> name_t \<Rightarrow> port_t \<Rightarrow> port_addr_t list" where
  "receivers_for_port_lookup d name port =
     map snd (filter (\<lambda>c. fst (fst c) = name \<and> snd (fst c) = port) (connections d))"

definition receivers_for_port :: "priv \<Rightarrow> name_t \<Rightarrow> port_t \<Rightarrow> exn + port_addr_t list" where
  "receivers_for_port d name port =
     (case ensure_setup d of
        Some e \<Rightarrow> Inl e
      | None \<Rightarrow> Inr (receivers_for_port_lookup d name port))"

fun first_index :: "('a \<Rightarrow> bool) \<Rightarrow> 'a list \<Rightarrow> nat \<Rightarrow> nat option" where
  "first_index P [] i = None"
| "first_index P (x # xs) i = (if P x then Some i else first_index P xs (Suc i))"

text \<open>
  \<open>edge_for_connection\<close> returns \<open>d->edge_map[i]\<close>: where the map has no edge for the
  index yet, the access inserts the null edge, so the query returns the state as well.
  The null edge handle \<open>edge_t()\<close> is \<open>None\<close>.
\<close>

definition edge_for_connection_lookup ::
  "priv \<Rightarrow> name_t \<Rightarrow> port_t \<Rightarrow> name_t \<Rightarrow> port_t \<Rightarrow> edge option \<times> priv" where
  "edge_for_connection_lookup d upstream_name upstream_port downstream_name downstream_port =
     (case first_index
             (\<lambda>c. fst (fst c) = upstream_name \<and> snd (fst c) = upstream_port \<and>
                  fst (snd c) = downstream_name \<and> snd (snd c) = downstream_port)
             (connections d) 0 of
        Some i \<Rightarrow>
          (case map_index None (edge_map d) i of
             (e, m) \<Rightarrow> (e, d\<lparr>edge_map := m\<rparr>))
      | None \<Rightarrow> (None, d))"

definition edge_for_connection ::
  "priv \<Rightarrow> name_t \<Rightarrow> port_t \<Rightarrow> name_t \<Rightarrow> port_t \<Rightarrow> (exn + edge option) \<times> priv" where
  "edge_for_connection d upstream_name upstream_port downstream_name downstream_port =
     (case ensure_setup d of
        Some e \<Rightarrow> (Inl e, d)
      | None \<Rightarrow>
          (case edge_for_connection_lookup d upstream_name upstream_port
                  downstream_name downstream_port of
             (e, d') \<Rightarrow> (Inr e, d')))"

text \<open>
  The edge queries walk \<open>edge_map\<close> and read \<open>d->connections[i]\<close> for each index of
  the map.
\<close>

fun edges_where ::
  "connection_t list \<Rightarrow> (connection_t \<Rightarrow> bool) \<Rightarrow> (nat \<times> edge option) list \<Rightarrow> exn + edge option list" where
  "edges_where conns P [] = Inr []"
| "edges_where conns P ((i, e) # m) =
     (if i < length conns
      then (case edges_where conns P m of
              Inl x \<Rightarrow> Inl x
            | Inr es \<Rightarrow> Inr (if P (conns ! i) then e # es else es))
      else Inl invalid_access)"

fun first_edge_where ::
  "connection_t list \<Rightarrow> (connection_t \<Rightarrow> bool) \<Rightarrow> (nat \<times> edge option) list \<Rightarrow> exn + edge option" where
  "first_edge_where conns P [] = Inr None"
| "first_edge_where conns P ((i, e) # m) =
     (if i < length conns
      then (if P (conns ! i) then Inr e else first_edge_where conns P m)
      else Inl invalid_access)"

definition input_edges_for_process_lookup :: "priv \<Rightarrow> name_t \<Rightarrow> exn + edge option list" where
  "input_edges_for_process_lookup d name =
     edges_where (connections d) (\<lambda>c. fst (snd c) = name) (edge_map d)"

definition input_edges_for_process :: "priv \<Rightarrow> name_t \<Rightarrow> exn + edge option list" where
  "input_edges_for_process d name =
     (case ensure_setup d of Some e \<Rightarrow> Inl e | None \<Rightarrow> input_edges_for_process_lookup d name)"

definition input_edge_for_port_lookup :: "priv \<Rightarrow> name_t \<Rightarrow> port_t \<Rightarrow> exn + edge option" where
  "input_edge_for_port_lookup d name port =
     first_edge_where (connections d) (\<lambda>c. fst (snd c) = name \<and> snd (snd c) = port) (edge_map d)"

definition input_edge_for_port :: "priv \<Rightarrow> name_t \<Rightarrow> port_t \<Rightarrow> exn + edge option" where
  "input_edge_for_port d name port =
     (case ensure_setup d of Some e \<Rightarrow> Inl e | None \<Rightarrow> input_edge_for_port_lookup d name port)"

definition output_edges_for_process_lookup :: "priv \<Rightarrow> name_t \<Rightarrow> exn + edge option list" where
  "output_edges_for_process_lookup d name =
     edges_where (connections d) (\<lambda>c. fst (fst c) = name) (edge_map d)"

definition output_edges_for_process :: "priv \<Rightarrow> name_t \<Rightarrow> exn + edge option list" where
  "output_edges_for_process d name =
     (case ensure_setup d of Some e \<Rightarrow> Inl e | None \<Rightarrow> output_edges_for_process_lookup d name)"

definition output_edges_for_port_lookup :: "priv \<Rightarrow> name_t \<Rightarrow> port_t \<Rightarrow> exn + edge option list" where
  "output_edges_for_port_lookup d name port =
     edges_where (connections d) (\<lambda>c. fst (fst c) = name \<and> snd (fst c) = port) (edge_map d)"

definition output_edges_for_port :: "priv \<Rightarrow> name_t \<Rightarrow> port_t \<Rightarrow> exn + edge option list" where
  "output_edges_for_port d name port =
     (case ensure_setup d of Some e \<Rightarrow> Inl e | None \<Rightarrow> output_edges_for_port_lookup d name port)"

definition start :: "priv \<Rightarrow> exn option \<times> priv" where
  "start d =
     (case ensure_setup d of
        Some e \<Rightarrow> (Some e, d)
      | None \<Rightarrow> (None, d\<lparr>running := True\<rparr>))"

section \<open>The setup passes\<close>

text \<open>
  A process is a shared object that the hooks mutate in place: the model stores the
  process the hook has left under the key of the process in \<open>process_map\<close>.
\<close>

definition store_process :: "name_t \<Rightarrow> process \<Rightarrow> priv \<Rightarrow> priv" where
  "store_process name p d = d\<lparr>process_map := map_set name p (process_map d)\<rparr>"

definition check_for_processes :: "priv \<Rightarrow> exn option" where
  "check_for_processes d =
     (if length (process_map d) = 0 then Some no_processes_exception else None)"

subsection \<open>Mapping the connections of clusters\<close>

text \<open>One turn of the loop of \<open>map_cluster_connections\<close>.\<close>

definition map_cluster_connection ::
  "connection_t \<times> cluster_connection_type_t \<Rightarrow> priv \<Rightarrow> exn option \<times> priv" where
  "map_cluster_connection cconnection d =
     (let connection = fst cconnection;
          upstream_addr = fst connection;
          downstream_addr = snd connection;
          upstream_name = fst upstream_addr;
          upstream_port = snd upstream_addr;
          downstream_name = fst downstream_addr;
          downstream_port = snd downstream_addr in
      case snd cconnection of
        cluster_upstream \<Rightarrow>
          (let cluster_name = upstream_name; cluster_port = upstream_port in
           case map_find (cluster_map d) cluster_name of
             None \<Rightarrow> (Some (no_such_process_exception cluster_name), d)
           | Some cluster \<Rightarrow>
               let mapped_connections =
                     filter (is_downstream_for upstream_addr) (output_mappings cluster) in
               if mapped_connections = []
               then (Some (no_such_port_exception cluster_name cluster_port), d)
               else if length mapped_connections \<noteq> 1
               then (Some (logic_error
                       ''Failed to ensure that only one output mapping is allowed on a cluster port''), d)
               else
                 let mapped_port_conn = mapped_connections ! 0;
                     mapped_port_addr = fst mapped_port_conn in
                 connect (fst mapped_port_addr) (snd mapped_port_addr)
                   downstream_name downstream_port d)
      | cluster_downstream \<Rightarrow>
          (let cluster_name = downstream_name; cluster_port = downstream_port in
           case map_find (cluster_map d) cluster_name of
             None \<Rightarrow> (Some (no_such_process_exception cluster_name), d)
           | Some cluster \<Rightarrow>
               let mapped_connections =
                     filter (is_upstream_for downstream_addr) (input_mappings cluster) in
               if mapped_connections = []
               then (Some (no_such_port_exception cluster_name cluster_port), d)
               else
                 foreach
                   (\<lambda>mapped_port_conn.
                      connect upstream_name upstream_port
                        (fst (snd mapped_port_conn)) (snd (snd mapped_port_conn)))
                   mapped_connections d))"

fun map_cluster_connections :: "nat \<Rightarrow> priv \<Rightarrow> (exn option \<times> priv) option" where
  "map_cluster_connections 0 d = None"
| "map_cluster_connections (Suc n) d =
     (let cconnections = cluster_connections d;
          d1 = d\<lparr>cluster_connections := []\<rparr> in
      case foreach map_cluster_connection cconnections d1 of
        (Some e, d2) \<Rightarrow> Some (Some e, d2)
      | (None, d2) \<Rightarrow>
          if cluster_connections d2 \<noteq> [] then map_cluster_connections n d2
          else Some (None, d2))"

subsection \<open>Configuring the processes\<close>

text \<open>
  The inner loop of \<open>configure_processes\<close> for the process \<open>name\<close>: its state is the
  list \<open>unresolved_connections\<close>, the flag \<open>resolved_types\<close> and the pipeline. The
  loop walks \<open>data_dep_connections\<close>; the \<open>connect\<close> it calls cannot append to that
  list, since the upstream type has just been found not to be data-dependent.
\<close>

definition resolve_data_dep ::
  "name_t \<Rightarrow> connection_t \<Rightarrow> connection_t list \<times> bool \<times> priv
   \<Rightarrow> exn option \<times> connection_t list \<times> bool \<times> priv" where
  "resolve_data_dep name data_dep_connection st =
     (case st of (unresolved_connections, resolved_types, d) \<Rightarrow>
      let data_name = fst (fst data_dep_connection);
          data_port = snd (fst data_dep_connection);
          downstream_name = fst (snd data_dep_connection);
          downstream_port = snd (snd data_dep_connection) in
      if name = data_name
      then
        (case map_find (process_map d) name of
           None \<Rightarrow> (Some invalid_access, st)
         | Some proc \<Rightarrow>
             (case output_port_info proc data_port of
                Inl e \<Rightarrow> (Some e, st)
              | Inr info \<Rightarrow>
                  if ptype info = type_data_dependent
                  then (Some (untyped_data_dependent_exception data_name data_port), st)
                  else
                    (case connect data_name data_port downstream_name downstream_port d of
                       (r, d') \<Rightarrow> (r, unresolved_connections, True, d'))))
      else (None, unresolved_connections @ [data_dep_connection], resolved_types, d))"

definition configure_process :: "extern \<Rightarrow> name_t \<Rightarrow> priv \<Rightarrow> exn option \<times> priv" where
  "configure_process h name d =
     (case process_by_name d name of
        Inl e \<Rightarrow> (Some e, d)
      | Inr proc \<Rightarrow>
          (case proc_configure h proc of
             (Some e, proc') \<Rightarrow> (Some e, store_process name proc' d)
           | (None, proc') \<Rightarrow>
               let d1 = store_process name proc' d in
               (case foreach (resolve_data_dep name) (data_dep_connections d1) ([], False, d1) of
                  (Some e, unresolved_connections, resolved_types, d2) \<Rightarrow> (Some e, d2)
                | (None, unresolved_connections, resolved_types, d2) \<Rightarrow>
                    (None,
                     if resolved_types
                     then d2\<lparr>data_dep_connections := unresolved_connections\<rparr>
                     else d2))))"

definition configure_processes :: "extern \<Rightarrow> priv \<Rightarrow> exn option \<times> priv" where
  "configure_processes h d = foreach (configure_process h) (process_names d) d"

definition check_for_data_dep_ports :: "priv \<Rightarrow> exn option" where
  "check_for_data_dep_ports d =
     (if length (data_dep_connections d) \<noteq> 0
      then Some (logic_error ''Data dependency port tracking failed'')
      else None)"

subsection \<open>Propagating the pinned types\<close>

text \<open>
  One turn of the inner loop of \<open>propagate\<close> for the process \<open>name\<close> taken from the
  queue: its state is the queue \<open>kyu\<close> and the pipeline.
\<close>

definition propagate_connection ::
  "extern \<Rightarrow> name_t \<Rightarrow> connection_t \<Rightarrow> name_t list \<times> priv \<Rightarrow> exn option \<times> name_t list \<times> priv" where
  "propagate_connection h name connection st =
     (case st of (kyu, d) \<Rightarrow>
      let upstream_name = fst (fst connection);
          upstream_port = snd (fst connection);
          downstream_name = fst (snd connection);
          downstream_port = snd (snd connection);
          unresolved = (None, kyu, d\<lparr>untyped_connections := untyped_connections d @ [connection]\<rparr>) in
      (case map_find (process_map d) name of
        None \<Rightarrow> (Some invalid_access, st)
      | Some proc \<Rightarrow>
          if downstream_name = name
          then
            (case input_port_info proc downstream_port of
               Inl e \<Rightarrow> (Some e, st)
             | Inr info \<Rightarrow>
                 if \<not> starts_with (ptype info) type_flow_dependent
                 then
                   (case process_by_name d upstream_name of
                      Inl e \<Rightarrow> (Some e, st)
                    | Inr up_proc \<Rightarrow>
                        (case proc_set_output_port_type h up_proc upstream_port (ptype info) of
                           (ok, up_proc') \<Rightarrow>
                             if \<not> ok
                             then (Some (propagation_exception upstream_name upstream_port
                                           downstream_name downstream_port (ptype info) True),
                                   kyu, store_process upstream_name up_proc' d)
                             else
                               (case connect upstream_name upstream_port downstream_name
                                       downstream_port (store_process upstream_name up_proc' d) of
                                  (r, d') \<Rightarrow>
                                    (r, if r = None then kyu @ [upstream_name] else kyu, d'))))
                 else unresolved)
          else if upstream_name = name
          then
            (case output_port_info proc upstream_port of
               Inl e \<Rightarrow> (Some e, st)
             | Inr info \<Rightarrow>
                 if \<not> starts_with (ptype info) type_flow_dependent
                 then
                   (case process_by_name d downstream_name of
                      Inl e \<Rightarrow> (Some e, st)
                    | Inr down_proc \<Rightarrow>
                        (case proc_set_input_port_type h down_proc downstream_port (ptype info) of
                           (ok, down_proc') \<Rightarrow>
                             if \<not> ok
                             then (Some (propagation_exception upstream_name upstream_port
                                           downstream_name downstream_port (ptype info) False),
                                   kyu, store_process downstream_name down_proc' d)
                             else
                               (case connect upstream_name upstream_port downstream_name
                                       downstream_port (store_process downstream_name down_proc' d) of
                                  (r, d') \<Rightarrow>
                                    (r, if r = None then kyu @ [downstream_name] else kyu, d'))))
                 else unresolved)
          else unresolved))"

text \<open>
  \<open>propagate (root)\<close> is \<open>propagate h fuel [root]\<close>: the second argument bounds the
  turns of the \<open>while\<close> loop over the queue.
\<close>

fun propagate :: "extern \<Rightarrow> nat \<Rightarrow> name_t list \<Rightarrow> priv \<Rightarrow> (exn option \<times> priv) option" where
  "propagate h n [] d = Some (None, d)"
| "propagate h 0 (name # kyu) d = None"
| "propagate h (Suc n) (name # kyu) d =
     (case process_by_name d name of
        Inl e \<Rightarrow> Some (Some e, d)
      | Inr proc \<Rightarrow>
          let conns = untyped_connections d;
              d1 = d\<lparr>untyped_connections := []\<rparr> in
          (case foreach (propagate_connection h name) conns (kyu, d1) of
             (Some e, kyu', d2) \<Rightarrow> Some (Some e, d2)
           | (None, kyu', d2) \<Rightarrow> propagate h n kyu' d2))"

text \<open>One turn of the loop of \<open>propagate_pinned_types\<close>.\<close>

definition propagate_pinning ::
  "extern \<Rightarrow> nat \<Rightarrow> connection_t \<times> direction_t \<Rightarrow> priv \<Rightarrow> (exn option \<times> priv) option" where
  "propagate_pinning h fuel pinning d =
     (let connection = fst pinning;
          direction = snd pinning;
          upstream_name = fst (fst connection);
          upstream_port = snd (fst connection);
          downstream_name = fst (snd connection);
          downstream_port = snd (snd connection) in
      case process_by_name d upstream_name of
        Inl e \<Rightarrow> Some (Some e, d)
      | Inr up_proc \<Rightarrow>
      (case process_by_name d downstream_name of
        Inl e \<Rightarrow> Some (Some e, d)
      | Inr down_proc \<Rightarrow>
      (case output_port_info up_proc upstream_port of
        Inl e \<Rightarrow> Some (Some e, d)
      | Inr up_info \<Rightarrow>
      (case input_port_info down_proc downstream_port of
        Inl e \<Rightarrow> Some (Some e, d)
      | Inr down_info \<Rightarrow>
          let up_type = ptype up_info;
              down_type = ptype down_info;
              pinned =
                (case direction of
                   push_upstream \<Rightarrow>
                     (case proc_set_output_port_type h up_proc upstream_port down_type of
                        (ok, up_proc') \<Rightarrow>
                          (if \<not> ok
                           then Some (connection_dependent_type_exception upstream_name
                                        upstream_port downstream_name downstream_port down_type True)
                           else None,
                           (upstream_name, upstream_port, down_type),
                           store_process upstream_name up_proc' d))
                 | push_downstream \<Rightarrow>
                     (case proc_set_input_port_type h down_proc downstream_port up_type of
                        (ok, down_proc') \<Rightarrow>
                          (if \<not> ok
                           then Some (connection_dependent_type_exception upstream_name
                                        upstream_port downstream_name downstream_port up_type False)
                           else None,
                           (downstream_name, downstream_port, up_type),
                           store_process downstream_name down_proc' d))) in
          (case pinned of
             (Some e, npt, d1) \<Rightarrow> Some (Some e, d1)
           | (None, (name, port, type), d1) \<Rightarrow>
               (case propagate h fuel [name] d1 of
                  None \<Rightarrow> None
                | Some (Some (propagation_exception un up dn dp ty pu), d2) \<Rightarrow>
                    Some (Some (connection_dependent_type_cascade_exception
                                  name port type un up dn dp ty pu), d2)
                | Some (Some e, d2) \<Rightarrow> Some (Some e, d2)
                | Some (None, d2) \<Rightarrow>
                    Some (connect upstream_name upstream_port
                            downstream_name downstream_port d2)))))))"

fun propagate_pinned_types :: "extern \<Rightarrow> nat \<Rightarrow> priv \<Rightarrow> (exn option \<times> priv) option" where
  "propagate_pinned_types h 0 d = None"
| "propagate_pinned_types h (Suc n) d =
     (let pinnings = type_pinnings d;
          d1 = d\<lparr>type_pinnings := []\<rparr> in
      case foreach_fuel (propagate_pinning h (Suc n)) pinnings d1 of
        None \<Rightarrow> None
      | Some (Some e, d2) \<Rightarrow> Some (Some e, d2)
      | Some (None, d2) \<Rightarrow>
          if length (type_pinnings d2) \<noteq> 0 then propagate_pinned_types h n d2
          else Some (None, d2))"

definition check_for_untyped_ports :: "priv \<Rightarrow> exn option" where
  "check_for_untyped_ports d =
     (if length (untyped_connections d) \<noteq> 0 then Some untyped_connection_exception else None)"

subsection \<open>Making the edges\<close>

text \<open>
  One turn of the loop of \<open>make_connections\<close>. The edge is stored in \<open>edge_map\<close>
  before the processes are told of it, and learns its two processes last; an edge holds the
  names of its processes. Where the connection is from a process to itself, the two
  handles \<open>up_proc\<close> and \<open>down_proc\<close> are the same object.
\<close>

definition make_connection :: "extern \<Rightarrow> nat \<Rightarrow> priv \<Rightarrow> exn option \<times> priv" where
  "make_connection h i d =
     (if \<not> i < length (connections d) then (Some invalid_access, d)
      else
        let connection = connections d ! i;
            upstream_name = fst (fst connection);
            upstream_port = snd (fst connection);
            downstream_name = fst (snd connection);
            downstream_port = snd (snd connection) in
        (case process_by_name d upstream_name of
           Inl x \<Rightarrow> (Some x, d)
         | Inr up_proc \<Rightarrow>
        (case process_by_name d downstream_name of
           Inl x \<Rightarrow> (Some x, d)
         | Inr down_proc \<Rightarrow>
        (case input_port_info down_proc downstream_port of
           Inl x \<Rightarrow> (Some x, d)
         | Inr down_info \<Rightarrow>
             let down_flags = flags down_info;
                 edge_config0 = config_subblock h (config d) config_edge;
                 down_type = ptype down_info;
                 type_config = config_subblock h (config d) config_edge_type;
                 edge_type_config = config_subblock h type_config down_type;
                 edge_config1 = config_merge h edge_config0 edge_type_config;
                 conn_config = config_subblock h (config d) config_edge_conn;
                 up_config = config_subblock h conn_config (upstream_name @ port_sep @ upstream_port);
                 down_config =
                   config_subblock h conn_config (downstream_name @ port_sep @ downstream_port);
                 edge_config2 = config_merge h edge_config1 up_config;
                 edge_config3 = config_merge h edge_config2 down_config;
                 has_nodep = (flag_input_nodep \<in> down_flags);
                 edge_config4 =
                   config_set_value h edge_config3 config_dependency
                     (if has_nodep then ''false'' else ''true'');
                 edge_config5 = config_mark_read_only h edge_config4 config_dependency;
                 e = \<lparr>edge_config = edge_config5, upstream_process = None,
                       downstream_process = None\<rparr>;
                 d1 = d\<lparr>edge_map := map_set i (Some e) (edge_map d)\<rparr> in
             (case proc_connect_output_port h up_proc upstream_port e of
                (Some x, up_proc') \<Rightarrow> (Some x, store_process upstream_name up_proc' d1)
              | (None, up_proc') \<Rightarrow>
                  let d2 = store_process upstream_name up_proc' d1;
                      down_proc_now =
                        (if downstream_name = upstream_name then up_proc' else down_proc) in
                  (case proc_connect_input_port h down_proc_now downstream_port e of
                     (Some x, down_proc') \<Rightarrow> (Some x, store_process downstream_name down_proc' d2)
                   | (None, down_proc') \<Rightarrow>
                       let d3 = store_process downstream_name down_proc' d2 in
                       (None,
                        d3\<lparr>edge_map :=
                             map_set i
                               (Some (e\<lparr>upstream_process := Some upstream_name,
                                        downstream_process := Some downstream_name\<rparr>))
                               (edge_map d3)\<rparr>)))))))"

definition make_connections :: "extern \<Rightarrow> priv \<Rightarrow> exn option \<times> priv" where
  "make_connections h d = foreach (make_connection h) [0..<length (connections d)] d"

subsection \<open>Required ports and orphaned processes\<close>

fun first_error :: "('a \<Rightarrow> exn option) \<Rightarrow> 'a list \<Rightarrow> exn option" where
  "first_error f [] = None"
| "first_error f (x # xs) = (case f x of Some e \<Rightarrow> Some e | None \<Rightarrow> first_error f xs)"

definition check_required_input_port :: "priv \<Rightarrow> name_t \<Rightarrow> process \<Rightarrow> port_t \<Rightarrow> exn option" where
  "check_required_input_port d cur_proc process port =
     (case input_port_info process port of
        Inl e \<Rightarrow> Some e
      | Inr info \<Rightarrow>
          if flag_required \<in> flags info
          then (case input_edge_for_port d cur_proc port of
                  Inl e \<Rightarrow> Some e
                | Inr None \<Rightarrow>
                    Some (missing_connection_exception cur_proc port
                            ''The input port has the required flag'')
                | Inr (Some e) \<Rightarrow> None)
          else None)"

definition check_required_output_port :: "priv \<Rightarrow> name_t \<Rightarrow> process \<Rightarrow> port_t \<Rightarrow> exn option" where
  "check_required_output_port d cur_proc process port =
     (case output_port_info process port of
        Inl e \<Rightarrow> Some e
      | Inr info \<Rightarrow>
          if flag_required \<in> flags info
          then (case output_edges_for_port d cur_proc port of
                  Inl e \<Rightarrow> Some e
                | Inr es \<Rightarrow>
                    if es = []
                    then Some (missing_connection_exception cur_proc port
                                 ''The output port has the required flag'')
                    else None)
          else None)"

text \<open>
  The body of the \<open>while\<close> loop for a process that has not been visited: the check of
  its required ports, and the names of the processes connected to it.
\<close>

definition visit_process :: "priv \<Rightarrow> name_t \<Rightarrow> exn + name_t list" where
  "visit_process d cur_proc =
     (case process_by_name d cur_proc of
        Inl e \<Rightarrow> Inl e
      | Inr process \<Rightarrow>
          (case first_error (check_required_input_port d cur_proc process) (input_ports process) of
             Some e \<Rightarrow> Inl e
           | None \<Rightarrow>
          (case first_error (check_required_output_port d cur_proc process)
                  (output_ports process) of
             Some e \<Rightarrow> Inl e
           | None \<Rightarrow>
          (case upstream_for_process d cur_proc of
             Inl e \<Rightarrow> Inl e
           | Inr upstream_procs \<Rightarrow>
          (case downstream_for_process d cur_proc of
             Inl e \<Rightarrow> Inl e
           | Inr downstream_procs \<Rightarrow>
               Inr (map pname (upstream_procs @ downstream_procs)))))))"

lemma lookup_processes_names:
  "lookup_processes d names = Inr ps \<Longrightarrow> set ps \<subseteq> snd ` set (process_map d)"
proof (induction names arbitrary: ps)
  case Nil
  then show ?case by simp
next
  case (Cons n names)
  from Cons.prems obtain p ps' where
    p: "map_of (process_map d) n = Some p" and
    ps': "lookup_processes d names = Inr ps'" and
    ps: "ps = p # ps'"
    by (auto simp: map_find_def split: option.splits sum.splits)
  have "(n, p) \<in> set (process_map d)" using p by (rule map_of_SomeD)
  then have "p \<in> snd ` set (process_map d)" by force
  then show ?case using Cons.IH [OF ps'] ps by simp
qed

lemma visit_process_names:
  assumes "visit_process d cur_proc = Inr names"
  shows "set names \<subseteq> pname ` snd ` set (process_map d)"
proof -
  from assms obtain ups downs where
    ups: "upstream_for_process d cur_proc = Inr ups" and
    downs: "downstream_for_process d cur_proc = Inr downs" and
    names: "names = map pname (ups @ downs)"
    by (auto simp: visit_process_def split: sum.splits option.splits)
  have "set ups \<subseteq> snd ` set (process_map d)"
    using ups lookup_processes_names
    by (auto simp: upstream_for_process_def upstream_for_process_lookup_def split: option.splits)
  moreover have "set downs \<subseteq> snd ` set (process_map d)"
    using downs lookup_processes_names
    by (auto simp: downstream_for_process_def downstream_for_process_lookup_def
        split: option.splits)
  ultimately show ?thesis using names by auto
qed

text \<open>
  The \<open>while\<close> loop of \<open>check_for_required_ports\<close>: \<open>procs\<close> is the set of the
  visited processes, \<open>to_visit\<close> the queue.
\<close>

function visit_processes :: "priv \<Rightarrow> name_t list \<Rightarrow> name_t list \<Rightarrow> exn + name_t list" where
  "visit_processes d procs [] = Inr procs"
| "visit_processes d procs (cur_proc # to_visit) =
     (if cur_proc \<in> set procs then visit_processes d procs to_visit
      else
        (case visit_process d cur_proc of
           Inl e \<Rightarrow> Inl e
         | Inr connected_procs \<Rightarrow> visit_processes d (cur_proc # procs) (to_visit @ connected_procs)))"
  by pat_completeness auto
termination
proof (relation "measures
    [\<lambda>(d, procs, to_visit).
        card ((pname ` snd ` set (process_map d) \<union> set to_visit) - set procs),
     \<lambda>(d, procs, to_visit). length to_visit]")
  show "wf (measures
    [\<lambda>(d, procs, to_visit).
        card ((pname ` snd ` set (process_map d) \<union> set to_visit) - set procs),
     \<lambda>(d, procs, to_visit). length to_visit])"
    by simp
next
  fix d :: priv and procs to_visit :: "name_t list" and cur_proc :: name_t
  assume "cur_proc \<in> set procs"
  then have "(pname ` snd ` set (process_map d) \<union> set (cur_proc # to_visit)) - set procs
      = (pname ` snd ` set (process_map d) \<union> set to_visit) - set procs"
    by auto
  then show "((d, procs, to_visit), (d, procs, cur_proc # to_visit)) \<in> measures
    [\<lambda>(d, procs, to_visit).
        card ((pname ` snd ` set (process_map d) \<union> set to_visit) - set procs),
     \<lambda>(d, procs, to_visit). length to_visit]"
    by simp
next
  fix d :: priv and procs to_visit connected_procs :: "name_t list" and cur_proc :: name_t
  assume fresh: "cur_proc \<notin> set procs" and visit: "visit_process d cur_proc = Inr connected_procs"
  let ?U = "pname ` snd ` set (process_map d)"
  have sub: "set connected_procs \<subseteq> ?U" using visit by (rule visit_process_names)
  have "(?U \<union> set (to_visit @ connected_procs)) - set (cur_proc # procs)
      \<subset> (?U \<union> set (cur_proc # to_visit)) - set procs"
    using fresh sub by auto
  moreover have "finite ((?U \<union> set (cur_proc # to_visit)) - set procs)" by simp
  ultimately have "card ((?U \<union> set (to_visit @ connected_procs)) - set (cur_proc # procs))
      < card ((?U \<union> set (cur_proc # to_visit)) - set procs)"
    by (rule psubset_card_mono [rotated])
  then show "((d, cur_proc # procs, to_visit @ connected_procs), (d, procs, cur_proc # to_visit))
      \<in> measures
    [\<lambda>(d, procs, to_visit).
        card ((pname ` snd ` set (process_map d) \<union> set to_visit) - set procs),
     \<lambda>(d, procs, to_visit). length to_visit]"
    by simp
qed

definition check_for_required_ports :: "priv \<Rightarrow> exn option" where
  "check_for_required_ports d =
     (case process_map d of
        [] \<Rightarrow> Some invalid_access
      | first_process # others \<Rightarrow>
          (case visit_processes d [] [fst first_process] of
             Inl e \<Rightarrow> Some e
           | Inr procs \<Rightarrow>
               if length procs \<noteq> length (process_map d)
               then Some orphaned_processes_exception
               else None))"

subsection \<open>The check for cycles\<close>

text \<open>
  Modelled from the spec: \<open>boost::topological_sort\<close> is library code, which is not
  among the sources. It throws \<open>boost::not_a_dag\<close> exactly when the graph has a cycle.
  \<open>acyclic_from k vs es\<close> removes the vertices without an incoming edge, with their
  outgoing edges, \<open>k\<close> times: the graph on the vertices \<open>vs\<close> has no cycle when no
  vertex is left after \<open>length vs\<close> rounds.
\<close>

fun acyclic_from :: "nat \<Rightarrow> nat list \<Rightarrow> (nat \<times> nat) list \<Rightarrow> bool" where
  "acyclic_from 0 vs es = (vs = [])"
| "acyclic_from (Suc k) vs es =
     (let sources = filter (\<lambda>v. v \<notin> set (map snd es)) vs in
      if vs = [] then True
      else if sources = [] then False
      else acyclic_from k (filter (\<lambda>v. v \<notin> set sources) vs)
             (filter (\<lambda>e. fst e \<notin> set sources) es))"

definition topological_sort_ok :: "nat \<Rightarrow> (nat \<times> nat) list \<Rightarrow> bool" where
  "topological_sort_ok n es = acyclic_from n [0..<n] es"

text \<open>
  The graph of \<open>check_for_dag\<close>: the vertex of a process is its index in
  \<open>process_names\<close>; \<open>vertex_map[name]\<close> inserts the vertex 0 for a name it does not
  hold. The state of the loops is the vertex map and the list of the edges.
\<close>

definition dag_port_edge ::
  "priv \<Rightarrow> name_t \<Rightarrow> process \<Rightarrow> nat \<Rightarrow> port_t
   \<Rightarrow> (name_t \<times> nat) list \<times> (nat \<times> nat) list
   \<Rightarrow> exn option \<times> (name_t \<times> nat) list \<times> (nat \<times> nat) list" where
  "dag_port_edge d name proc t port st =
     (case st of (vertex_map, graph) \<Rightarrow>
      (case sender_for_port d name port of
         Inl e \<Rightarrow> (Some e, st)
       | Inr sender \<Rightarrow>
           if sender = ([], []) then (None, st)
           else
             (case input_port_info proc port of
                Inl e \<Rightarrow> (Some e, st)
              | Inr info \<Rightarrow>
                  if flag_input_nodep \<in> flags info then (None, st)
                  else
                    (case map_index 0 vertex_map (fst sender) of
                       (s, vertex_map') \<Rightarrow> (None, vertex_map', graph @ [(s, t)])))))"

definition dag_process_edges ::
  "priv \<Rightarrow> name_t \<Rightarrow> (name_t \<times> nat) list \<times> (nat \<times> nat) list
   \<Rightarrow> exn option \<times> (name_t \<times> nat) list \<times> (nat \<times> nat) list" where
  "dag_process_edges d name st =
     (case st of (vertex_map, graph) \<Rightarrow>
      (case process_by_name d name of
         Inl e \<Rightarrow> (Some e, st)
       | Inr proc \<Rightarrow>
           (case map_index 0 vertex_map name of
              (t, vertex_map') \<Rightarrow>
                foreach (dag_port_edge d name proc t) (input_ports proc) (vertex_map', graph))))"

definition check_for_dag :: "priv \<Rightarrow> exn option" where
  "check_for_dag d =
     (let names = process_names d;
          vertex_map = fold (\<lambda>(name, s) m. map_set name s m) (zip names [0..<length names]) [] in
      case foreach (dag_process_edges d) names (vertex_map, []) of
        (Some e, st) \<Rightarrow> Some e
      | (None, vertex_map', graph) \<Rightarrow>
          if topological_sort_ok (length names) graph then None
          else Some not_a_dag_exception)"

subsection \<open>Initializing the processes\<close>

definition initialize_process :: "extern \<Rightarrow> name_t \<Rightarrow> priv \<Rightarrow> exn option \<times> priv" where
  "initialize_process h name d =
     (case process_by_name d name of
        Inl e \<Rightarrow> (Some e, d)
      | Inr proc \<Rightarrow>
          (case proc_init h proc of
             (r, proc') \<Rightarrow> (r, store_process name proc' d)))"

definition initialize_processes :: "extern \<Rightarrow> priv \<Rightarrow> exn option \<times> priv" where
  "initialize_processes h d = foreach (initialize_process h) (process_names d) d"

subsection \<open>The check of the port frequencies\<close>

definition base_freq :: port_frequency_t where
  "base_freq = Rational 1 1"

text \<open>
  The frequency a process must have across a connection, from the frequency of the
  process on the other side: \<open>edge_freq = proc_freq * port_freq\<close> and
  \<open>expect_freq = edge_freq / other_port_freq\<close>. The \<open>bool\<close> of the result is not
  computed by the program: it says whether one of the two operations has wrapped around.
\<close>

definition expect_freq ::
  "port_frequency_t \<Rightarrow> port_frequency_t \<Rightarrow> port_frequency_t
   \<Rightarrow> (exn + port_frequency_t \<times> bool) option" where
  "expect_freq proc_freq port_freq other_port_freq =
     (case rational_times proc_freq port_freq of
        None \<Rightarrow> None
      | Some edge_freq \<Rightarrow>
          (case rational_divide edge_freq other_port_freq of
             None \<Rightarrow> None
           | Some (Inl e) \<Rightarrow> Some (Inl e)
           | Some (Inr expect) \<Rightarrow>
               Some (Inr (expect, times_overflows proc_freq port_freq
                                  \<or> divide_overflows edge_freq other_port_freq))))"

text \<open>
  One turn of the \<open>while\<close> loop of \<open>check_port_frequencies\<close>, for the connection
  taken from the front of the queue: the result is \<open>None\<close> when the turn does not
  return, the exception thrown, or the queue and the frequency map after the turn. The
  argument \<open>overflow\<close> and the last component of the result say whether an operation
  of the loop has wrapped around so far.
\<close>

definition check_connection_frequency ::
  "priv \<Rightarrow> connection_t \<Rightarrow> connection_t list \<Rightarrow> (name_t \<times> port_frequency_t) list \<Rightarrow> bool
   \<Rightarrow> (exn + connection_t list \<times> (name_t \<times> port_frequency_t) list \<times> bool) option" where
  "check_connection_frequency d connection unchecked_connections freq_map overflow =
     (let upstream_name = fst (fst connection);
          upstream_port = snd (fst connection);
          downstream_name = fst (snd connection);
          downstream_port = snd (snd connection) in
      case process_by_name d upstream_name of
        Inl e \<Rightarrow> Some (Inl e)
      | Inr up_proc \<Rightarrow>
      (case output_port_info up_proc upstream_port of
        Inl e \<Rightarrow> Some (Inl e)
      | Inr up_info \<Rightarrow>
      (case process_by_name d downstream_name of
        Inl e \<Rightarrow> Some (Inl e)
      | Inr down_proc \<Rightarrow>
      (case input_port_info down_proc downstream_port of
        Inl e \<Rightarrow> Some (Inl e)
      | Inr down_info \<Rightarrow>
          let up_port_freq = frequency up_info;
              down_port_freq = frequency down_info in
          if numerator up_port_freq = 0 \<or> numerator down_port_freq = 0
          then Some (Inr (unchecked_connections, freq_map, overflow))
          else
            let i_up = map_find freq_map upstream_name;
                i_down = map_find freq_map downstream_name;
                seed = (i_up = None \<and> i_down = None \<and> length freq_map = 0);
                freq_map1 = (if seed then map_set upstream_name base_freq freq_map else freq_map);
                have_upstream = (seed \<or> i_up \<noteq> None);
                have_downstream = (i_down \<noteq> None) in
            if have_upstream \<and> have_downstream
            then
              (case map_index (Rational 0 1) freq_map1 upstream_name of
                 (up_proc_freq, freq_map2) \<Rightarrow>
                   (case expect_freq up_proc_freq up_port_freq down_port_freq of
                      None \<Rightarrow> None
                    | Some (Inl e) \<Rightarrow> Some (Inl e)
                    | Some (Inr (expect, wrapped)) \<Rightarrow>
                        (case map_index (Rational 0 1) freq_map2 downstream_name of
                           (down_proc_freq, freq_map3) \<Rightarrow>
                             if down_proc_freq \<noteq> expect
                             then Some (Inl (frequency_mismatch_exception
                                               upstream_name upstream_port up_proc_freq
                                               downstream_name downstream_port down_proc_freq))
                             else Some (Inr (unchecked_connections, freq_map3,
                                             overflow \<or> wrapped)))))
            else if have_upstream
            then
              (case map_index (Rational 0 1) freq_map1 upstream_name of
                 (up_proc_freq, freq_map2) \<Rightarrow>
                   (case expect_freq up_proc_freq up_port_freq down_port_freq of
                      None \<Rightarrow> None
                    | Some (Inl e) \<Rightarrow> Some (Inl e)
                    | Some (Inr (expect, wrapped)) \<Rightarrow>
                        Some (Inr (unchecked_connections,
                                   map_set downstream_name expect freq_map2,
                                   overflow \<or> wrapped))))
            else if have_downstream
            then
              (case map_index (Rational 0 1) freq_map1 downstream_name of
                 (down_proc_freq, freq_map2) \<Rightarrow>
                   (case expect_freq down_proc_freq down_port_freq up_port_freq of
                      None \<Rightarrow> None
                    | Some (Inl e) \<Rightarrow> Some (Inl e)
                    | Some (Inr (expect, wrapped)) \<Rightarrow>
                        Some (Inr (unchecked_connections,
                                   map_set upstream_name expect freq_map2,
                                   overflow \<or> wrapped))))
            else Some (Inr (unchecked_connections @ [connection], freq_map1, overflow))))))"

text \<open>
  The \<open>while\<close> loop over the queue \<open>unchecked_connections\<close>; the first argument bounds
  its turns.
\<close>

fun check_frequencies ::
  "nat \<Rightarrow> priv \<Rightarrow> connection_t list \<Rightarrow> (name_t \<times> port_frequency_t) list \<Rightarrow> bool
   \<Rightarrow> (exn + (name_t \<times> port_frequency_t) list \<times> bool) option" where
  "check_frequencies n d [] freq_map overflow = Some (Inr (freq_map, overflow))"
| "check_frequencies 0 d (connection # unchecked_connections) freq_map overflow = None"
| "check_frequencies (Suc n) d (connection # unchecked_connections) freq_map overflow =
     (case check_connection_frequency d connection unchecked_connections freq_map overflow of
        None \<Rightarrow> None
      | Some (Inl e) \<Rightarrow> Some (Inl e)
      | Some (Inr (unchecked_connections', freq_map', overflow')) \<Rightarrow>
          check_frequencies n d unchecked_connections' freq_map' overflow')"

text \<open>
  The variable \<open>freq_gcd\<close> of the source: the least common multiple of the
  denominators, as \<open>boost::math::lcm\<close> accumulates it, and whether one of its
  multiplications has wrapped around.
\<close>

definition freq_gcd :: "(name_t \<times> port_frequency_t) list \<Rightarrow> frequency_component_t \<times> bool" where
  "freq_gcd freq_map =
     fold (\<lambda>proc_freq (g, overflow).
             (lcm_component g (denominator (snd proc_freq)),
              overflow \<or> lcm_overflows g (denominator (snd proc_freq))))
          freq_map (1, False)"

definition set_core_frequency :: "name_t \<Rightarrow> port_frequency_t \<Rightarrow> priv \<Rightarrow> priv" where
  "set_core_frequency name core_freq d =
     d\<lparr>core_frequency_calls := core_frequency_calls d @ [(name, core_freq)]\<rparr>"

definition set_core_frequency_of ::
  "frequency_component_t \<Rightarrow> name_t \<times> port_frequency_t \<Rightarrow> priv
   \<Rightarrow> (exn option \<times> priv) option" where
  "set_core_frequency_of g proc_freq d =
     (let name = fst proc_freq;
          freq = snd proc_freq in
      case rational_scale g freq of
        None \<Rightarrow> None
      | Some core_freq \<Rightarrow>
          (case process_by_name d name of
             Inl e \<Rightarrow> Some (Some e, d)
           | Inr proc \<Rightarrow> Some (None, set_core_frequency name core_freq d)))"

definition check_port_frequencies :: "nat \<Rightarrow> priv \<Rightarrow> (exn option \<times> priv) option" where
  "check_port_frequencies fuel d =
     (if length (process_map d) = 1
      then (case process_map d of
              [] \<Rightarrow> Some (Some invalid_access, d)
            | only_proc # others \<Rightarrow> Some (None, set_core_frequency (fst only_proc) base_freq d))
      else
        (case check_frequencies fuel d (connections d) [] False of
           None \<Rightarrow> None
         | Some (Inl e) \<Rightarrow> Some (Some e, d)
         | Some (Inr (freq_map, overflow)) \<Rightarrow>
             foreach_fuel (set_core_frequency_of (fst (freq_gcd freq_map))) freq_map d))"

subsection \<open>What the check of the port frequencies reads\<close>

text \<open>
  The definitions of this subsection are not part of the program: the properties of
  check_port_frequencies are stated with them.
\<close>

text \<open>The two port frequencies of a connection, as check_connection_frequency reads them.\<close>

definition port_frequencies ::
  "priv \<Rightarrow> connection_t \<Rightarrow> (port_frequency_t \<times> port_frequency_t) option" where
  "port_frequencies d c =
     (case process_by_name d (fst (fst c)) of
        Inl e \<Rightarrow> None
      | Inr up_proc \<Rightarrow>
      (case output_port_info up_proc (snd (fst c)) of
        Inl e \<Rightarrow> None
      | Inr up_info \<Rightarrow>
      (case process_by_name d (fst (snd c)) of
        Inl e \<Rightarrow> None
      | Inr down_proc \<Rightarrow>
      (case input_port_info down_proc (snd (snd c)) of
        Inl e \<Rightarrow> None
      | Inr down_info \<Rightarrow> Some (frequency up_info, frequency down_info)))))"

text \<open>
  The port frequencies of the resolved connections are proper when none has the
  denominator zero; the constructors of \<open>boost::rational\<close> refuse such a frequency.
\<close>

definition proper_frequencies :: "priv \<Rightarrow> bool" where
  "proper_frequencies d \<longleftrightarrow>
     (\<forall>c \<in> set (connections d).
        case port_frequencies d c of
          None \<Rightarrow> True
        | Some (uf, df) \<Rightarrow> denominator uf \<noteq> 0 \<and> denominator df \<noteq> 0)"

text \<open>
  The first resolved connection whose two port frequencies are known: the connection on
  which check_port_frequencies seeds its frequency map.
\<close>

definition known_frequencies :: "priv \<Rightarrow> connection_t \<Rightarrow> bool" where
  "known_frequencies d c \<longleftrightarrow>
     (case port_frequencies d c of
        None \<Rightarrow> False
      | Some (uf, df) \<Rightarrow> numerator uf \<noteq> 0 \<and> numerator df \<noteq> 0)"

definition seed_connection :: "priv \<Rightarrow> connection_t option" where
  "seed_connection d = find (known_frequencies d) (connections d)"

text \<open>
  Whether an operation of check_port_frequencies on the processes and connections of
  \<open>d\<close> wraps around: in the loop over the queue, in the least common multiple, or in
  the multiplication of a frequency by it.
\<close>

definition frequency_overflow :: "nat \<Rightarrow> priv \<Rightarrow> bool" where
  "frequency_overflow fuel d \<longleftrightarrow>
     length (process_map d) \<noteq> 1 \<and>
     (case check_frequencies fuel d (connections d) [] False of
        Some (Inr (freq_map, overflow)) \<Rightarrow>
          overflow \<or> snd (freq_gcd freq_map)
          \<or> (\<exists>proc_freq \<in> set freq_map.
                scale_overflows (fst (freq_gcd freq_map)) (snd proc_freq))
      | _ \<Rightarrow> False)"

section \<open>setup\_pipeline\<close>

text \<open>
  The body of the \<open>try\<close> block: the passes in their order, up to the first that throws.
  A pass that only checks leaves the state as it is.
\<close>

definition check_only :: "(priv \<Rightarrow> exn option) \<Rightarrow> priv \<Rightarrow> (exn option \<times> priv) option" where
  "check_only f d = Some (f d, d)"

definition setup_passes :: "extern \<Rightarrow> nat \<Rightarrow> (priv \<Rightarrow> (exn option \<times> priv) option) list" where
  "setup_passes h fuel =
     [map_cluster_connections fuel,
      (\<lambda>d. Some (configure_processes h d)),
      check_only check_for_data_dep_ports,
      propagate_pinned_types h fuel,
      check_only check_for_untyped_ports,
      (\<lambda>d. Some (make_connections h d)),
      check_only check_for_required_ports,
      check_only check_for_dag,
      (\<lambda>d. Some (initialize_processes h d)),
      check_port_frequencies fuel]"

definition setup_pipeline :: "extern \<Rightarrow> nat \<Rightarrow> priv \<Rightarrow> (exn option \<times> priv) option" where
  "setup_pipeline h fuel d =
     (if is_setup d then Some (Some pipeline_duplicate_setup_exception, d)
      else
        (case check_for_processes d of
           Some e \<Rightarrow> Some (Some e, d)
         | None \<Rightarrow>
             let d0 = d\<lparr>is_setup := True, setup_in_progress := True, setup_successful := False\<rparr> in
             (case foreach_fuel (\<lambda>pass. pass) (setup_passes h fuel) d0 of
                None \<Rightarrow> None
              | Some (Some e, d1) \<Rightarrow> Some (Some e, d1\<lparr>setup_in_progress := False\<rparr>)
              | Some (None, d1) \<Rightarrow>
                  Some (None, d1\<lparr>setup_in_progress := False, setup_successful := True\<rparr>))))"

section \<open>What the setup passes leave unchanged\<close>

lemma foreach_preserves:
  assumes step: "\<And>x s r s'. x \<in> set xs \<Longrightarrow> f x s = (r, s') \<Longrightarrow> P s \<Longrightarrow> P s'"
  shows "foreach f xs s = (r, s') \<Longrightarrow> P s \<Longrightarrow> P s'"
  using step
proof (induction xs arbitrary: s)
  case Nil
  then show ?case by simp
next
  case (Cons x xs)
  obtain r1 s1 where fx: "f x s = (r1, s1)" by (cases "f x s")
  have P1: "P s1" using Cons.prems(3) [of x s r1 s1] fx Cons.prems(2) by simp
  show ?case
  proof (cases r1)
    case None
    then have rest: "foreach f xs s1 = (r, s')" using Cons.prems(1) fx by simp
    have "\<And>y t q t'. y \<in> set xs \<Longrightarrow> f y t = (q, t') \<Longrightarrow> P t \<Longrightarrow> P t'"
      using Cons.prems(3) by (meson list.set_intros(2))
    then show ?thesis using Cons.IH [OF rest P1] by blast
  next
    case (Some e)
    then have "s' = s1" using Cons.prems(1) fx by simp
    then show ?thesis using P1 by simp
  qed
qed

lemma foreach_fuel_preserves:
  assumes step: "\<And>x s r s'. x \<in> set xs \<Longrightarrow> f x s = Some (r, s') \<Longrightarrow> P s \<Longrightarrow> P s'"
  shows "foreach_fuel f xs s = Some (r, s') \<Longrightarrow> P s \<Longrightarrow> P s'"
  using step
proof (induction xs arbitrary: s)
  case Nil
  then show ?case by simp
next
  case (Cons x xs)
  from Cons.prems(1) obtain r1 s1 where fx: "f x s = Some (r1, s1)"
    by (cases "f x s") auto
  have P1: "P s1" using Cons.prems(3) [of x s r1 s1] fx Cons.prems(2) by simp
  show ?case
  proof (cases r1)
    case None
    then have rest: "foreach_fuel f xs s1 = Some (r, s')" using Cons.prems(1) fx by simp
    have "\<And>y t q t'. y \<in> set xs \<Longrightarrow> f y t = Some (q, t') \<Longrightarrow> P t \<Longrightarrow> P t'"
      using Cons.prems(3) by (meson list.set_intros(2))
    then show ?thesis using Cons.IH [OF rest P1] by blast
  next
    case (Some e)
    then have "s' = s1" using Cons.prems(1) fx by simp
    then show ?thesis using P1 by simp
  qed
qed

lemma foreach_keeps:
  assumes run: "foreach f xs s = (r, s')"
    and step: "\<And>x t q t'. x \<in> set xs \<Longrightarrow> f x t = (q, t') \<Longrightarrow> g t' = g t"
  shows "g s' = g s"
proof -
  have "\<And>x t q t'. x \<in> set xs \<Longrightarrow> f x t = (q, t') \<Longrightarrow> g t = g s \<Longrightarrow> g t' = g s"
    using step by simp
  then show ?thesis
    using foreach_preserves [where P = "\<lambda>t. g t = g s" and f = f, OF _ run] by simp
qed

lemma foreach_fuel_keeps:
  assumes run: "foreach_fuel f xs s = Some (r, s')"
    and step: "\<And>x t q t'. x \<in> set xs \<Longrightarrow> f x t = Some (q, t') \<Longrightarrow> g t' = g t"
  shows "g s' = g s"
proof -
  have "\<And>x t q t'. x \<in> set xs \<Longrightarrow> f x t = Some (q, t') \<Longrightarrow> g t = g s \<Longrightarrow> g t' = g s"
    using step by simp
  then show ?thesis
    using foreach_fuel_preserves [where P = "\<lambda>t. g t = g s" and f = f, OF _ run] by simp
qed

text \<open>What the passes of setup leave alone: the three lifecycle flags, and the trace.\<close>

definition lifecycle :: "priv \<Rightarrow> bool \<times> bool \<times> bool" where
  "lifecycle d = (is_setup d, setup_in_progress d, setup_successful d)"

definition frame :: "priv \<Rightarrow> (bool \<times> bool \<times> bool) \<times> (name_t \<times> port_frequency_t) list" where
  "frame d = (lifecycle d, core_frequency_calls d)"

lemma frame_update [simp]:
  "frame (d\<lparr>config := a\<rparr>) = frame d"
  "frame (d\<lparr>planned_connections := cs\<rparr>) = frame d"
  "frame (d\<lparr>connections := cs\<rparr>) = frame d"
  "frame (d\<lparr>process_map := pm\<rparr>) = frame d"
  "frame (d\<lparr>cluster_map := pm\<rparr>) = frame d"
  "frame (d\<lparr>edge_map := em\<rparr>) = frame d"
  "frame (d\<lparr>process_parent_map := ppm\<rparr>) = frame d"
  "frame (d\<lparr>parent_stack := st\<rparr>) = frame d"
  "frame (d\<lparr>data_dep_connections := cs\<rparr>) = frame d"
  "frame (d\<lparr>cluster_connections := ccs\<rparr>) = frame d"
  "frame (d\<lparr>untyped_connections := cs\<rparr>) = frame d"
  "frame (d\<lparr>type_pinnings := tps\<rparr>) = frame d"
  "frame (d\<lparr>running := b\<rparr>) = frame d"
  by (simp_all add: frame_def lifecycle_def)

lemma frame_store_process [simp]: "frame (store_process name p d) = frame d"
  by (simp add: store_process_def)

lemma connect_frame:
  "connect un up dn dp d = (r, d') \<Longrightarrow> frame d' = frame d"
  by (auto simp: connect_def check_connection_types_def Let_def
      split: if_splits sum.splits prod.splits port_type_status.splits)

lemma foreach_connect_frame:
  assumes "foreach (\<lambda>m. connect (a m) (b m) (c m) (e m)) xs s = (r, s')"
  shows "frame s' = frame s"
  using assms by (rule foreach_keeps) (rule connect_frame)

lemma map_cluster_connection_frame:
  assumes "map_cluster_connection cc d = (r, d')"
  shows "frame d' = frame d"
proof (cases "snd cc")
  case cluster_upstream
  then show ?thesis using assms
    by (auto simp: map_cluster_connection_def Let_def split: option.splits if_splits
        dest: connect_frame)
next
  case cluster_downstream
  then show ?thesis using assms
    by (auto simp: map_cluster_connection_def Let_def split: option.splits if_splits
        dest: foreach_connect_frame)
qed

lemma map_cluster_connections_frame:
  "map_cluster_connections n d = Some (r, d') \<Longrightarrow> frame d' = frame d"
proof (induction n arbitrary: d)
  case 0
  then show ?case by simp
next
  case (Suc n)
  let ?d1 = "d\<lparr>cluster_connections := []\<rparr>"
  obtain r2 d2 where run: "foreach map_cluster_connection (cluster_connections d) ?d1 = (r2, d2)"
    by (cases "foreach map_cluster_connection (cluster_connections d) ?d1")
  have "frame d2 = frame ?d1"
    using run by (rule foreach_keeps) (rule map_cluster_connection_frame)
  then have d2: "frame d2 = frame d" by simp
  show ?case
  proof (cases r2)
    case (Some e)
    then show ?thesis using Suc.prems run d2 by (simp add: Let_def)
  next
    case None
    then show ?thesis using Suc.prems run d2 Suc.IH [of d2]
      by (auto simp: Let_def split: if_splits)
  qed
qed

lemma connect_connection_frame:
  "connect_connection c d = (r, d') \<Longrightarrow> frame d' = frame d"
  unfolding connect_connection_def by (rule connect_frame)

lemma resolve_data_dep_frame:
  "resolve_data_dep name c st = (r, st') \<Longrightarrow> frame (snd (snd st')) = frame (snd (snd st))"
  by (auto simp: resolve_data_dep_def Let_def
      split: prod.splits option.splits sum.splits if_splits dest: connect_frame)

lemma configure_process_frame:
  assumes "configure_process h name d = (r, d')"
  shows "frame d' = frame d"
proof (cases "process_by_name d name")
  case (Inl e)
  then show ?thesis using assms by (simp add: configure_process_def)
next
  case (Inr proc)
  obtain rc proc' where conf: "proc_configure h proc = (rc, proc')"
    by (cases "proc_configure h proc")
  let ?d1 = "store_process name proc' d"
  obtain r2 u2 f2 d2 where
    run: "foreach (resolve_data_dep name) (data_dep_connections ?d1) ([], False, ?d1) = (r2, u2, f2, d2)"
    by (cases "foreach (resolve_data_dep name) (data_dep_connections ?d1) ([], False, ?d1)") auto
  have d2: "frame d2 = frame d"
    using foreach_keeps [where g = "\<lambda>st. frame (snd (snd st))", OF run]
      resolve_data_dep_frame by simp
  show ?thesis using assms Inr conf run d2
    by (cases rc; cases r2) (auto simp: configure_process_def Let_def)
qed

lemma configure_processes_frame:
  "configure_processes h d = (r, d') \<Longrightarrow> frame d' = frame d"
  unfolding configure_processes_def
  by (erule foreach_keeps) (rule configure_process_frame)

lemma propagate_connection_frame:
  assumes "propagate_connection h name c st = (r, st')"
  shows "frame (snd st') = frame (snd st)"
proof -
  obtain kyu d where st: "st = (kyu, d)" by (cases st)
  show ?thesis
  proof (cases "map_find (process_map d) name")
    case None
    then show ?thesis using assms st by (simp add: propagate_connection_def Let_def)
  next
    case (Some proc)
    show ?thesis
    proof (cases "fst (snd c) = name")
      case True
      then show ?thesis using assms st Some
        by (auto simp: propagate_connection_def Let_def
            split: sum.splits prod.splits if_splits dest: connect_frame)
    next
      case False
      then show ?thesis using assms st Some
        by (auto simp: propagate_connection_def Let_def
            split: sum.splits prod.splits if_splits dest: connect_frame)
    qed
  qed
qed

lemma propagate_frame:
  "propagate h n kyu d = Some (r, d') \<Longrightarrow> frame d' = frame d"
proof (induction n arbitrary: kyu d)
  case 0
  then show ?case by (cases kyu) simp_all
next
  case (Suc n)
  show ?case
  proof (cases kyu)
    case Nil
    then show ?thesis using Suc.prems by simp
  next
    case (Cons name kyu1)
    show ?thesis
    proof (cases "process_by_name d name")
      case (Inl e)
      then show ?thesis using Suc.prems Cons by simp
    next
      case (Inr proc)
      let ?d1 = "d\<lparr>untyped_connections := []\<rparr>"
      obtain r2 kyu2 d2 where
        run: "foreach (propagate_connection h name) (untyped_connections d) (kyu1, ?d1)
              = (r2, kyu2, d2)"
        by (cases "foreach (propagate_connection h name) (untyped_connections d) (kyu1, ?d1)")
           auto
      have d2: "frame d2 = frame d"
        using foreach_keeps [where g = "\<lambda>st. frame (snd st)", OF run]
          propagate_connection_frame by simp
      show ?thesis
      proof (cases r2)
        case (Some e)
        then show ?thesis using Suc.prems Cons Inr run d2 by (simp add: Let_def)
      next
        case None
        have "propagate h n kyu2 d2 = Some (r, d')"
          using Suc.prems Cons Inr run None by (simp add: Let_def)
        then have "frame d' = frame d2" by (rule Suc.IH)
        then show ?thesis using d2 by simp
      qed
    qed
  qed
qed

lemma propagate_pinning_frame:
  assumes "propagate_pinning h fuel pinning d = Some (r, d')"
  shows "frame d' = frame d"
proof -
  let ?un = "fst (fst (fst pinning))" and ?up = "snd (fst (fst pinning))"
  let ?dn = "fst (snd (fst pinning))" and ?dp = "snd (snd (fst pinning))"
  show ?thesis
  proof (cases "process_by_name d ?un")
    case (Inl e)
    then show ?thesis using assms by (simp add: propagate_pinning_def Let_def)
  next
    case up: (Inr up_proc)
    show ?thesis
    proof (cases "process_by_name d ?dn")
      case (Inl e)
      then show ?thesis using assms up by (simp add: propagate_pinning_def Let_def)
    next
      case down: (Inr down_proc)
      show ?thesis
      proof (cases "output_port_info up_proc ?up")
        case (Inl e)
        then show ?thesis using assms up down by (simp add: propagate_pinning_def Let_def)
      next
        case ui: (Inr up_info)
        show ?thesis
        proof (cases "input_port_info down_proc ?dp")
          case (Inl e)
          then show ?thesis using assms up down ui by (simp add: propagate_pinning_def Let_def)
        next
          case di: (Inr down_info)
          show ?thesis using assms up down ui di
            by (auto simp: propagate_pinning_def Let_def
                split: direction_t.splits prod.splits option.splits if_splits exn.splits
                dest: propagate_frame)
               (metis propagate_frame connect_frame frame_store_process)+
        qed
      qed
    qed
  qed
qed

lemma propagate_pinned_types_frame:
  "propagate_pinned_types h n d = Some (r, d') \<Longrightarrow> frame d' = frame d"
proof (induction n arbitrary: d)
  case 0
  then show ?case by simp
next
  case (Suc n)
  let ?d1 = "d\<lparr>type_pinnings := []\<rparr>"
  from Suc.prems obtain r2 d2 where
    run: "foreach_fuel (propagate_pinning h (Suc n)) (type_pinnings d) ?d1 = Some (r2, d2)"
    by (cases "foreach_fuel (propagate_pinning h (Suc n)) (type_pinnings d) ?d1")
       (auto simp: Let_def)
  have "frame d2 = frame ?d1"
    using run by (rule foreach_fuel_keeps) (rule propagate_pinning_frame)
  then have d2: "frame d2 = frame d" by simp
  show ?case
  proof (cases r2)
    case (Some e)
    then show ?thesis using Suc.prems run d2 by (simp add: Let_def)
  next
    case None
    then show ?thesis using Suc.prems run d2 Suc.IH [of d2]
      by (auto simp: Let_def split: if_splits)
  qed
qed

lemma make_connection_frame:
  "make_connection h i d = (r, d') \<Longrightarrow> frame d' = frame d"
  by (auto simp: make_connection_def Let_def
      split: sum.splits prod.splits option.splits if_splits)

lemma make_connections_frame:
  "make_connections h d = (r, d') \<Longrightarrow> frame d' = frame d"
  unfolding make_connections_def
  by (erule foreach_keeps) (rule make_connection_frame)

lemma initialize_process_frame:
  "initialize_process h name d = (r, d') \<Longrightarrow> frame d' = frame d"
  by (auto simp: initialize_process_def split: sum.splits prod.splits)

lemma initialize_processes_frame:
  "initialize_processes h d = (r, d') \<Longrightarrow> frame d' = frame d"
  unfolding initialize_processes_def
  by (erule foreach_keeps) (rule initialize_process_frame)

lemma frame_lifecycle: "frame d' = frame d \<Longrightarrow> lifecycle d' = lifecycle d"
  by (simp add: frame_def)

lemma lifecycle_set_core_frequency [simp]:
  "lifecycle (set_core_frequency name f d) = lifecycle d"
  by (simp add: set_core_frequency_def lifecycle_def)

lemma set_core_frequency_of_lifecycle:
  "set_core_frequency_of g pf d = Some (r, d') \<Longrightarrow> lifecycle d' = lifecycle d"
  by (auto simp: set_core_frequency_of_def Let_def split: sum.splits option.splits)

lemma check_port_frequencies_lifecycle:
  assumes "check_port_frequencies fuel d = Some (r, d')"
  shows "lifecycle d' = lifecycle d"
proof (cases "length (process_map d) = 1")
  case True
  then show ?thesis using assms
    by (auto simp: check_port_frequencies_def split: list.splits)
next
  case False
  show ?thesis
  proof (cases "check_frequencies fuel d (connections d) [] False")
    case None
    then show ?thesis using assms False by (simp add: check_port_frequencies_def)
  next
    case (Some res)
    show ?thesis
    proof (cases res)
      case (Inl e)
      then show ?thesis using assms False Some by (simp add: check_port_frequencies_def)
    next
      case (Inr found)
      obtain freq_map overflow where found: "found = (freq_map, overflow)" by (cases found)
      have "foreach_fuel (set_core_frequency_of (fst (freq_gcd freq_map))) freq_map d
              = Some (r, d')"
        using assms False Some Inr found by (simp add: check_port_frequencies_def)
      then show ?thesis
        by (rule foreach_fuel_keeps) (rule set_core_frequency_of_lifecycle)
    qed
  qed
qed

text \<open>The passes before the check of the port frequencies.\<close>

lemma setup_passes_split:
  "setup_passes h fuel = butlast (setup_passes h fuel) @ [check_port_frequencies fuel]"
  by (simp add: setup_passes_def)

lemma setup_passes_frame:
  assumes "pass \<in> set (butlast (setup_passes h fuel))" and "pass d = Some (r, d')"
  shows "frame d' = frame d"
proof -
  from assms(1) consider
      "pass = map_cluster_connections fuel"
    | "pass = (\<lambda>d. Some (configure_processes h d))"
    | "pass = check_only check_for_data_dep_ports"
    | "pass = propagate_pinned_types h fuel"
    | "pass = check_only check_for_untyped_ports"
    | "pass = (\<lambda>d. Some (make_connections h d))"
    | "pass = check_only check_for_required_ports"
    | "pass = check_only check_for_dag"
    | "pass = (\<lambda>d. Some (initialize_processes h d))"
    by (auto simp: setup_passes_def)
  then show ?thesis
  proof cases
    case 1
    then show ?thesis using assms(2) map_cluster_connections_frame by simp
  next
    case 2
    then show ?thesis using assms(2) configure_processes_frame by simp
  next
    case 3
    then show ?thesis using assms(2) by (simp add: check_only_def)
  next
    case 4
    then show ?thesis using assms(2) propagate_pinned_types_frame by simp
  next
    case 5
    then show ?thesis using assms(2) by (simp add: check_only_def)
  next
    case 6
    then show ?thesis using assms(2) make_connections_frame by simp
  next
    case 7
    then show ?thesis using assms(2) by (simp add: check_only_def)
  next
    case 8
    then show ?thesis using assms(2) by (simp add: check_only_def)
  next
    case 9
    then show ?thesis using assms(2) initialize_processes_frame by simp
  qed
qed

lemma setup_passes_lifecycle:
  assumes "pass \<in> set (setup_passes h fuel)" and "pass d = Some (r, d')"
  shows "lifecycle d' = lifecycle d"
proof -
  from assms(1) have "pass \<in> set (butlast (setup_passes h fuel)) \<or> pass = check_port_frequencies fuel"
    by (subst (asm) setup_passes_split) auto
  then show ?thesis
    using assms(2) setup_passes_frame frame_lifecycle check_port_frequencies_lifecycle by blast
qed

lemma run_passes_lifecycle:
  assumes "set passes \<subseteq> set (setup_passes h fuel)"
    and "foreach_fuel (\<lambda>pass. pass) passes d = Some (r, d')"
  shows "lifecycle d' = lifecycle d"
  using assms(2)
proof (rule foreach_fuel_keeps)
  fix x t q t'
  assume "x \<in> set passes" and "x t = Some (q, t')"
  then show "lifecycle t' = lifecycle t" using assms(1) setup_passes_lifecycle by blast
qed

lemma setup_pipeline_flags:
  assumes "\<not> is_setup d" and "check_for_processes d = None"
    and "setup_pipeline h fuel d = Some (r, d')"
  shows "is_setup d' \<and> \<not> setup_in_progress d' \<and> (setup_successful d' \<longleftrightarrow> r = None)"
proof -
  let ?d0 = "d\<lparr>is_setup := True, setup_in_progress := True, setup_successful := False\<rparr>"
  from assms obtain r1 d1 where
    run: "foreach_fuel (\<lambda>pass. pass) (setup_passes h fuel) ?d0 = Some (r1, d1)"
    by (cases "foreach_fuel (\<lambda>pass. pass) (setup_passes h fuel) ?d0")
       (auto simp: setup_pipeline_def Let_def)
  have "lifecycle d1 = lifecycle ?d0"
    using run_passes_lifecycle [OF subset_refl run] .
  then have flags: "is_setup d1" "setup_in_progress d1" "\<not> setup_successful d1"
    by (simp_all add: lifecycle_def)
  show ?thesis using assms run flags
    by (cases r1) (auto simp: setup_pipeline_def Let_def)
qed

lemma setup_pipeline_success_started:
  assumes "setup_pipeline h fuel d = Some (None, d')"
  shows "\<not> is_setup d \<and> check_for_processes d = None"
  using assms by (auto simp: setup_pipeline_def split: if_splits option.splits)

lemma foreach_fuel_append:
  "foreach_fuel f (xs @ ys) s =
     (case foreach_fuel f xs s of
        None \<Rightarrow> None
      | Some (Some e, s') \<Rightarrow> Some (Some e, s')
      | Some (None, s') \<Rightarrow> foreach_fuel f ys s')"
  by (induction xs arbitrary: s) (auto split: option.splits prod.splits)

lemma first_index_None: "first_index P xs i = None \<longleftrightarrow> (\<forall>x \<in> set xs. \<not> P x)"
  by (induction xs arbitrary: i) auto

lemma setup_pipeline_success_guard:
  assumes "setup_pipeline h fuel d = Some (None, d')"
  shows "ensure_setup d' = None"
  using setup_pipeline_flags [OF _ _ assms] setup_pipeline_success_started [OF assms]
  by (simp add: ensure_setup_def)

lemmas query_defs =
  upstream_for_process_def upstream_for_port_def downstream_for_process_def
  downstream_for_port_def sender_for_port_def receivers_for_port_def
  input_edges_for_process_def input_edge_for_port_def output_edges_for_process_def
  output_edges_for_port_def edge_for_connection_def start_def

subsection \<open>The registry\<close>

lemma map_find_map_set:
  "map_find (map_set k v m) k' = (if k' = k then Some v else map_find m k')"
  by (induction m) (auto simp: map_find_def)

lemma connect_registry:
  "connect un up dn dp d = (r, d') \<Longrightarrow>
     process_map d' = process_map d \<and> cluster_map d' = cluster_map d"
  by (auto simp: connect_def check_connection_types_def Let_def
      split: if_splits sum.splits prod.splits port_type_status.splits)

text \<open>The name \<open>n\<close> is the key of the cluster \<open>c\<close> and of no process.\<close>

definition cluster_only :: "name_t \<Rightarrow> process \<Rightarrow> priv \<Rightarrow> bool" where
  "cluster_only n c d \<longleftrightarrow>
     map_find (cluster_map d) n = Some c \<and> map_find (process_map d) n = None"

lemma connect_connection_cluster_only:
  "connect_connection x d = (r, d') \<Longrightarrow> cluster_only n c d \<Longrightarrow> cluster_only n c d'"
  unfolding connect_connection_def cluster_only_def
  by (drule connect_registry) simp

lemma add_process_cluster_only:
  "add_process p d = (r, d') \<Longrightarrow> cluster_only n c d \<Longrightarrow> cluster_only n c d'"
proof (induction p d arbitrary: r d' rule: add_process.induct)
  case (1 d)
  then show ?case by simp
next
  case (2 name ips ops d)
  then show ?case
    by (auto simp: cluster_only_def check_duplicate_name_def map_find_map_set Let_def
        split: if_splits option.splits)
next
  case (3 name cluster_procs conns im om d)
  let ?cl = "Cluster name cluster_procs conns im om"
  let ?parent = "case parent_stack d of [] \<Rightarrow> [] | stack_top # below \<Rightarrow> stack_top"
  let ?d1 = "d\<lparr>cluster_map := map_set name ?cl (cluster_map d),
               process_parent_map := map_set name ?parent (process_parent_map d),
               parent_stack := name # parent_stack d\<rparr>"
  show ?case
  proof (cases "is_setup d \<or> check_duplicate_name name d \<noteq> None")
    case True
    then show ?thesis using "3.prems" by (auto split: if_splits option.splits)
  next
    case False
    then have open_: "\<not> is_setup d" and fresh: "check_duplicate_name name d = None" by auto
    have "name \<noteq> n" using fresh "3.prems"(2)
      by (auto simp: check_duplicate_name_def cluster_only_def split: if_splits)
    then have d1: "cluster_only n c ?d1" using "3.prems"(2)
      by (simp add: cluster_only_def map_find_map_set)
    obtain r2 d2 where
      kids: "foreach (\<lambda>cluster_proc. add_process (Some cluster_proc)) cluster_procs ?d1 = (r2, d2)"
      by (cases "foreach (\<lambda>cluster_proc. add_process (Some cluster_proc)) cluster_procs ?d1")
    have d2: "cluster_only n c d2"
    proof (rule foreach_preserves [where P = "cluster_only n c", OF _ kids d1])
      fix x s q s'
      assume "x \<in> set cluster_procs" and "add_process (Some x) s = (q, s')"
        and "cluster_only n c s"
      then show "cluster_only n c s'"
        using "3.IH" [OF open_ fresh refl refl] by blast
    qed
    obtain r3 d3 where wires: "foreach connect_connection conns d2 = (r3, d3)"
      by (cases "foreach connect_connection conns d2")
    have d3: "cluster_only n c d3"
      by (rule foreach_preserves [where P = "cluster_only n c", OF _ wires d2])
         (rule connect_connection_cluster_only)
    have "add_process (Some ?cl) d =
        (case r2 of Some e \<Rightarrow> (Some e, d2)
         | None \<Rightarrow> (case r3 of Some e \<Rightarrow> (Some e, d3)
                    | None \<Rightarrow> (None, d3\<lparr>parent_stack := tl (parent_stack d3)\<rparr>)))"
      using open_ fresh kids wires by (simp add: Let_def split: option.splits)
    then have "d' = d2 \<or> d' = d3 \<or> d' = d3\<lparr>parent_stack := tl (parent_stack d3)\<rparr>"
      using "3.prems"(1) by (simp split: option.splits)
    then show ?thesis using d2 d3 by (auto simp: cluster_only_def)
  qed
qed

lemma map_cluster_connections_empties:
  "map_cluster_connections n d = Some (None, d') \<Longrightarrow> cluster_connections d' = []"
proof (induction n arbitrary: d)
  case 0
  then show ?case by simp
next
  case (Suc n)
  let ?d1 = "d\<lparr>cluster_connections := []\<rparr>"
  obtain r2 d2 where run: "foreach map_cluster_connection (cluster_connections d) ?d1 = (r2, d2)"
    by (cases "foreach map_cluster_connection (cluster_connections d) ?d1")
  show ?case
  proof (cases r2)
    case (Some e)
    then show ?thesis using Suc.prems run by (simp add: Let_def)
  next
    case None
    show ?thesis
    proof (cases "cluster_connections d2 = []")
      case True
      then show ?thesis using Suc.prems run None by (simp add: Let_def)
    next
      case False
      then have "map_cluster_connections n d2 = Some (None, d')"
        using Suc.prems run None by (simp add: Let_def)
      then show ?thesis by (rule Suc.IH)
    qed
  qed
qed

section \<open>The frequencies the check assigns\<close>

subsection \<open>The arithmetic is exact when it does not wrap around\<close>

lemma rational_value_nat:
  "rational_value f = of_nat (unat (numerator f)) / of_nat (unat (denominator f))"
  by (simp add: rational_value_def)

lemma unat_gcd_component: "unat (gcd_component a b) = gcd (unat a) (unat b)"
proof (induction a b rule: gcd_component.induct)
  case (1 a b)
  show ?case
  proof (cases "b = 0")
    case True
    then show ?thesis by (simp add: gcd_component.simps)
  next
    case False
    then have "unat (gcd_component a b) = gcd (unat b) (unat a mod unat b)"
      using 1 by (simp add: gcd_component.simps [of a b] unat_mod)
    then show ?thesis by (metis gcd.commute gcd_red_nat)
  qed
qed

lemma unat_product:
  assumes "\<not> product_overflows a b"
  shows "unat (a * b) = unat a * unat b"
proof -
  have "int (unat a * unat b) < 2 ^ 64"
    using assms by (simp add: product_overflows_def)
  then have "unat a * unat b < 2 ^ 64"
    by (metis of_nat_less_iff of_nat_numeral of_nat_power)
  then show ?thesis using unat_mult_lem [of a b] by simp
qed

lemma reduced_product:
  fixes n1 n2 d1 d2 g1 g2 :: nat
  assumes "g1 dvd n1" "g1 dvd d2" "g2 dvd n2" "g2 dvd d1" "d1 \<noteq> 0" "d2 \<noteq> 0"
  shows "(of_nat ((n1 div g1) * (n2 div g2)) :: rat) / of_nat ((d1 div g2) * (d2 div g1))
           = (of_nat n1 / of_nat d1) * (of_nat n2 / of_nat d2)
         \<and> (d1 div g2) * (d2 div g1) \<noteq> 0"
proof -
  from assms obtain a b c e where
    n1: "n1 = g1 * a" and d2: "d2 = g1 * b" and n2: "n2 = g2 * c" and d1: "d1 = g2 * e"
    by (auto simp: dvd_def)
  have pos: "g1 \<noteq> 0" "g2 \<noteq> 0" "b \<noteq> 0" "e \<noteq> 0" using assms(5,6) d1 d2 by auto
  show ?thesis using pos by (simp add: n1 d2 n2 d1 field_simps)
qed

lemma rational_times_exact:
  assumes res: "rational_times l r = Some p" and ok: "\<not> times_overflows l r"
    and dl: "denominator l \<noteq> 0" and dr: "denominator r \<noteq> 0"
  shows "rational_value p = rational_value l * rational_value r \<and> denominator p \<noteq> 0"
proof -
  let ?n1 = "unat (numerator l)" and ?d1 = "unat (denominator l)"
  let ?n2 = "unat (numerator r)" and ?d2 = "unat (denominator r)"
  let ?g1 = "gcd ?n1 ?d2" and ?g2 = "gcd ?n2 ?d1"
  let ?gcd1 = "gcd_component (numerator l) (denominator r)"
  let ?gcd2 = "gcd_component (numerator r) (denominator l)"
  have p: "p = Rational ((numerator l div ?gcd1) * (numerator r div ?gcd2))
                        ((denominator l div ?gcd2) * (denominator r div ?gcd1))"
    using res by (simp add: rational_times_def Let_def split: if_splits)
  have no: "\<not> product_overflows (numerator l div ?gcd1) (numerator r div ?gcd2)"
    "\<not> product_overflows (denominator l div ?gcd2) (denominator r div ?gcd1)"
    using ok by (simp_all add: times_overflows_def Let_def)
  have n: "unat (numerator p) = (?n1 div ?g1) * (?n2 div ?g2)"
    by (simp add: p unat_product [OF no(1)] unat_div unat_gcd_component)
  have d: "unat (denominator p) = (?d1 div ?g2) * (?d2 div ?g1)"
    by (simp add: p unat_product [OF no(2)] unat_div unat_gcd_component)
  have nz: "?d1 \<noteq> 0" "?d2 \<noteq> 0" using dl dr by (simp_all add: unat_eq_0)
  have "(of_nat ((?n1 div ?g1) * (?n2 div ?g2)) :: rat) / of_nat ((?d1 div ?g2) * (?d2 div ?g1))
           = (of_nat ?n1 / of_nat ?d1) * (of_nat ?n2 / of_nat ?d2)
         \<and> (?d1 div ?g2) * (?d2 div ?g1) \<noteq> 0"
    by (rule reduced_product) (simp_all add: nz)
  then show ?thesis
    unfolding rational_value_nat n d using d by (simp add: unat_eq_0 [symmetric] del: unat_eq_0)
qed

lemma rational_divide_exact:
  assumes res: "rational_divide l r = Some (Inr p)" and ok: "\<not> divide_overflows l r"
    and dl: "denominator l \<noteq> 0" and dr: "denominator r \<noteq> 0"
    and nr: "numerator r \<noteq> 0"
  shows "rational_value p = rational_value l / rational_value r \<and> denominator p \<noteq> 0"
proof (cases "numerator l = 0")
  case True
  then have "p = l" using res nr by (simp add: rational_divide_def)
  then show ?thesis using True dl by (simp add: rational_value_nat)
next
  case False
  let ?n1 = "unat (numerator l)" and ?d1 = "unat (denominator l)"
  let ?n2 = "unat (numerator r)" and ?d2 = "unat (denominator r)"
  let ?g1 = "gcd ?n1 ?n2" and ?g2 = "gcd ?d2 ?d1"
  let ?gcd1 = "gcd_component (numerator l) (numerator r)"
  let ?gcd2 = "gcd_component (denominator r) (denominator l)"
  have p: "p = Rational ((numerator l div ?gcd1) * (denominator r div ?gcd2))
                        ((denominator l div ?gcd2) * (numerator r div ?gcd1))"
    using res nr False by (simp add: rational_divide_def Let_def split: if_splits)
  have no: "\<not> product_overflows (numerator l div ?gcd1) (denominator r div ?gcd2)"
    "\<not> product_overflows (denominator l div ?gcd2) (numerator r div ?gcd1)"
    using ok nr False by (simp_all add: divide_overflows_def Let_def)
  have n: "unat (numerator p) = (?n1 div ?g1) * (?d2 div ?g2)"
    by (simp add: p unat_product [OF no(1)] unat_div unat_gcd_component)
  have d: "unat (denominator p) = (?d1 div ?g2) * (?n2 div ?g1)"
    by (simp add: p unat_product [OF no(2)] unat_div unat_gcd_component)
  have nz: "?d1 \<noteq> 0" "?d2 \<noteq> 0" "?n2 \<noteq> 0" using dl dr nr by (simp_all add: unat_eq_0)
  have "(of_nat ((?n1 div ?g1) * (?d2 div ?g2)) :: rat) / of_nat ((?d1 div ?g2) * (?n2 div ?g1))
           = (of_nat ?n1 / of_nat ?d1) * (of_nat ?d2 / of_nat ?n2)
         \<and> (?d1 div ?g2) * (?n2 div ?g1) \<noteq> 0"
    by (rule reduced_product) (simp_all add: nz)
  then show ?thesis
    unfolding rational_value_nat n d using d by (simp add: unat_eq_0 [symmetric] del: unat_eq_0)
qed

lemma rational_scale_exact:
  assumes res: "rational_scale i r = Some p" and ok: "\<not> scale_overflows i r"
    and dr: "denominator r \<noteq> 0"
  shows "rational_value p = of_nat (unat i) * rational_value r \<and> denominator p \<noteq> 0"
proof -
  let ?n = "unat (numerator r)" and ?d = "unat (denominator r)" and ?i = "unat i"
  let ?g = "gcd ?i ?d"
  let ?gcd = "gcd_component i (denominator r)"
  have p: "p = Rational (numerator r * (i div ?gcd)) (denominator r div ?gcd)"
    using res by (simp add: rational_scale_def Let_def split: if_splits)
  have no: "\<not> product_overflows (numerator r) (i div ?gcd)"
    using ok by (simp add: scale_overflows_def)
  have n: "unat (numerator p) = ?n * (?i div ?g)"
    by (simp add: p unat_product [OF no] unat_div unat_gcd_component)
  have d: "unat (denominator p) = ?d div ?g"
    by (simp add: p unat_div unat_gcd_component)
  have nz: "?d \<noteq> 0" using dr by (simp add: unat_eq_0)
  have "(of_nat ((?n div 1) * (?i div ?g)) :: rat) / of_nat ((?d div ?g) * (1 div 1))
           = (of_nat ?n / of_nat ?d) * (of_nat ?i / of_nat 1)
         \<and> (?d div ?g) * (1 div 1) \<noteq> 0"
    by (rule reduced_product) (simp_all add: nz)
  then show ?thesis
    unfolding rational_value_nat n d using d by (simp add: unat_eq_0 [symmetric] del: unat_eq_0)
qed

lemma rational_value_nonzero:
  "numerator f \<noteq> 0 \<Longrightarrow> denominator f \<noteq> 0 \<Longrightarrow> rational_value f \<noteq> 0"
  by (simp add: rational_value_nat unsigned_eq_0_iff)

lemma expect_freq_exact:
  assumes res: "expect_freq pf f g = Some (Inr (x, wrapped))" and ok: "\<not> wrapped"
    and dens: "denominator pf \<noteq> 0" "denominator f \<noteq> 0" "denominator g \<noteq> 0"
    and ng: "numerator g \<noteq> 0"
  shows "rational_value x * rational_value g = rational_value pf * rational_value f
       \<and> denominator x \<noteq> 0"
proof -
  from res obtain edge where
    times: "rational_times pf f = Some edge" and
    divide: "rational_divide edge g = Some (Inr x)" and
    w: "wrapped = (times_overflows pf f \<or> divide_overflows edge g)"
    by (auto simp: expect_freq_def split: option.splits sum.splits)
  have e: "rational_value edge = rational_value pf * rational_value f \<and> denominator edge \<noteq> 0"
    using times ok w dens by (intro rational_times_exact) simp_all
  have x: "rational_value x = rational_value edge / rational_value g \<and> denominator x \<noteq> 0"
    using divide ok w e dens ng by (intro rational_divide_exact) simp_all
  have "rational_value g \<noteq> 0" using ng dens(3) by (rule rational_value_nonzero)
  then show ?thesis using e x by simp
qed


subsection \<open>The frequency map\<close>

lemma map_set_keys: "set (map fst (map_set k v m)) = insert k (set (map fst m))"
proof (induction m)
  case Nil
  then show ?case by simp
next
  case (Cons kv m)
  then show ?case by (cases kv) (simp del: set_map add: insert_commute)
qed

lemma map_set_subset: "kv \<in> set (map_set k v m) \<Longrightarrow> kv = (k, v) \<or> kv \<in> set m"
  by (induction m) (auto split: if_splits)

lemma map_set_sorted:
  "sorted_wrt (<) (map fst m) \<Longrightarrow> sorted_wrt (<) (map fst (map_set k v m))"
proof (induction m)
  case Nil
  then show ?case by simp
next
  case (Cons kv m)
  obtain k' v' where kv: "kv = (k', v')" by (cases kv)
  have tail: "sorted_wrt (<) (map fst m)" and above: "\<forall>x \<in> set m. k' < fst x"
    using Cons.prems kv by auto
  show ?case
  proof (cases "k < k'")
    case True
    then show ?thesis using Cons.prems kv above by auto
  next
    case False
    show ?thesis
    proof (cases "k = k'")
      case True
      then show ?thesis using Cons.prems kv by auto
    next
      case neq: False
      then have "k' < k" using False by simp
      moreover have "\<forall>x \<in> set (map_set k v m). k' < fst x"
      proof
        fix x assume "x \<in> set (map_set k v m)"
        then have "fst x \<in> insert k (set (map fst m))" using map_set_keys [of k v m] by auto
        then show "k' < fst x" using above \<open>k' < k\<close> by auto
      qed
      ultimately show ?thesis using Cons.IH [OF tail] kv False neq by simp
    qed
  qed
qed

text \<open>
  A connection is settled by a frequency map when its port frequencies are not both known,
  or both its processes have a frequency and the frequencies agree across the connection
  as rational numbers, unless excused.
\<close>

definition settled ::
  "priv \<Rightarrow> (name_t \<times> port_frequency_t) list \<Rightarrow> bool \<Rightarrow> connection_t \<Rightarrow> bool" where
  "settled d freq_map excused c \<longleftrightarrow>
     (case port_frequencies d c of
        None \<Rightarrow> True
      | Some (uf, df) \<Rightarrow>
          numerator uf = 0 \<or> numerator df = 0 \<or>
          (\<exists>fu fd. map_find freq_map (fst (fst c)) = Some fu
                 \<and> map_find freq_map (fst (snd c)) = Some fd
                 \<and> (excused
                    \<or> rational_value fu * rational_value uf
                        = rational_value fd * rational_value df)))"

definition extends ::
  "(name_t \<times> port_frequency_t) list \<Rightarrow> (name_t \<times> port_frequency_t) list \<Rightarrow> bool" where
  "extends m m' \<longleftrightarrow> (\<forall>k v. map_find m k = Some v \<longrightarrow> map_find m' k = Some v)"

lemma settled_extends:
  "settled d m x c \<Longrightarrow> extends m m' \<Longrightarrow> (x \<longrightarrow> x') \<Longrightarrow> settled d m' x' c"
  unfolding settled_def extends_def
  by (auto split: option.splits)

lemma check_connection_frequency_lookups:
  assumes "check_connection_frequency d c q m ov = Some (Inr res)"
  shows "\<exists>uf df. port_frequencies d c = Some (uf, df)"
proof (cases "process_by_name d (fst (fst c))")
  case (Inl e)
  then show ?thesis using assms by (simp add: check_connection_frequency_def Let_def)
next
  case up: (Inr up_proc)
  show ?thesis
  proof (cases "output_port_info up_proc (snd (fst c))")
    case (Inl e)
    then show ?thesis using assms up by (simp add: check_connection_frequency_def Let_def)
  next
    case ui: (Inr up_info)
    show ?thesis
    proof (cases "process_by_name d (fst (snd c))")
      case (Inl e)
      then show ?thesis using assms up ui by (simp add: check_connection_frequency_def Let_def)
    next
      case down: (Inr down_proc)
      show ?thesis
      proof (cases "input_port_info down_proc (snd (snd c))")
        case (Inl e)
        then show ?thesis using assms up ui down
          by (simp add: check_connection_frequency_def Let_def)
      next
        case (Inr down_info)
        then show ?thesis using up ui down by (simp add: port_frequencies_def)
      qed
    qed
  qed
qed

text \<open>The turn of the loop for a connection whose port frequencies are both known.\<close>

definition settle ::
  "connection_t \<Rightarrow> port_frequency_t \<Rightarrow> port_frequency_t \<Rightarrow> connection_t list
   \<Rightarrow> (name_t \<times> port_frequency_t) list \<Rightarrow> bool
   \<Rightarrow> (exn + connection_t list \<times> (name_t \<times> port_frequency_t) list \<times> bool) option" where
  "settle c uf df q m ov =
    (let un = fst (fst c); dn = fst (snd c);
         seed = (map_find m un = None \<and> map_find m dn = None \<and> length m = 0);
         m1 = (if seed then map_set un base_freq m else m);
         have_upstream = (seed \<or> map_find m un \<noteq> None);
         have_downstream = (map_find m dn \<noteq> None) in
     if have_upstream \<and> have_downstream
     then (case map_index (Rational 0 1) m1 un of
            (up_proc_freq, m2) \<Rightarrow>
              (case expect_freq up_proc_freq uf df of
                 None \<Rightarrow> None
               | Some (Inl e) \<Rightarrow> Some (Inl e)
               | Some (Inr (expect, wrapped)) \<Rightarrow>
                   (case map_index (Rational 0 1) m2 dn of
                      (down_proc_freq, m3) \<Rightarrow>
                        if down_proc_freq \<noteq> expect
                        then Some (Inl (frequency_mismatch_exception
                                          un (snd (fst c)) up_proc_freq
                                          dn (snd (snd c)) down_proc_freq))
                        else Some (Inr (q, m3, ov \<or> wrapped)))))
     else if have_upstream
     then (case map_index (Rational 0 1) m1 un of
            (up_proc_freq, m2) \<Rightarrow>
              (case expect_freq up_proc_freq uf df of
                 None \<Rightarrow> None
               | Some (Inl e) \<Rightarrow> Some (Inl e)
               | Some (Inr (expect, wrapped)) \<Rightarrow>
                   Some (Inr (q, map_set dn expect m2, ov \<or> wrapped))))
     else if have_downstream
     then (case map_index (Rational 0 1) m1 dn of
            (down_proc_freq, m2) \<Rightarrow>
              (case expect_freq down_proc_freq df uf of
                 None \<Rightarrow> None
               | Some (Inl e) \<Rightarrow> Some (Inl e)
               | Some (Inr (expect, wrapped)) \<Rightarrow>
                   Some (Inr (q, map_set un expect m2, ov \<or> wrapped))))
     else Some (Inr (q @ [c], m1, ov)))"

lemma check_connection_frequency_known:
  assumes "port_frequencies d c = Some (uf, df)"
  shows "check_connection_frequency d c q m ov =
    (if numerator uf = 0 \<or> numerator df = 0 then Some (Inr (q, m, ov))
     else settle c uf df q m ov)"
proof -
  from assms obtain up_proc up_info down_proc down_info where
    up: "process_by_name d (fst (fst c)) = Inr up_proc" and
    ui: "output_port_info up_proc (snd (fst c)) = Inr up_info" and
    down: "process_by_name d (fst (snd c)) = Inr down_proc" and
    di: "input_port_info down_proc (snd (snd c)) = Inr down_info" and
    uf: "frequency up_info = uf" and df: "frequency down_info = df"
    by (auto simp: port_frequencies_def split: sum.splits)
  show ?thesis
    by (simp only: check_connection_frequency_def settle_def Let_def up ui down di uf df sum.case)
qed


lemma rational_value_base_freq [simp]: "rational_value base_freq = 1"
  by (simp add: rational_value_def base_freq_def)

lemma denominator_base_freq [simp]: "denominator base_freq \<noteq> 0"
  by (simp add: base_freq_def)

lemma check_connection_frequency_step:
  assumes step: "check_connection_frequency d c q m ov = Some (Inr (q', m', ov'))"
    and wf: "\<And>uf df. port_frequencies d c = Some (uf, df)
               \<Longrightarrow> bad \<or> (denominator uf \<noteq> 0 \<and> denominator df \<noteq> 0)"
    and dens: "bad \<or> ov \<or> (\<forall>kv \<in> set m. denominator (snd kv) \<noteq> 0)"
    and first: "m = [] \<Longrightarrow> known_frequencies d c \<Longrightarrow> seed = Some c"
  shows "extends m m'
       \<and> (c \<in> set q'
          \<or> settled d m' (bad \<or> ov' \<or> (fst (fst c) = fst (snd c) \<and> seed = Some c)) c)
       \<and> set q \<subseteq> set q' \<and> set q' \<subseteq> insert c (set q)
       \<and> (sorted_wrt (<) (map fst m) \<longrightarrow> sorted_wrt (<) (map fst m'))
       \<and> (ov \<longrightarrow> ov')
       \<and> (bad \<or> ov' \<or> (\<forall>kv \<in> set m'. denominator (snd kv) \<noteq> 0))
       \<and> (m' = [] \<longrightarrow> m = [] \<and> q' = q \<and> \<not> known_frequencies d c)
       \<and> (m \<noteq> [] \<longrightarrow> m' \<noteq> [])"
proof -
  let ?un = "fst (fst c)" and ?dn = "fst (snd c)"
  let ?slip = "?un = ?dn \<and> seed = Some c"
  from step obtain uf df where pf: "port_frequencies d c = Some (uf, df)"
    using check_connection_frequency_lookups by blast
  note body = step [unfolded check_connection_frequency_known [OF pf]]
  have nonempty: "map_set k v xs \<noteq> []" for k v and xs :: "(name_t \<times> port_frequency_t) list"
    by (cases xs) (auto split: if_splits)
  show ?thesis
  proof (cases "numerator uf = 0 \<or> numerator df = 0")
    case True
    then have "q' = q" "m' = m" "ov' = ov" using body by auto
    then show ?thesis
      using True pf dens by (auto simp: extends_def settled_def known_frequencies_def)
  next
    case known: False
    then have nuf: "numerator uf \<noteq> 0" and ndf: "numerator df \<noteq> 0" by auto
    have kn: "known_frequencies d c" using pf nuf ndf by (simp add: known_frequencies_def)
    have run: "settle c uf df q m ov = Some (Inr (q', m', ov'))" using body known by simp
    have proper: "denominator uf \<noteq> 0" "denominator df \<noteq> 0" if "\<not> bad"
      using wf [OF pf] that by auto
    have old: "\<forall>kv \<in> set m. denominator (snd kv) \<noteq> 0" if "\<not> bad" "\<not> ov"
      using dens that by auto
    show ?thesis
    proof (cases "map_find m ?un")
      case no_up: None
      show ?thesis
      proof (cases "map_find m ?dn")
        case no_down: None
        show ?thesis
        proof (cases "length m = 0")
          case True
          then have m: "m = []" by simp
          from run obtain x w where
            ex: "expect_freq base_freq uf df = Some (Inr (x, w))" and
            res: "q' = q" "m' = map_set ?dn x [(?un, base_freq)]" "ov' = (ov \<or> w)"
            using m
            by (auto simp: settle_def Let_def map_index_def map_find_def
                     split: option.splits sum.splits if_splits)
          have exact: "rational_value x * rational_value df = rational_value uf
                       \<and> denominator x \<noteq> 0" if "\<not> bad" "\<not> ov'"
            using expect_freq_exact [OF ex] that res(3) proper ndf by simp
          have "settled d m' (bad \<or> ov' \<or> ?slip) c"
          proof (cases "bad \<or> ov' \<or> ?slip")
            case True
            then show ?thesis
              using pf by (auto simp: settled_def res(2) map_find_map_set map_find_def)
          next
            case False
            then have "?un \<noteq> ?dn" using first [OF m kn] by simp
            moreover have "rational_value x * rational_value df = rational_value uf"
              using exact False by simp
            ultimately show ?thesis
              using pf by (auto simp: settled_def res(2) map_find_map_set map_find_def)
          qed
          moreover have "sorted_wrt (<) (map fst m')"
            unfolding res by (rule map_set_sorted) simp
          moreover have "bad \<or> ov' \<or> (\<forall>kv \<in> set m'. denominator (snd kv) \<noteq> 0)"
            using exact by (auto simp: res(2) dest!: map_set_subset)
          moreover have "m' \<noteq> []" unfolding res by (rule nonempty)
          ultimately show ?thesis using res(1,3) m by (auto simp: extends_def map_find_def)
        next
          case False
          then have "q' = q @ [c]" "m' = m" "ov' = ov"
            using run no_up no_down by (simp_all add: settle_def Let_def)
          then show ?thesis using dens False by (auto simp: extends_def)
        qed
      next
        case down: (Some fd)
        from run obtain x w where
          ex: "expect_freq fd df uf = Some (Inr (x, w))" and
          res: "q' = q" "m' = map_set ?un x m" "ov' = (ov \<or> w)"
          using no_up down
          by (auto simp: settle_def Let_def map_index_def
                   split: option.splits sum.splits if_splits)
        have fd: "denominator fd \<noteq> 0" if "\<not> bad" "\<not> ov"
          using old [OF that] down by (auto simp: map_find_def dest!: map_of_SomeD)
        have exact: "rational_value x * rational_value uf = rational_value fd * rational_value df
                     \<and> denominator x \<noteq> 0" if "\<not> bad" "\<not> ov'"
          using expect_freq_exact [OF ex] that res(3) proper nuf fd by simp
        have ext: "extends m m'"
          using no_up by (auto simp: extends_def res map_find_map_set)
        have neq: "?un \<noteq> ?dn" using no_up down by auto
        have "settled d m' (bad \<or> ov' \<or> ?slip) c"
          using pf down neq exact by (auto simp: settled_def res(2) map_find_map_set)
        moreover have "bad \<or> ov' \<or> (\<forall>kv \<in> set m'. denominator (snd kv) \<noteq> 0)"
          using exact old res(3) by (auto simp: res(2) dest!: map_set_subset)
        moreover have "m' \<noteq> []" unfolding res by (rule nonempty)
        ultimately show ?thesis using ext res by (auto simp: map_set_sorted)
      qed
    next
      case up: (Some fu)
      have fu: "denominator fu \<noteq> 0" if "\<not> bad" "\<not> ov"
        using old [OF that] up by (auto simp: map_find_def dest!: map_of_SomeD)
      have filled: "m \<noteq> []" using up by (auto simp: map_find_def)
      show ?thesis
      proof (cases "map_find m ?dn")
        case no_down: None
        from run obtain x w where
          ex: "expect_freq fu uf df = Some (Inr (x, w))" and
          res: "q' = q" "m' = map_set ?dn x m" "ov' = (ov \<or> w)"
          using up no_down
          by (auto simp: settle_def Let_def map_index_def
                   split: option.splits sum.splits if_splits)
        have exact: "rational_value fu * rational_value uf = rational_value x * rational_value df
                     \<and> denominator x \<noteq> 0" if "\<not> bad" "\<not> ov'"
        proof -
          have "rational_value x * rational_value df = rational_value fu * rational_value uf
                \<and> denominator x \<noteq> 0"
            using expect_freq_exact [OF ex] that res(3) proper ndf fu by simp
          then show ?thesis by simp
        qed
        have ext: "extends m m'"
          using no_down by (auto simp: extends_def res map_find_map_set)
        have neq: "?un \<noteq> ?dn" using up no_down by auto
        have "settled d m' (bad \<or> ov' \<or> ?slip) c"
          using pf up neq exact by (auto simp: settled_def res(2) map_find_map_set)
        moreover have "bad \<or> ov' \<or> (\<forall>kv \<in> set m'. denominator (snd kv) \<noteq> 0)"
          using exact old res(3) by (auto simp: res(2) dest!: map_set_subset)
        moreover have "m' \<noteq> []" unfolding res by (rule nonempty)
        ultimately show ?thesis using ext res by (auto simp: map_set_sorted)
      next
        case down: (Some fd)
        from run obtain w where
          ex: "expect_freq fu uf df = Some (Inr (fd, w))" and
          res: "q' = q" "m' = m" "ov' = (ov \<or> w)"
          using up down
          by (auto simp: settle_def Let_def map_index_def
                   split: option.splits sum.splits if_splits)
        have exact: "rational_value fu * rational_value uf = rational_value fd * rational_value df
                     \<and> denominator fd \<noteq> 0" if "\<not> bad" "\<not> ov'"
        proof -
          have "rational_value fd * rational_value df = rational_value fu * rational_value uf
                \<and> denominator fd \<noteq> 0"
            using expect_freq_exact [OF ex] that res(3) proper ndf fu by simp
          then show ?thesis by simp
        qed
        have "settled d m' (bad \<or> ov' \<or> ?slip) c"
          using pf up down exact by (auto simp: settled_def res(2))
        moreover have "bad \<or> ov' \<or> (\<forall>kv \<in> set m'. denominator (snd kv) \<noteq> 0)"
          using old res by auto
        ultimately show ?thesis using res filled by (auto simp: extends_def)
      qed
    qed
  qed
qed

lemma find_after_unknown:
  "\<forall>x \<in> set pre. \<not> P x \<Longrightarrow> P c \<Longrightarrow> find P (pre @ c # rest) = Some c"
  by (induction pre) auto

lemma check_frequencies_settles:
  assumes "check_frequencies n d q m ov = Some (Inr (m', ov'))"
    and "\<forall>c \<in> set conns. c \<in> set q
           \<or> settled d m (bad \<or> ov \<or> (fst (fst c) = fst (snd c) \<and> seed = Some c)) c"
    and "sorted_wrt (<) (map fst m)"
    and "set q \<subseteq> set conns"
    and "\<forall>c \<in> set conns. \<forall>uf df. port_frequencies d c = Some (uf, df)
           \<longrightarrow> bad \<or> (denominator uf \<noteq> 0 \<and> denominator df \<noteq> 0)"
    and "bad \<or> ov \<or> (\<forall>kv \<in> set m. denominator (snd kv) \<noteq> 0)"
    and "m = [] \<longrightarrow> (\<exists>pre. conns = pre @ q \<and> (\<forall>x \<in> set pre. \<not> known_frequencies d x))"
    and "seed = find (known_frequencies d) conns"
  shows "(\<forall>c \<in> set conns.
            settled d m' (bad \<or> ov' \<or> (fst (fst c) = fst (snd c) \<and> seed = Some c)) c)
       \<and> sorted_wrt (<) (map fst m')
       \<and> (bad \<or> ov' \<or> (\<forall>kv \<in> set m'. denominator (snd kv) \<noteq> 0))"
  using assms
proof (induction n arbitrary: q m ov)
  case 0
  then show ?case by (cases q) auto
next
  case (Suc n)
  show ?case
  proof (cases q)
    case Nil
    then show ?thesis using Suc.prems by auto
  next
    case (Cons c q1)
    from Suc.prems(1) Cons obtain q2 m2 ov2 where
      step: "check_connection_frequency d c q1 m ov = Some (Inr (q2, m2, ov2))" and
      rest: "check_frequencies n d q2 m2 ov2 = Some (Inr (m', ov'))"
      by (auto split: option.splits sum.splits)
    have c: "c \<in> set conns" using Suc.prems(4) Cons by simp
    have wf: "bad \<or> (denominator uf \<noteq> 0 \<and> denominator df \<noteq> 0)"
      if "port_frequencies d c = Some (uf, df)" for uf df
      using Suc.prems(5) c that by blast
    have first: "seed = Some c" if "m = []" "known_frequencies d c"
    proof -
      from Suc.prems(7) that(1) Cons obtain pre where
        "conns = pre @ c # q1" and "\<forall>x \<in> set pre. \<not> known_frequencies d x"
        by auto
      then show ?thesis using that(2) Suc.prems(8) by (simp add: find_after_unknown)
    qed
    note facts = check_connection_frequency_step [OF step wf Suc.prems(6) first]
    have inv: "\<forall>x \<in> set conns. x \<in> set q2
        \<or> settled d m2 (bad \<or> ov2 \<or> (fst (fst x) = fst (snd x) \<and> seed = Some x)) x"
    proof
      fix x assume "x \<in> set conns"
      then have "x = c \<or> x \<in> set q1
          \<or> settled d m (bad \<or> ov \<or> (fst (fst x) = fst (snd x) \<and> seed = Some x)) x"
        using Suc.prems(2) Cons by auto
      moreover have
        "settled d m2 (bad \<or> ov2 \<or> (fst (fst x) = fst (snd x) \<and> seed = Some x)) x"
        if "settled d m (bad \<or> ov \<or> (fst (fst x) = fst (snd x) \<and> seed = Some x)) x"
        using that facts
        by (intro settled_extends
              [of d m "bad \<or> ov \<or> (fst (fst x) = fst (snd x) \<and> seed = Some x)" x m2])
           auto
      ultimately show "x \<in> set q2
          \<or> settled d m2 (bad \<or> ov2 \<or> (fst (fst x) = fst (snd x) \<and> seed = Some x)) x"
        using facts by blast
    qed
    have sorted: "sorted_wrt (<) (map fst m2)" using facts Suc.prems(3) by simp
    have sub: "set q2 \<subseteq> set conns" using facts Suc.prems(4) Cons c by auto
    have dens: "bad \<or> ov2 \<or> (\<forall>kv \<in> set m2. denominator (snd kv) \<noteq> 0)"
      using facts by blast
    have skipped: "m2 = [] \<longrightarrow>
        (\<exists>pre. conns = pre @ q2 \<and> (\<forall>x \<in> set pre. \<not> known_frequencies d x))"
    proof
      assume "m2 = []"
      then have m: "m = []" and q2: "q2 = q1" and unknown: "\<not> known_frequencies d c"
        using facts by auto
      from Suc.prems(7) m Cons obtain pre where
        "conns = pre @ c # q1" and "\<forall>x \<in> set pre. \<not> known_frequencies d x"
        by auto
      then have "conns = (pre @ [c]) @ q2 \<and> (\<forall>x \<in> set (pre @ [c]). \<not> known_frequencies d x)"
        using q2 unknown by simp
      then show "\<exists>pre. conns = pre @ q2 \<and> (\<forall>x \<in> set pre. \<not> known_frequencies d x)"
        by blast
    qed
    show ?thesis by (rule Suc.IH [OF rest inv sorted sub Suc.prems(5) dens skipped Suc.prems(8)])
  qed
qed

lemma foreach_set_core_frequency:
  "foreach_fuel (set_core_frequency_of g) fm d = Some (None, d') \<Longrightarrow>
     d' = d\<lparr>core_frequency_calls :=
             core_frequency_calls d @ map (\<lambda>pf. (fst pf, the (rational_scale g (snd pf)))) fm\<rparr>
     \<and> (\<forall>pf \<in> set fm. rational_scale g (snd pf) \<noteq> None)"
proof (induction fm arbitrary: d)
  case Nil
  then show ?case by simp
next
  case (Cons pf fm)
  from Cons.prems obtain d1 where
    one: "set_core_frequency_of g pf d = Some (None, d1)" and
    rest: "foreach_fuel (set_core_frequency_of g) fm d1 = Some (None, d')"
    by (auto split: option.splits prod.splits)
  from one obtain core where
    core: "rational_scale g (snd pf) = Some core" and
    d1: "d1 = set_core_frequency (fst pf) core d"
    by (auto simp: set_core_frequency_of_def Let_def split: option.splits sum.splits)
  show ?case using Cons.IH [OF rest] core d1 by (simp add: set_core_frequency_def)
qed

lemma map_of_scaled:
  "map_of (map (\<lambda>pf. (fst pf, f (snd pf))) m) k = map_option f (map_of m k)"
  by (induction m) auto

lemma distinct_filter_key:
  "distinct (map fst xs) \<Longrightarrow> map_of xs k = Some v \<Longrightarrow> filter (\<lambda>x. fst x = k) xs = [(k, v)]"
proof (induction xs)
  case Nil
  then show ?case by simp
next
  case (Cons x xs)
  show ?case
  proof (cases "fst x = k")
    case True
    then have "k \<notin> fst ` set xs" using Cons.prems(1) by auto
    then have "filter (\<lambda>x. fst x = k) xs = []" by (auto simp: filter_empty_conv)
    then show ?thesis using True Cons.prems(2) by (cases x) auto
  next
    case False
    then show ?thesis using Cons by (cases x) auto
  qed
qed

lemma distinct_filter_key_le:
  "distinct (map fst xs) \<Longrightarrow> length (filter (\<lambda>x. fst x = k) xs) \<le> 1"
proof (induction xs)
  case Nil
  then show ?case by simp
next
  case (Cons x xs)
  show ?case
  proof (cases "fst x = k")
    case True
    then have "k \<notin> fst ` set xs" using Cons.prems(1) by auto
    then have "filter (\<lambda>x. fst x = k) xs = []" by (auto simp: filter_empty_conv)
    then show ?thesis using True by simp
  next
    case False
    then show ?thesis using Cons by simp
  qed
qed

text \<open>The check reads the processes and the resolved connections only.\<close>

lemma process_by_name_reads:
  "process_map d = process_map d' \<Longrightarrow> process_by_name d = process_by_name d'"
  by (rule ext) (simp add: process_by_name_def)

lemma check_connection_frequency_reads:
  assumes "process_map d = process_map d'"
  shows "check_connection_frequency d c q m ov = check_connection_frequency d' c q m ov"
  unfolding check_connection_frequency_def process_by_name_reads [OF assms] by (rule refl)

lemma check_frequencies_reads:
  "process_map d = process_map d' \<Longrightarrow>
     check_frequencies n d q m ov = check_frequencies n d' q m ov"
proof (induction n arbitrary: q m ov)
  case 0
  then show ?case by (cases q) simp_all
next
  case (Suc n)
  show ?case
  proof (cases q)
    case Nil
    then show ?thesis by simp
  next
    case (Cons c q1)
    then show ?thesis
      using Suc.IH [OF Suc.prems] check_connection_frequency_reads [OF Suc.prems]
      by (simp split: option.splits sum.splits)
  qed
qed

lemma frequency_overflow_reads:
  "process_map d = process_map d' \<Longrightarrow> connections d = connections d' \<Longrightarrow>
     frequency_overflow fuel d = frequency_overflow fuel d'"
  by (simp add: frequency_overflow_def check_frequencies_reads [of d d'])

lemma port_frequencies_reads:
  assumes "process_map d = process_map d'"
  shows "port_frequencies d c = port_frequencies d' c"
  unfolding port_frequencies_def process_by_name_reads [OF assms] by (rule refl)

lemma seed_connection_reads:
  assumes "process_map d = process_map d'" and "connections d = connections d'"
  shows "seed_connection d = seed_connection d'"
proof -
  have "known_frequencies d = known_frequencies d'"
    by (rule ext) (simp add: known_frequencies_def port_frequencies_reads [OF assms(1)])
  then show ?thesis using assms(2) by (simp add: seed_connection_def)
qed

lemma proper_frequencies_reads:
  "process_map d = process_map d' \<Longrightarrow> connections d = connections d' \<Longrightarrow>
     proper_frequencies d = proper_frequencies d'"
  by (simp add: proper_frequencies_def port_frequencies_reads [of d d'])


text \<open>What the calls of set_core_frequency of a successful check are.\<close>

lemma check_port_frequencies_calls:
  assumes run: "check_port_frequencies fuel d = Some (None, d')"
  shows "\<exists>calls. d' = d\<lparr>core_frequency_calls := core_frequency_calls d @ calls\<rparr>
      \<and> distinct (map fst calls)
      \<and> (length (process_map d) = 1 \<longrightarrow> calls = map (\<lambda>n. (n, base_freq)) (process_names d))
      \<and> (\<forall>c \<in> set (connections d). \<forall>uf df.
            port_frequencies d c = Some (uf, df) \<longrightarrow> numerator uf \<noteq> 0 \<longrightarrow> numerator df \<noteq> 0 \<longrightarrow>
            (\<exists>fu fd. map_of calls (fst (fst c)) = Some fu \<and> map_of calls (fst (snd c)) = Some fd
               \<and> ((fst (fst c) = fst (snd c)
                    \<and> (length (process_map d) = 1 \<or> seed_connection d = Some c))
                  \<or> frequency_overflow fuel d
                  \<or> \<not> proper_frequencies d
                  \<or> rational_value fu * rational_value uf
                      = rational_value fd * rational_value df)))"
proof (cases "length (process_map d) = 1")
  case True
  then obtain n p where pm: "process_map d = [(n, p)]"
    by (cases "process_map d") auto
  let ?calls = "[(n, base_freq)]"
  have d': "d' = d\<lparr>core_frequency_calls := core_frequency_calls d @ ?calls\<rparr>"
    using run pm by (simp add: check_port_frequencies_def set_core_frequency_def)
  have "\<exists>fu fd. map_of ?calls (fst (fst c)) = Some fu \<and> map_of ?calls (fst (snd c)) = Some fd
      \<and> ((fst (fst c) = fst (snd c)
           \<and> (length (process_map d) = 1 \<or> seed_connection d = Some c))
         \<or> frequency_overflow fuel d \<or> \<not> proper_frequencies d
         \<or> rational_value fu * rational_value uf = rational_value fd * rational_value df)"
    if "port_frequencies d c = Some (uf, df)" for c uf df
  proof -
    from that have "process_by_name d (fst (fst c)) \<noteq> Inl (no_such_process_exception (fst (fst c)))"
      and "process_by_name d (fst (snd c)) \<noteq> Inl (no_such_process_exception (fst (snd c)))"
      by (auto simp: port_frequencies_def process_by_name_def split: sum.splits option.splits)
    then have "fst (fst c) = n" and "fst (snd c) = n"
      using pm by (auto simp: process_by_name_def map_find_def split: if_splits)
    then show ?thesis using True by simp
  qed
  then have "\<forall>c \<in> set (connections d). \<forall>uf df.
      port_frequencies d c = Some (uf, df) \<longrightarrow> numerator uf \<noteq> 0 \<longrightarrow> numerator df \<noteq> 0 \<longrightarrow>
      (\<exists>fu fd. map_of ?calls (fst (fst c)) = Some fu \<and> map_of ?calls (fst (snd c)) = Some fd
         \<and> ((fst (fst c) = fst (snd c)
              \<and> (length (process_map d) = 1 \<or> seed_connection d = Some c))
            \<or> frequency_overflow fuel d \<or> \<not> proper_frequencies d
            \<or> rational_value fu * rational_value uf = rational_value fd * rational_value df))"
    by blast
  moreover have "distinct (map fst ?calls)" by simp
  moreover have "?calls = map (\<lambda>n. (n, base_freq)) (process_names d)"
    using pm by (simp add: process_names_def)
  ultimately show ?thesis using d' by (intro exI [of _ ?calls]) simp
next
  case False
  from run False obtain fm ov where
    loop: "check_frequencies fuel d (connections d) [] False = Some (Inr (fm, ov))" and
    calls: "foreach_fuel (set_core_frequency_of (fst (freq_gcd fm))) fm d = Some (None, d')"
    by (auto simp: check_port_frequencies_def split: option.splits sum.splits)
  let ?g = "fst (freq_gcd fm)"
  let ?scale = "\<lambda>f. the (rational_scale ?g f)"
  let ?calls = "map (\<lambda>pf. (fst pf, ?scale (snd pf))) fm"
  let ?bad = "\<not> proper_frequencies d"
  let ?seed = "seed_connection d"
  have d': "d' = d\<lparr>core_frequency_calls := core_frequency_calls d @ ?calls\<rparr>"
    and scaled: "\<forall>pf \<in> set fm. rational_scale ?g (snd pf) \<noteq> None"
    using foreach_set_core_frequency [OF calls] by simp_all
  have wf: "\<forall>c \<in> set (connections d). \<forall>uf df. port_frequencies d c = Some (uf, df)
           \<longrightarrow> ?bad \<or> (denominator uf \<noteq> 0 \<and> denominator df \<noteq> 0)"
  proof (intro ballI allI impI)
    fix c uf df
    assume c: "c \<in> set (connections d)" and pf: "port_frequencies d c = Some (uf, df)"
    show "?bad \<or> (denominator uf \<noteq> 0 \<and> denominator df \<noteq> 0)"
    proof (cases "proper_frequencies d")
      case True
      then have "case port_frequencies d c of
                   None \<Rightarrow> True
                 | Some (uf, df) \<Rightarrow> denominator uf \<noteq> 0 \<and> denominator df \<noteq> 0"
        using c unfolding proper_frequencies_def by blast
      then show ?thesis using pf by simp
    next
      case False
      then show ?thesis by simp
    qed
  qed
  have start: "[] = [] \<longrightarrow>
      (\<exists>pre. connections d = pre @ connections d \<and> (\<forall>x \<in> set pre. \<not> known_frequencies d x))"
    by simp
  have inv: "(\<forall>c \<in> set (connections d).
        settled d fm (?bad \<or> ov \<or> (fst (fst c) = fst (snd c) \<and> ?seed = Some c)) c)
      \<and> sorted_wrt (<) (map fst fm)
      \<and> (?bad \<or> ov \<or> (\<forall>kv \<in> set fm. denominator (snd kv) \<noteq> 0))"
    by (rule check_frequencies_settles [OF loop _ _ _ wf _ start])
       (simp_all add: seed_connection_def)
  then have "distinct (map fst fm)"
    using strict_sorted_iff by blast
  then have dist: "distinct (map fst ?calls)" by (simp add: comp_def)
  have over: "frequency_overflow fuel d \<longleftrightarrow>
      ov \<or> snd (freq_gcd fm) \<or> (\<exists>pf \<in> set fm. scale_overflows ?g (snd pf))"
    using False loop by (simp add: frequency_overflow_def)
  have rel: "\<exists>fu fd. map_of ?calls (fst (fst c)) = Some fu \<and> map_of ?calls (fst (snd c)) = Some fd
      \<and> ((fst (fst c) = fst (snd c)
           \<and> (length (process_map d) = 1 \<or> seed_connection d = Some c))
         \<or> frequency_overflow fuel d \<or> ?bad
         \<or> rational_value fu * rational_value uf = rational_value fd * rational_value df)"
    if c: "c \<in> set (connections d)" and pf: "port_frequencies d c = Some (uf, df)"
      and uf: "numerator uf \<noteq> 0" and df: "numerator df \<noteq> 0" for c uf df
  proof -
    from inv c have
      "settled d fm (?bad \<or> ov \<or> (fst (fst c) = fst (snd c) \<and> ?seed = Some c)) c"
      by blast
    then obtain fu fd where
      fu: "map_find fm (fst (fst c)) = Some fu" and fd: "map_find fm (fst (snd c)) = Some fd"
      and eq: "?bad \<or> ov \<or> (fst (fst c) = fst (snd c) \<and> ?seed = Some c)
               \<or> rational_value fu * rational_value uf = rational_value fd * rational_value df"
      using pf uf df by (auto simp: settled_def)
    have found: "map_of ?calls (fst (fst c)) = Some (?scale fu)"
      "map_of ?calls (fst (snd c)) = Some (?scale fd)"
      using fu fd by (simp_all add: map_of_scaled [where f = "?scale"] map_find_def)
    have "rational_value (?scale fu) * rational_value uf
            = rational_value (?scale fd) * rational_value df"
      if exact: "\<not> frequency_overflow fuel d" and proper: "proper_frequencies d"
        and other: "\<not> (fst (fst c) = fst (snd c) \<and> ?seed = Some c)"
    proof -
      have mem: "(fst (fst c), fu) \<in> set fm" "(fst (snd c), fd) \<in> set fm"
        using fu fd by (auto simp: map_find_def dest: map_of_SomeD)
      have ov: "\<not> ov" and su: "\<not> scale_overflows ?g fu" and sd: "\<not> scale_overflows ?g fd"
        using exact over mem by force+
      have dens: "denominator fu \<noteq> 0" "denominator fd \<noteq> 0"
        using inv proper ov mem by force+
      obtain cu cd where cu: "rational_scale ?g fu = Some cu"
        and cd: "rational_scale ?g fd = Some cd"
        using scaled mem by force
      have "rational_value cu = of_nat (unat ?g) * rational_value fu"
        using rational_scale_exact [OF cu su dens(1)] by simp
      moreover have "rational_value cd = of_nat (unat ?g) * rational_value fd"
        using rational_scale_exact [OF cd sd dens(2)] by simp
      moreover have "rational_value fu * rational_value uf
                       = rational_value fd * rational_value df"
        using eq other proper ov by blast
      ultimately show ?thesis by (simp add: cu cd mult.assoc)
    qed
    then show ?thesis using found by blast
  qed
  have "\<forall>c \<in> set (connections d). \<forall>uf df.
      port_frequencies d c = Some (uf, df) \<longrightarrow> numerator uf \<noteq> 0 \<longrightarrow> numerator df \<noteq> 0 \<longrightarrow>
      (\<exists>fu fd. map_of ?calls (fst (fst c)) = Some fu \<and> map_of ?calls (fst (snd c)) = Some fd
         \<and> ((fst (fst c) = fst (snd c)
              \<and> (length (process_map d) = 1 \<or> seed_connection d = Some c))
            \<or> frequency_overflow fuel d \<or> ?bad
            \<or> rational_value fu * rational_value uf = rational_value fd * rational_value df))"
    using rel by blast
  then show ?thesis using d' dist False by (intro exI [of _ ?calls]) simp
qed

lemma setup_pipeline_last_pass:
  assumes "setup_pipeline h fuel d = Some (None, d')"
  shows "\<exists>d9 d10. check_port_frequencies fuel d9 = Some (None, d10)
      \<and> d' = d10\<lparr>setup_in_progress := False, setup_successful := True\<rparr>
      \<and> core_frequency_calls d9 = core_frequency_calls d"
proof -
  let ?d0 = "d\<lparr>is_setup := True, setup_in_progress := True, setup_successful := False\<rparr>"
  from assms obtain d10 where
    all: "foreach_fuel (\<lambda>pass. pass) (setup_passes h fuel) ?d0 = Some (None, d10)" and
    d': "d' = d10\<lparr>setup_in_progress := False, setup_successful := True\<rparr>"
    by (auto simp: setup_pipeline_def Let_def split: if_splits option.splits prod.splits)
  from all obtain d9 where
    first: "foreach_fuel (\<lambda>pass. pass) (butlast (setup_passes h fuel)) ?d0 = Some (None, d9)" and
    last: "check_port_frequencies fuel d9 = Some (None, d10)"
    by (subst (asm) setup_passes_split)
       (auto simp: foreach_fuel_append split: option.splits prod.splits)
  have "frame d9 = frame ?d0"
    using first by (rule foreach_fuel_keeps) (rule setup_passes_frame)
  then have "core_frequency_calls d9 = core_frequency_calls d" by (simp add: frame_def)
  then show ?thesis using last d' by blast
qed


section \<open>Example pipelines\<close>

text \<open>
  External collaborators for the examples: hooks that do nothing and never throw, type
  setters that refuse, and a configuration store that keeps its values in a list.
\<close>

definition plain_hooks :: extern where
  "plain_hooks =
     \<lparr> proc_configure = (\<lambda>p. (None, p)),
       proc_init = (\<lambda>p. (None, p)),
       proc_set_input_port_type = (\<lambda>p port t. (False, p)),
       proc_set_output_port_type = (\<lambda>p port t. (False, p)),
       proc_connect_input_port = (\<lambda>p port e. (None, p)),
       proc_connect_output_port = (\<lambda>p port e. (None, p)),
       config_subblock = (\<lambda>c k. c),
       config_merge = (\<lambda>a b. a @ b),
       config_set_value = (\<lambda>c k v. (k, v) # c),
       config_mark_read_only = (\<lambda>c k. c) \<rparr>"

definition port_of :: "port_type_t \<Rightarrow> port_flag_t set \<Rightarrow> port_frequency_t \<Rightarrow> port_info" where
  "port_of t fl f = \<lparr>ptype = t, flags = fl, frequency = f\<rparr>"

text \<open>The state after the operations \<open>ops\<close>, in their order, on a new pipeline.\<close>

definition build :: "(priv \<Rightarrow> exn option \<times> priv) list \<Rightarrow> priv" where
  "build ops = snd (foreach (\<lambda>operation. operation) ops (new_pipeline []))"

subsection \<open>Scenario S5\<close>

definition s5_a :: process where
  "s5_a = Process ''a'' [] [(''o'', port_of ''int'' {} (Rational 1 1))]"

definition s5_b :: process where
  "s5_b = Process ''b'' [(''i'', port_of ''int'' {} (Rational 1 2))] [(''o'', port_of ''int'' {} (Rational 1 1))]"

definition s5_c :: process where
  "s5_c = Process ''c'' [(''i'', port_of ''int'' {} (Rational 1 3))] []"

definition s5 :: priv where
  "s5 = build [add_process (Some s5_a), add_process (Some s5_b), add_process (Some s5_c),
               connect ''a'' ''o'' ''b'' ''i'', connect ''b'' ''o'' ''c'' ''i'']"

subsection \<open>Two processes with conflicting flags\<close>

definition flag_a :: process where
  "flag_a = Process ''a'' [] [(''out'', port_of ''int'' {flag_output_const} (Rational 1 1))]"

definition flag_b :: process where
  "flag_b = Process ''b'' [(''in'', port_of ''int'' {flag_input_mutable} (Rational 1 1))] []"

definition flag_pipeline :: priv where
  "flag_pipeline = build [add_process (Some flag_a), add_process (Some flag_b)]"

subsection \<open>Two processes with ports of the recognized types\<close>

definition typed_a :: process where
  "typed_a = Process ''a'' []
     [(''data'', port_of type_data_dependent {} (Rational 1 1)),
      (''flow'', port_of (type_flow_dependent @ ''[t]'') {} (Rational 1 1)),
      (''int'', port_of ''int'' {} (Rational 1 1)),
      (''any'', port_of type_any {} (Rational 1 1))]"

definition typed_b :: process where
  "typed_b = Process ''b''
     [(''flow'', port_of (type_flow_dependent @ ''[t]'') {} (Rational 1 1)),
      (''int'', port_of ''int'' {} (Rational 1 1)),
      (''float'', port_of ''float'' {} (Rational 1 1))] []"

definition typed_pipeline :: priv where
  "typed_pipeline = build [add_process (Some typed_a), add_process (Some typed_b)]"

subsection \<open>Two processes without a connection\<close>

definition orphans :: priv where
  "orphans = build [add_process (Some (Process ''a'' [] [])),
                    add_process (Some (Process ''b'' [] []))]"

subsection \<open>Scenario S2: a cluster between two processes\<close>

definition child1 :: process where
  "child1 = Process ''child1'' [(''in'', port_of ''int'' {} (Rational 1 1))] [(''out'', port_of ''int'' {} (Rational 1 1))]"

definition child2 :: process where
  "child2 = Process ''child2'' [(''in'', port_of ''int'' {} (Rational 1 1))] []"

definition cluster_c :: process where
  "cluster_c = Cluster ''c'' [child1, child2] []
     [((''c'', ''x''), (''child1'', ''in'')), ((''c'', ''x''), (''child2'', ''in''))]
     [((''child1'', ''out''), (''c'', ''y''))]"

definition s2_a :: process where
  "s2_a = Process ''a'' [] [(''out'', port_of ''int'' {} (Rational 1 1))]"

definition s2_z :: process where
  "s2_z = Process ''z'' [(''in'', port_of ''int'' {} (Rational 1 1))] []"

definition s2 :: priv where
  "s2 = build [add_process (Some s2_a), add_process (Some cluster_c), add_process (Some s2_z),
               connect ''a'' ''out'' ''c'' ''x'', connect ''c'' ''y'' ''z'' ''in'']"

text \<open>The pipeline of S2 as setup_pipeline hands it to its first pass.\<close>

definition s2_started :: priv where
  "s2_started = s2\<lparr>is_setup := True, setup_in_progress := True\<rparr>"

subsection \<open>A connection whose upstream port has no frequency\<close>

definition unknown_a :: process where
  "unknown_a = Process ''a'' [] [(''out'', port_of ''int'' {} (Rational 0 1))]"

definition unknown_b :: process where
  "unknown_b = Process ''b'' [(''in'', port_of ''int'' {} (Rational 1 1))] []"

definition unknown_freq :: priv where
  "unknown_freq = build [add_process (Some unknown_a), add_process (Some unknown_b),
                         connect ''a'' ''out'' ''b'' ''in'']"

subsection \<open>A connection whose port frequencies exceed 32 bits\<close>

definition wide_a :: process where
  "wide_a = Process ''a'' [] [(''out'', port_of ''int'' {} (Rational 4294967296 1))]"

definition wide_b :: process where
  "wide_b = Process ''b'' [(''in'', port_of ''int'' {} (Rational 1 4294967296))] []"

definition wide_freq :: priv where
  "wide_freq = build [add_process (Some wide_a), add_process (Some wide_b),
                      connect ''a'' ''out'' ''b'' ''in'']"

subsection \<open>A single process connected to itself\<close>

definition solo_a :: process where
  "solo_a = Process ''a'' [(''i'', port_of ''int'' {flag_input_nodep} (Rational 1 2))]
     [(''o'', port_of ''int'' {} (Rational 1 1))]"

definition solo_pipeline :: priv where
  "solo_pipeline = build [add_process (Some solo_a), connect ''a'' ''o'' ''a'' ''i'']"

subsection \<open>A process connected to itself\<close>

definition loop_a :: process where
  "loop_a = Process ''a'' [(''i'', port_of ''int'' {flag_input_nodep} (Rational 1 2))]
     [(''o'', port_of ''int'' {} (Rational 1 1)), (''o2'', port_of ''int'' {} (Rational 1 1))]"

definition loop_b :: process where
  "loop_b = Process ''b'' [(''i'', port_of ''int'' {} (Rational 1 1))] []"

definition loop_pipeline :: priv where
  "loop_pipeline = build [add_process (Some loop_a), add_process (Some loop_b),
                          connect ''a'' ''o'' ''a'' ''i'', connect ''a'' ''o2'' ''b'' ''i'']"

section \<open>Properties\<close>

text \<open>
  C5. In scenario S5 the pipeline holds the processes a, b and c, connected a.o to b.i and
  b.o to c.i, with the port frequencies a.o = 1/1, b.i = 1/2, b.o = 1/1 and c.i = 1/3. The
  frequency loop, run on the resolved connections, ends with the frequencies a = 1/1,
  b = 2/1 and c = 6/1, and no operation has wrapped around; the least common multiple of
  their denominators is 1; and setup_pipeline succeeds, having called set_core_frequency
  with 1/1 on a, 2/1 on b and 6/1 on c, once each.
\<close>

theorem S5_frequencies:
  "connections s5 = [((''a'', ''o''), (''b'', ''i'')), ((''b'', ''o''), (''c'', ''i''))]
   \<and> check_frequencies 2 s5 (connections s5) [] False
       = Some (Inr ([(''a'', Rational 1 1), (''b'', Rational 2 1), (''c'', Rational 6 1)], False))
   \<and> freq_gcd [(''a'', Rational 1 1), (''b'', Rational 2 1), (''c'', Rational 6 1)] = (1, False)
   \<and> map_option (\<lambda>r. (fst r, core_frequency_calls (snd r))) (setup_pipeline plain_hooks 2 s5)
       = Some (None, [(''a'', Rational 1 1), (''b'', Rational 2 1), (''c'', Rational 6 1)])"
  by code_simp

text \<open>
  C1. A call of connect between two registered processes, neither of them a cluster, that
  the lifecycle check admits, whose two ports exist and whose flags are compatible, is
  classified by the types of the ports, in this order: an upstream type data-dependent
  appends the connection to the data-dependent list; two types that both begin with
  flow-dependent append it to the untyped list; one such type appends it to the pinnings,
  with push_upstream when the upstream type is the flow-dependent one and push_downstream
  otherwise; in these cases connect returns without an exception and the resolved list is
  unchanged. Otherwise, two types of which neither is any and that differ make connect
  throw the type mismatch; in the remaining cases the connection is appended to the
  resolved list. Before setup the connection is appended to the planned list as well.
  The type check itself, check_connection_types, classifies every connection and every
  pair of types by the same list.
\<close>

theorem connect_classification:
  assumes "map_find (cluster_map d) upstream_name = None"
    and "map_find (cluster_map d) downstream_name = None"
    and "map_find (process_map d) upstream_name = Some up_proc"
    and "map_find (process_map d) downstream_name = Some down_proc"
    and "output_port_info up_proc upstream_port = Inr up_info"
    and "input_port_info down_proc downstream_port = Inr down_info"
    and "\<not> (is_setup d \<and> \<not> setup_in_progress d)"
    and "check_connection_flags (flags up_info) (flags down_info)"
  shows "(let c = ((upstream_name, upstream_port), (downstream_name, downstream_port));
              up_type = ptype up_info;
              down_type = ptype down_info;
              d1 = (if setup_in_progress d then d
                    else d\<lparr>planned_connections := planned_connections d @ [c]\<rparr>)
          in connect upstream_name upstream_port downstream_name downstream_port d =
            (if up_type = type_data_dependent
             then (None, d1\<lparr>data_dep_connections := data_dep_connections d1 @ [c]\<rparr>)
             else if starts_with up_type type_flow_dependent
                     \<and> starts_with down_type type_flow_dependent
             then (None, d1\<lparr>untyped_connections := untyped_connections d1 @ [c]\<rparr>)
             else if starts_with up_type type_flow_dependent
             then (None, d1\<lparr>type_pinnings := type_pinnings d1 @ [(c, push_upstream)]\<rparr>)
             else if starts_with down_type type_flow_dependent
             then (None, d1\<lparr>type_pinnings := type_pinnings d1 @ [(c, push_downstream)]\<rparr>)
             else if up_type \<noteq> type_any \<and> down_type \<noteq> type_any \<and> up_type \<noteq> down_type
             then (Some (connection_type_mismatch_exception upstream_name upstream_port up_type
                           downstream_name downstream_port down_type), d1)
             else (None, d1\<lparr>connections := connections d1 @ [c]\<rparr>)))
       \<and> check_connection_types k u v s =
            (if u = type_data_dependent
             then (type_deferred, s\<lparr>data_dep_connections := data_dep_connections s @ [k]\<rparr>)
             else if starts_with u type_flow_dependent \<and> starts_with v type_flow_dependent
             then (type_deferred, s\<lparr>untyped_connections := untyped_connections s @ [k]\<rparr>)
             else if starts_with u type_flow_dependent
             then (type_deferred, s\<lparr>type_pinnings := type_pinnings s @ [(k, push_upstream)]\<rparr>)
             else if starts_with v type_flow_dependent
             then (type_deferred, s\<lparr>type_pinnings := type_pinnings s @ [(k, push_downstream)]\<rparr>)
             else if u \<noteq> type_any \<and> v \<noteq> type_any \<and> u \<noteq> v
             then (type_mismatch, s)
             else (type_compatible, s))"
proof
  show "let c = ((upstream_name, upstream_port), (downstream_name, downstream_port));
            up_type = ptype up_info;
            down_type = ptype down_info;
            d1 = (if setup_in_progress d then d
                  else d\<lparr>planned_connections := planned_connections d @ [c]\<rparr>)
        in connect upstream_name upstream_port downstream_name downstream_port d =
          (if up_type = type_data_dependent
           then (None, d1\<lparr>data_dep_connections := data_dep_connections d1 @ [c]\<rparr>)
           else if starts_with up_type type_flow_dependent
                   \<and> starts_with down_type type_flow_dependent
           then (None, d1\<lparr>untyped_connections := untyped_connections d1 @ [c]\<rparr>)
           else if starts_with up_type type_flow_dependent
           then (None, d1\<lparr>type_pinnings := type_pinnings d1 @ [(c, push_upstream)]\<rparr>)
           else if starts_with down_type type_flow_dependent
           then (None, d1\<lparr>type_pinnings := type_pinnings d1 @ [(c, push_downstream)]\<rparr>)
           else if up_type \<noteq> type_any \<and> down_type \<noteq> type_any \<and> up_type \<noteq> down_type
           then (Some (connection_type_mismatch_exception upstream_name upstream_port up_type
                         downstream_name downstream_port down_type), d1)
           else (None, d1\<lparr>connections := connections d1 @ [c]\<rparr>))"
    using assms
    by (cases "setup_in_progress d")
       (simp_all add: connect_def process_by_name_def check_connection_types_def Let_def)
  show "check_connection_types k u v s =
          (if u = type_data_dependent
           then (type_deferred, s\<lparr>data_dep_connections := data_dep_connections s @ [k]\<rparr>)
           else if starts_with u type_flow_dependent \<and> starts_with v type_flow_dependent
           then (type_deferred, s\<lparr>untyped_connections := untyped_connections s @ [k]\<rparr>)
           else if starts_with u type_flow_dependent
           then (type_deferred, s\<lparr>type_pinnings := type_pinnings s @ [(k, push_upstream)]\<rparr>)
           else if starts_with v type_flow_dependent
           then (type_deferred, s\<lparr>type_pinnings := type_pinnings s @ [(k, push_downstream)]\<rparr>)
           else if u \<noteq> type_any \<and> v \<noteq> type_any \<and> u \<noteq> v
           then (type_mismatch, s)
           else (type_compatible, s))"
    by (simp add: check_connection_types_def Let_def)
qed

theorem connect_classification_witness:
  "(\<lambda>r. (fst r, planned_connections (snd r), connections (snd r)))
     (connect ''a'' ''int'' ''b'' ''float'' typed_pipeline)
     = (Some (connection_type_mismatch_exception ''a'' ''int'' ''int'' ''b'' ''float'' ''float''),
        [((''a'', ''int''), (''b'', ''float''))], [])
   \<and> (\<lambda>r. (fst r, data_dep_connections (snd r), connections (snd r)))
     (connect ''a'' ''data'' ''b'' ''int'' typed_pipeline)
     = (None, [((''a'', ''data''), (''b'', ''int''))], [])
   \<and> (\<lambda>r. (fst r, type_pinnings (snd r), connections (snd r)))
     (connect ''a'' ''flow'' ''b'' ''int'' typed_pipeline)
     = (None, [(((''a'', ''flow''), (''b'', ''int'')), push_upstream)], [])
   \<and> (\<lambda>r. (fst r, connections (snd r)))
     (connect ''a'' ''any'' ''b'' ''float'' typed_pipeline)
     = (None, [((''a'', ''any''), (''b'', ''float''))])"
proof -
  have h1: "map_find (cluster_map typed_pipeline) ''a'' = None" by code_simp
  have h2: "map_find (cluster_map typed_pipeline) ''b'' = None" by code_simp
  have h3: "map_find (process_map typed_pipeline) ''a'' = Some typed_a" by code_simp
  have h4: "map_find (process_map typed_pipeline) ''b'' = Some typed_b" by code_simp
  have h7: "\<not> (is_setup typed_pipeline \<and> \<not> setup_in_progress typed_pipeline)" by code_simp
  have empty: "planned_connections typed_pipeline = []" "connections typed_pipeline = []"
    "data_dep_connections typed_pipeline = []" "type_pinnings typed_pipeline = []"
    "\<not> setup_in_progress typed_pipeline"
    by code_simp+
  have a_int: "output_port_info typed_a ''int'' = Inr (port_of ''int'' {} (Rational 1 1))" by code_simp
  have a_data: "output_port_info typed_a ''data'' = Inr (port_of type_data_dependent {} (Rational 1 1))"
    by code_simp
  have a_flow: "output_port_info typed_a ''flow'' = Inr (port_of (type_flow_dependent @ ''[t]'') {} (Rational 1 1))"
    by code_simp
  have a_any: "output_port_info typed_a ''any'' = Inr (port_of type_any {} (Rational 1 1))" by code_simp
  have b_int: "input_port_info typed_b ''int'' = Inr (port_of ''int'' {} (Rational 1 1))" by code_simp
  have b_float: "input_port_info typed_b ''float'' = Inr (port_of ''float'' {} (Rational 1 1))" by code_simp
  have ok: "check_connection_flags (flags (port_of t {} (Rational 1 1))) (flags (port_of t' {} (Rational 1 1)))" for t t'
    by (simp add: check_connection_flags_def port_of_def)
  note type_defs = port_of_def Let_def type_data_dependent_def type_flow_dependent_def
    type_any_def starts_with_def
  have one: "(\<lambda>r. (fst r, planned_connections (snd r), connections (snd r)))
      (connect ''a'' ''int'' ''b'' ''float'' typed_pipeline)
      = (Some (connection_type_mismatch_exception ''a'' ''int'' ''int'' ''b'' ''float'' ''float''),
         [((''a'', ''int''), (''b'', ''float''))], [])"
    using connect_classification [OF h1 h2 h3 h4 a_int b_float h7 ok] empty
    by (simp add: type_defs)
  have two: "(\<lambda>r. (fst r, data_dep_connections (snd r), connections (snd r)))
      (connect ''a'' ''data'' ''b'' ''int'' typed_pipeline)
      = (None, [((''a'', ''data''), (''b'', ''int''))], [])"
    using connect_classification [OF h1 h2 h3 h4 a_data b_int h7 ok] empty
    by (simp add: type_defs)
  have three: "(\<lambda>r. (fst r, type_pinnings (snd r), connections (snd r)))
      (connect ''a'' ''flow'' ''b'' ''int'' typed_pipeline)
      = (None, [(((''a'', ''flow''), (''b'', ''int'')), push_upstream)], [])"
    using connect_classification [OF h1 h2 h3 h4 a_flow b_int h7 ok] empty
    by (simp add: type_defs)
  have four: "(\<lambda>r. (fst r, connections (snd r)))
      (connect ''a'' ''any'' ''b'' ''float'' typed_pipeline)
      = (None, [((''a'', ''any''), (''b'', ''float''))])"
    using connect_classification [OF h1 h2 h3 h4 a_any b_float h7 ok] empty
    by (simp add: type_defs)
  show ?thesis using one two three four by simp
qed

text \<open>
  C7. A call of connect between two registered processes, neither of them a cluster, that
  the lifecycle check admits and whose two ports exist, throws the flag mismatch exactly
  when the flags of the upstream port contain output-const and the flags of the downstream
  port contain input-mutable; check_connection_flags accepts every other pair of flag sets.
\<close>

theorem connect_flag_mismatch:
  assumes "map_find (cluster_map d) upstream_name = None"
    and "map_find (cluster_map d) downstream_name = None"
    and "map_find (process_map d) upstream_name = Some up_proc"
    and "map_find (process_map d) downstream_name = Some down_proc"
    and "output_port_info up_proc upstream_port = Inr up_info"
    and "input_port_info down_proc downstream_port = Inr down_info"
    and "\<not> (is_setup d \<and> \<not> setup_in_progress d)"
  shows "(fst (connect upstream_name upstream_port downstream_name downstream_port d)
            = Some (connection_flag_mismatch_exception upstream_name upstream_port
                      downstream_name downstream_port)
          \<longleftrightarrow> flag_output_const \<in> flags up_info \<and> flag_input_mutable \<in> flags down_info)
       \<and> (check_connection_flags (flags up_info) (flags down_info)
          \<longleftrightarrow> \<not> (flag_output_const \<in> flags up_info \<and> flag_input_mutable \<in> flags down_info))"
  using assms
  by (auto simp: connect_def process_by_name_def check_connection_flags_def
      check_connection_types_def Let_def split: prod.splits port_type_status.splits)

theorem connect_flag_mismatch_witness:
  "fst (connect ''a'' ''out'' ''b'' ''in'' flag_pipeline)
     = Some (connection_flag_mismatch_exception ''a'' ''out'' ''b'' ''in'')
   \<and> \<not> check_connection_flags {flag_output_const} {flag_input_mutable}"
proof -
  have h1: "map_find (cluster_map flag_pipeline) ''a'' = None" by code_simp
  have h2: "map_find (cluster_map flag_pipeline) ''b'' = None" by code_simp
  have h3: "map_find (process_map flag_pipeline) ''a'' = Some flag_a" by code_simp
  have h4: "map_find (process_map flag_pipeline) ''b'' = Some flag_b" by code_simp
  have h5: "output_port_info flag_a ''out'' = Inr (port_of ''int'' {flag_output_const} (Rational 1 1))"
    by code_simp
  have h6: "input_port_info flag_b ''in'' = Inr (port_of ''int'' {flag_input_mutable} (Rational 1 1))"
    by code_simp
  have h7: "\<not> (is_setup flag_pipeline \<and> \<not> setup_in_progress flag_pipeline)" by code_simp
  from connect_flag_mismatch [OF h1 h2 h3 h4 h5 h6 h7] show ?thesis
    by (simp add: port_of_def)
qed

text \<open>
  C4. Let setup_pipeline be called on a pipeline that is not set up and has a process, so
  that the passes are run. When a pass throws, after the passes before it have completed,
  setup_pipeline ends with that same exception, in a state where the setup flag is set,
  the setup-in-progress flag is cleared and setup_successful is false. Whenever
  setup_pipeline returns, the setup flag is set and the setup-in-progress flag is cleared,
  and setup_successful is true exactly when no exception came out, which is exactly when
  every pass has completed.
\<close>

theorem setup_pipeline_failure_path:
  assumes "\<not> is_setup d" and "check_for_processes d = None"
  shows "(\<forall>before pass after dk e d1.
            setup_passes h fuel = before @ pass # after \<longrightarrow>
            foreach_fuel (\<lambda>p. p) before
              (d\<lparr>is_setup := True, setup_in_progress := True, setup_successful := False\<rparr>)
              = Some (None, dk) \<longrightarrow>
            pass dk = Some (Some e, d1) \<longrightarrow>
            (\<exists>d'. setup_pipeline h fuel d = Some (Some e, d') \<and> is_setup d'
                  \<and> \<not> setup_in_progress d' \<and> \<not> setup_successful d'))
       \<and> (\<forall>r d'. setup_pipeline h fuel d = Some (r, d') \<longrightarrow>
            is_setup d' \<and> \<not> setup_in_progress d' \<and> (setup_successful d' \<longleftrightarrow> r = None)
            \<and> (r = None \<longleftrightarrow>
                 (\<exists>d1. foreach_fuel (\<lambda>p. p) (setup_passes h fuel)
                         (d\<lparr>is_setup := True, setup_in_progress := True,
                            setup_successful := False\<rparr>) = Some (None, d1))))"
proof (intro conjI allI impI)
  fix before pass after dk e d1
  let ?d0 = "d\<lparr>is_setup := True, setup_in_progress := True, setup_successful := False\<rparr>"
  assume split: "setup_passes h fuel = before @ pass # after"
    and before: "foreach_fuel (\<lambda>p. p) before ?d0 = Some (None, dk)"
    and pass: "pass dk = Some (Some e, d1)"
  have "foreach_fuel (\<lambda>p. p) (setup_passes h fuel) ?d0 = Some (Some e, d1)"
    using before pass by (simp add: split foreach_fuel_append)
  then have run: "setup_pipeline h fuel d = Some (Some e, d1\<lparr>setup_in_progress := False\<rparr>)"
    using assms by (simp add: setup_pipeline_def Let_def)
  show "\<exists>d'. setup_pipeline h fuel d = Some (Some e, d') \<and> is_setup d'
      \<and> \<not> setup_in_progress d' \<and> \<not> setup_successful d'"
    using run setup_pipeline_flags [OF assms run] by auto
next
  fix r d'
  assume run: "setup_pipeline h fuel d = Some (r, d')"
  show "is_setup d'" "\<not> setup_in_progress d'" "setup_successful d' \<longleftrightarrow> r = None"
    using setup_pipeline_flags [OF assms run] by simp_all
  show "r = None \<longleftrightarrow>
      (\<exists>d1. foreach_fuel (\<lambda>p. p) (setup_passes h fuel)
              (d\<lparr>is_setup := True, setup_in_progress := True, setup_successful := False\<rparr>)
            = Some (None, d1))"
    using assms run
    by (auto simp: setup_pipeline_def Let_def split: option.splits prod.splits)
qed

theorem setup_pipeline_failure_path_witness:
  "map_option (\<lambda>r. (fst r, is_setup (snd r), setup_in_progress (snd r), setup_successful (snd r)))
     (setup_pipeline plain_hooks 2 orphans)
   = Some (Some orphaned_processes_exception, True, False, False)"
proof -
  have h1: "\<not> is_setup orphans" by code_simp
  have h2: "check_for_processes orphans = None" by code_simp
  have "map_option fst (setup_pipeline plain_hooks 2 orphans)
      = Some (Some orphaned_processes_exception)"
    by code_simp
  then obtain d' where
    run: "setup_pipeline plain_hooks 2 orphans = Some (Some orphaned_processes_exception, d')"
    by (cases "setup_pipeline plain_hooks 2 orphans") auto
  from setup_pipeline_failure_path [OF h1 h2, of plain_hooks 2] run
  have "is_setup d' \<and> \<not> setup_in_progress d' \<and> \<not> setup_successful d'" by blast
  then show ?thesis using run by simp
qed

text \<open>
  C10. In the state a successful setup_pipeline leaves, a lookup that matches no resolved
  connection returns an empty value and does not throw: for a name and a port that are the
  downstream end of no resolved connection, sender_for_port returns the empty port address
  and upstream_for_port the null process; for four names that are no resolved connection,
  edge_for_connection returns the null edge and leaves the state as it is.
\<close>

theorem unmatched_lookups_return_defaults:
  assumes "setup_pipeline h fuel d0 = Some (None, d)"
  shows "((\<forall>c \<in> set (connections d). snd c \<noteq> (name, port_name)) \<longrightarrow>
            sender_for_port d name port_name = Inr ([], [])
            \<and> upstream_for_port d name port_name = Inr None)
       \<and> (((upstream_name, upstream_port), (downstream_name, downstream_port))
              \<notin> set (connections d) \<longrightarrow>
            edge_for_connection d upstream_name upstream_port downstream_name downstream_port
              = (Inr None, d))"
proof (intro conjI impI)
  have guard: "ensure_setup d = None" using assms by (rule setup_pipeline_success_guard)
  {
    assume none: "\<forall>c \<in> set (connections d). snd c \<noteq> (name, port_name)"
    then have "find (\<lambda>c. fst (snd c) = name \<and> snd (snd c) = port_name) (connections d) = None"
      by (auto simp: find_None_iff prod_eq_iff)
    then show "sender_for_port d name port_name = Inr ([], [])"
      and "upstream_for_port d name port_name = Inr None"
      using guard
      by (simp_all add: sender_for_port_def sender_for_port_lookup_def upstream_for_port_def
          upstream_for_port_lookup_def)
  }
  {
    assume "((upstream_name, upstream_port), (downstream_name, downstream_port))
        \<notin> set (connections d)"
    then have "first_index
        (\<lambda>c. fst (fst c) = upstream_name \<and> snd (fst c) = upstream_port \<and>
             fst (snd c) = downstream_name \<and> snd (snd c) = downstream_port)
        (connections d) 0 = None"
      by (auto simp: first_index_None prod_eq_iff)
    then show "edge_for_connection d upstream_name upstream_port downstream_name downstream_port
        = (Inr None, d)"
      using guard by (simp add: edge_for_connection_def edge_for_connection_lookup_def)
  }
qed

theorem unmatched_lookups_return_defaults_witness:
  "map_option
     (\<lambda>r. (sender_for_port (snd r) ''a'' ''i'', upstream_for_port (snd r) ''a'' ''i'',
           fst (edge_for_connection (snd r) ''c'' ''o'' ''a'' ''i'')))
     (setup_pipeline plain_hooks 2 s5)
   = Some (Inr ([], []), Inr None, Inr None)"
proof -
  have "map_option (\<lambda>r. (fst r, connections (snd r))) (setup_pipeline plain_hooks 2 s5)
      = Some (None, [((''a'', ''o''), (''b'', ''i'')), ((''b'', ''o''), (''c'', ''i''))])"
    by code_simp
  then obtain d where run: "setup_pipeline plain_hooks 2 s5 = Some (None, d)"
    and conns: "connections d = [((''a'', ''o''), (''b'', ''i'')), ((''b'', ''o''), (''c'', ''i''))]"
    by (cases "setup_pipeline plain_hooks 2 s5") auto
  from unmatched_lookups_return_defaults [OF run, of "''a''" "''i''" "''c''" "''o''" "''a''" "''i''"]
    conns
  have "sender_for_port d ''a'' ''i'' = Inr ([], []) \<and> upstream_for_port d ''a'' ''i'' = Inr None
      \<and> edge_for_connection d ''c'' ''o'' ''a'' ''i'' = (Inr None, d)"
    by simp
  then show ?thesis using run by simp
qed

text \<open>
  C8. Every operation that starts with ensure_setup (the ten queries on processes, ports and
  edges, edge_for_connection and start) throws pipeline_not_setup_exception while the setup
  flag is clear, as it is in a new pipeline; throws pipeline_not_ready_exception in the
  state a setup_pipeline leaves whose passes were run and one of them threw (setup flag
  set, neither in progress nor successful); and does the work that follows the guard when
  the setup flag is set and setup is in progress, as it is when each pass starts, or
  successful, as it is after setup_pipeline has returned without an exception.
\<close>

theorem queries_guarded_by_setup:
  "(\<not> is_setup d \<longrightarrow>
          upstream_for_process d name = Inl pipeline_not_setup_exception
          \<and> upstream_for_port d name port_name = Inl pipeline_not_setup_exception
          \<and> downstream_for_process d name = Inl pipeline_not_setup_exception
          \<and> downstream_for_port d name port_name = Inl pipeline_not_setup_exception
          \<and> sender_for_port d name port_name = Inl pipeline_not_setup_exception
          \<and> receivers_for_port d name port_name = Inl pipeline_not_setup_exception
          \<and> input_edges_for_process d name = Inl pipeline_not_setup_exception
          \<and> input_edge_for_port d name port_name = Inl pipeline_not_setup_exception
          \<and> output_edges_for_process d name = Inl pipeline_not_setup_exception
          \<and> output_edges_for_port d name port_name = Inl pipeline_not_setup_exception
          \<and> edge_for_connection d up_name up_port down_name down_port = (Inl pipeline_not_setup_exception, d)
          \<and> start d = (Some pipeline_not_setup_exception, d))
   \<and> (is_setup d \<and> \<not> setup_in_progress d \<and> \<not> setup_successful d \<longrightarrow>
          upstream_for_process d name = Inl pipeline_not_ready_exception
          \<and> upstream_for_port d name port_name = Inl pipeline_not_ready_exception
          \<and> downstream_for_process d name = Inl pipeline_not_ready_exception
          \<and> downstream_for_port d name port_name = Inl pipeline_not_ready_exception
          \<and> sender_for_port d name port_name = Inl pipeline_not_ready_exception
          \<and> receivers_for_port d name port_name = Inl pipeline_not_ready_exception
          \<and> input_edges_for_process d name = Inl pipeline_not_ready_exception
          \<and> input_edge_for_port d name port_name = Inl pipeline_not_ready_exception
          \<and> output_edges_for_process d name = Inl pipeline_not_ready_exception
          \<and> output_edges_for_port d name port_name = Inl pipeline_not_ready_exception
          \<and> edge_for_connection d up_name up_port down_name down_port = (Inl pipeline_not_ready_exception, d)
          \<and> start d = (Some pipeline_not_ready_exception, d))
   \<and> (is_setup d \<and> (setup_in_progress d \<or> setup_successful d) \<longrightarrow>
          upstream_for_process d name = upstream_for_process_lookup d name
          \<and> upstream_for_port d name port_name = upstream_for_port_lookup d name port_name
          \<and> downstream_for_process d name = downstream_for_process_lookup d name
          \<and> downstream_for_port d name port_name = downstream_for_port_lookup d name port_name
          \<and> sender_for_port d name port_name = Inr (sender_for_port_lookup d name port_name)
          \<and> receivers_for_port d name port_name = Inr (receivers_for_port_lookup d name port_name)
          \<and> input_edges_for_process d name = input_edges_for_process_lookup d name
          \<and> input_edge_for_port d name port_name = input_edge_for_port_lookup d name port_name
          \<and> output_edges_for_process d name = output_edges_for_process_lookup d name
          \<and> output_edges_for_port d name port_name = output_edges_for_port_lookup d name port_name
          \<and> edge_for_connection d up_name up_port down_name down_port
              = (Inr (fst (edge_for_connection_lookup d up_name up_port down_name down_port)),
                 snd (edge_for_connection_lookup d up_name up_port down_name down_port))
          \<and> start d = (None, d\<lparr>running := True\<rparr>))
   \<and> \<not> is_setup (new_pipeline conf)
   \<and> (\<forall>x d'. \<not> is_setup d \<longrightarrow> check_for_processes d = None \<longrightarrow>
          setup_pipeline h fuel d = Some (Some x, d') \<longrightarrow>
          is_setup d' \<and> \<not> setup_in_progress d' \<and> \<not> setup_successful d')
   \<and> (\<forall>before pass after dk. \<not> is_setup d \<longrightarrow>
          setup_passes h fuel = before @ pass # after \<longrightarrow>
          foreach_fuel (\<lambda>p. p) before
            (d\<lparr>is_setup := True, setup_in_progress := True, setup_successful := False\<rparr>)
            = Some (None, dk) \<longrightarrow>
          is_setup dk \<and> setup_in_progress dk)
   \<and> (\<forall>d'. setup_pipeline h fuel d = Some (None, d') \<longrightarrow>
          is_setup d' \<and> setup_successful d')"
proof (intro conjI allI impI)
  fix x d'
  assume "\<not> is_setup d" and "check_for_processes d = None"
    and "setup_pipeline h fuel d = Some (Some x, d')"
  then show "is_setup d'" and "\<not> setup_in_progress d'" and "\<not> setup_successful d'"
    using setup_pipeline_flags by auto
next
  fix before pass after dk
  let ?d0 = "d\<lparr>is_setup := True, setup_in_progress := True, setup_successful := False\<rparr>"
  assume "setup_passes h fuel = before @ pass # after"
    and run: "foreach_fuel (\<lambda>p. p) before ?d0 = Some (None, dk)"
  then have "set before \<subseteq> set (setup_passes h fuel)" by auto
  then have "lifecycle dk = lifecycle ?d0" using run by (rule run_passes_lifecycle)
  then show "is_setup dk" and "setup_in_progress dk" by (simp_all add: lifecycle_def)
next
  fix d'
  assume run: "setup_pipeline h fuel d = Some (None, d')"
  show "is_setup d'" and "setup_successful d'"
    using setup_pipeline_flags [OF _ _ run] setup_pipeline_success_started [OF run] by simp_all
qed (auto simp: query_defs ensure_setup_def new_pipeline_def split: prod.splits)

theorem queries_guarded_by_setup_witness:
  "sender_for_port s5 ''b'' ''i'' = Inl pipeline_not_setup_exception
   \<and> map_option (\<lambda>r. (fst r, sender_for_port (snd r) ''b'' ''i''))
        (setup_pipeline plain_hooks 2 s5) = Some (None, Inr (''a'', ''o''))
   \<and> map_option (\<lambda>r. (fst r, sender_for_port (snd r) ''b'' ''i''))
        (setup_pipeline plain_hooks 2 orphans)
        = Some (Some orphaned_processes_exception, Inl pipeline_not_ready_exception)"
proof -
  have fresh: "\<not> is_setup s5" by code_simp
  have first: "sender_for_port s5 ''b'' ''i'' = Inl pipeline_not_setup_exception"
    using queries_guarded_by_setup [of s5] fresh by blast
  have "map_option (\<lambda>r. (fst r, connections (snd r))) (setup_pipeline plain_hooks 2 s5)
      = Some (None, [((''a'', ''o''), (''b'', ''i'')), ((''b'', ''o''), (''c'', ''i''))])"
    by code_simp
  then obtain d1 where ok: "setup_pipeline plain_hooks 2 s5 = Some (None, d1)"
    and conns: "connections d1 = [((''a'', ''o''), (''b'', ''i'')), ((''b'', ''o''), (''c'', ''i''))]"
    by (cases "setup_pipeline plain_hooks 2 s5") auto
  have "is_setup d1 \<and> setup_successful d1"
    using queries_guarded_by_setup [of s5 _ _ _ _ _ _ _ plain_hooks 2] ok by blast
  then have "sender_for_port d1 ''b'' ''i'' = Inr (sender_for_port_lookup d1 ''b'' ''i'')"
    using queries_guarded_by_setup [of d1] by blast
  then have second: "sender_for_port d1 ''b'' ''i'' = Inr (''a'', ''o'')"
    using conns by (simp add: sender_for_port_lookup_def)
  have o1: "\<not> is_setup orphans" by code_simp
  have o2: "check_for_processes orphans = None" by code_simp
  have "map_option fst (setup_pipeline plain_hooks 2 orphans)
      = Some (Some orphaned_processes_exception)"
    by code_simp
  then obtain d2 where
    bad: "setup_pipeline plain_hooks 2 orphans = Some (Some orphaned_processes_exception, d2)"
    by (cases "setup_pipeline plain_hooks 2 orphans") auto
  have "is_setup d2 \<and> \<not> setup_in_progress d2 \<and> \<not> setup_successful d2"
    using queries_guarded_by_setup [of orphans _ _ _ _ _ _ _ plain_hooks 2] o1 o2 bad by blast
  then have third: "sender_for_port d2 ''b'' ''i'' = Inl pipeline_not_ready_exception"
    using queries_guarded_by_setup [of d2] by blast
  show ?thesis using first second third ok bad by simp
qed

text \<open>
  A setup_pipeline that is refused before its passes (here for want of processes) is a
  failed attempt that leaves the setup flag clear: a query after it throws
  pipeline_not_setup_exception, not pipeline_not_ready_exception.
\<close>

theorem failed_setup_attempt_counterexample:
  "setup_pipeline plain_hooks 2 (new_pipeline [])
     = Some (Some no_processes_exception, new_pipeline [])
   \<and> sender_for_port (new_pipeline []) ''b'' ''i'' = Inl pipeline_not_setup_exception
   \<and> sender_for_port (new_pipeline []) ''b'' ''i'' \<noteq> Inl pipeline_not_ready_exception"
  by (simp add: setup_pipeline_def new_pipeline_def check_for_processes_def
      sender_for_port_def ensure_setup_def)

text \<open>
  C9. After a call of add_process with a cluster that is not refused (the pipeline is not
  set up and the name is not registered), whether the call completes or throws while the
  children or the internal connections are added, the name of the cluster is a key of the
  cluster map and not of the process map: process_by_name throws no_such_process_exception
  for it, process_names does not list it, cluster_names lists it and cluster_by_name
  returns the cluster.
\<close>

theorem cluster_name_only_in_cluster_map:
  assumes "\<not> is_setup d" and "check_duplicate_name name d = None"
    and "add_process (Some (Cluster name cluster_procs conns im om)) d = (r, d')"
  shows "process_by_name d' name = Inl (no_such_process_exception name)
       \<and> name \<notin> set (process_names d')
       \<and> name \<in> set (cluster_names d')
       \<and> cluster_by_name d' name = Inr (Cluster name cluster_procs conns im om)"
proof -
  let ?cl = "Cluster name cluster_procs conns im om"
  let ?parent = "case parent_stack d of [] \<Rightarrow> [] | stack_top # below \<Rightarrow> stack_top"
  let ?d1 = "d\<lparr>cluster_map := map_set name ?cl (cluster_map d),
               process_parent_map := map_set name ?parent (process_parent_map d),
               parent_stack := name # parent_stack d\<rparr>"
  have d1: "cluster_only name ?cl ?d1" using assms(2)
    by (auto simp: cluster_only_def map_find_map_set check_duplicate_name_def split: if_splits)
  obtain r2 d2 where
    kids: "foreach (\<lambda>cluster_proc. add_process (Some cluster_proc)) cluster_procs ?d1 = (r2, d2)"
    by (cases "foreach (\<lambda>cluster_proc. add_process (Some cluster_proc)) cluster_procs ?d1")
  have d2: "cluster_only name ?cl d2"
    by (rule foreach_preserves [where P = "cluster_only name ?cl", OF _ kids d1])
       (rule add_process_cluster_only)
  obtain r3 d3 where wires: "foreach connect_connection conns d2 = (r3, d3)"
    by (cases "foreach connect_connection conns d2")
  have d3: "cluster_only name ?cl d3"
    by (rule foreach_preserves [where P = "cluster_only name ?cl", OF _ wires d2])
       (rule connect_connection_cluster_only)
  have "add_process (Some ?cl) d =
      (case r2 of Some e \<Rightarrow> (Some e, d2)
       | None \<Rightarrow> (case r3 of Some e \<Rightarrow> (Some e, d3)
                  | None \<Rightarrow> (None, d3\<lparr>parent_stack := tl (parent_stack d3)\<rparr>)))"
    using assms(1,2) kids wires by (simp add: Let_def split: option.splits)
  then have "d' = d2 \<or> d' = d3 \<or> d' = d3\<lparr>parent_stack := tl (parent_stack d3)\<rparr>"
    using assms(3) by (simp split: option.splits)
  then have final: "cluster_only name ?cl d'" using d2 d3 by (auto simp: cluster_only_def)
  then have "name \<notin> fst ` set (process_map d')" and "name \<in> fst ` set (cluster_map d')"
    by (auto simp: cluster_only_def map_find_def map_of_eq_None_iff dest: map_of_SomeD
        intro: rev_image_eqI)
  then show ?thesis using final
    by (simp add: cluster_only_def process_by_name_def process_names_def cluster_names_def
        cluster_by_name_def)
qed

theorem cluster_name_only_in_cluster_map_witness:
  "(\<lambda>d. (process_by_name d ''c'', ''c'' \<in> set (process_names d), ''c'' \<in> set (cluster_names d),
          cluster_by_name d ''c''))
     (snd (add_process (Some cluster_c) (build [add_process (Some s2_a)])))
   = (Inl (no_such_process_exception ''c''), False, True, Inr cluster_c)"
proof -
  let ?d = "build [add_process (Some s2_a)]"
  have h1: "\<not> is_setup ?d" by code_simp
  have h2: "check_duplicate_name ''c'' ?d = None" by code_simp
  obtain r d' where run: "add_process (Some cluster_c) ?d = (r, d')"
    by (cases "add_process (Some cluster_c) ?d")
  have "process_by_name d' ''c'' = Inl (no_such_process_exception ''c'')
      \<and> ''c'' \<notin> set (process_names d') \<and> ''c'' \<in> set (cluster_names d')
      \<and> cluster_by_name d' ''c'' = Inr cluster_c"
    using cluster_name_only_in_cluster_map [OF h1 h2 run [unfolded cluster_c_def]]
    by (simp add: cluster_c_def)
  then show ?thesis using run by simp
qed

text \<open>
  C3. One turn of the flattening pass, for a pending connection on a port of a registered
  cluster. When the cluster is upstream, the output mappings whose external address is that
  port are counted: none makes the turn throw no_such_port_exception, more than one a
  logic_error, and exactly one makes the turn the single call of connect from the mapped
  internal port to the downstream end. When the cluster is downstream, no matching input
  mapping makes the turn throw no_such_port_exception, and one or more make it the calls of
  connect from the upstream end to each mapped internal port, in turn. The pass takes the
  pending list, empties it, runs the turns, and starts again while the list is not empty:
  when it returns without an exception, the list is empty.
\<close>

theorem map_cluster_connections_mappings:
  assumes "map_find (cluster_map d) cluster_name = Some cluster"
  shows "(let matching = filter (\<lambda>m. snd m = (cluster_name, cluster_port)) (output_mappings cluster);
              pending = (((cluster_name, cluster_port), (down_name, down_port)), cluster_upstream)
          in (length matching = 0 \<longrightarrow>
                map_cluster_connection pending d
                  = (Some (no_such_port_exception cluster_name cluster_port), d))
           \<and> (length matching > 1 \<longrightarrow>
                (\<exists>reason. map_cluster_connection pending d = (Some (logic_error reason), d)))
           \<and> (\<forall>m. matching = [m] \<longrightarrow>
                map_cluster_connection pending d
                  = connect (fst (fst m)) (snd (fst m)) down_name down_port d))
       \<and> (let matching = filter (\<lambda>m. fst m = (cluster_name, cluster_port)) (input_mappings cluster);
              pending = (((up_name, up_port), (cluster_name, cluster_port)), cluster_downstream)
          in (length matching = 0 \<longrightarrow>
                map_cluster_connection pending d
                  = (Some (no_such_port_exception cluster_name cluster_port), d))
           \<and> (length matching > 0 \<longrightarrow>
                map_cluster_connection pending d
                  = foreach (\<lambda>m. connect up_name up_port (fst (snd m)) (snd (snd m))) matching d))
       \<and> map_cluster_connections (Suc n) d
           = (case foreach map_cluster_connection (cluster_connections d)
                     (d\<lparr>cluster_connections := []\<rparr>) of
                (Some e, d2) \<Rightarrow> Some (Some e, d2)
              | (None, d2) \<Rightarrow>
                  if cluster_connections d2 = [] then Some (None, d2)
                  else map_cluster_connections n d2)
       \<and> (\<forall>d'. map_cluster_connections fuel d = Some (None, d') \<longrightarrow> cluster_connections d' = [])"
proof -
  have out: "is_downstream_for (cluster_name, cluster_port) = (\<lambda>m. snd m = (cluster_name, cluster_port))"
    by (auto simp: is_downstream_for_def)
  have inp: "is_upstream_for (cluster_name, cluster_port) = (\<lambda>m. fst m = (cluster_name, cluster_port))"
    by (auto simp: is_upstream_for_def)
  show ?thesis
    using assms map_cluster_connections_empties [of fuel d]
    by (auto simp: map_cluster_connection_def Let_def out inp split: prod.splits option.splits)
qed

theorem map_cluster_connections_mappings_witness:
  "map_cluster_connection (((''c'', ''y''), (''z'', ''in'')), cluster_upstream) s2_started
     = connect ''child1'' ''out'' ''z'' ''in'' s2_started
   \<and> map_cluster_connection (((''c'', ''nope''), (''z'', ''in'')), cluster_upstream) s2_started
     = (Some (no_such_port_exception ''c'' ''nope''), s2_started)
   \<and> map_cluster_connection (((''a'', ''out''), (''c'', ''x'')), cluster_downstream) s2_started
     = foreach (\<lambda>m. connect ''a'' ''out'' (fst (snd m)) (snd (snd m)))
         [((''c'', ''x''), (''child1'', ''in'')), ((''c'', ''x''), (''child2'', ''in''))] s2_started
   \<and> map_option (\<lambda>r. (fst r, connections (snd r), cluster_connections (snd r)))
        (map_cluster_connections 1 s2_started)
     = Some (None,
             [((''a'', ''out''), (''child1'', ''in'')), ((''a'', ''out''), (''child2'', ''in'')),
              ((''child1'', ''out''), (''z'', ''in''))],
             [])"
proof -
  have h: "map_find (cluster_map s2_started) ''c'' = Some cluster_c" by code_simp
  have one: "map_cluster_connection (((''c'', ''y''), (''z'', ''in'')), cluster_upstream) s2_started
      = connect ''child1'' ''out'' ''z'' ''in'' s2_started"
    using map_cluster_connections_mappings [OF h, of "''y''" "''z''" "''in''"]
    by (simp add: cluster_c_def Let_def)
  have none: "map_cluster_connection (((''c'', ''nope''), (''z'', ''in'')), cluster_upstream)
      s2_started = (Some (no_such_port_exception ''c'' ''nope''), s2_started)"
    using map_cluster_connections_mappings [OF h, of "''nope''" "''z''" "''in''"]
    by (simp add: cluster_c_def Let_def)
  have fan: "map_cluster_connection (((''a'', ''out''), (''c'', ''x'')), cluster_downstream)
      s2_started
      = foreach (\<lambda>m. connect ''a'' ''out'' (fst (snd m)) (snd (snd m)))
          [((''c'', ''x''), (''child1'', ''in'')), ((''c'', ''x''), (''child2'', ''in''))] s2_started"
    using map_cluster_connections_mappings [OF h, of "''x''" _ _ "''a''" "''out''"]
    by (simp add: cluster_c_def Let_def)
  have all: "map_option (\<lambda>r. (fst r, connections (snd r), cluster_connections (snd r)))
      (map_cluster_connections 1 s2_started)
      = Some (None,
          [((''a'', ''out''), (''child1'', ''in'')), ((''a'', ''out''), (''child2'', ''in'')),
           ((''child1'', ''out''), (''z'', ''in''))],
          [])"
    by code_simp
  show ?thesis using one none fan all by simp
qed

text \<open>
  C6. remove_process of a cluster does not purge the connections that name the cluster. In
  scenario S2 the cluster c stands between the processes a and z, with the planned
  connections a.out to c.x and c.y to z.in, both pending on the cluster. remove_process of
  c removes the cluster and its children, and returns before remove_from_pipeline: the two
  connections that name c stay in the planned and in the pending list, and the next
  setup_pipeline throws no_such_process_exception for c.
\<close>

theorem remove_cluster_keeps_its_connections:
  "map_option
     (\<lambda>r. (fst r, cluster_names (snd r), process_names (snd r),
           planned_connections (snd r), cluster_connections (snd r)))
     (remove_process 2 ''c'' s2)
   = Some (None, [], [''a'', ''z''],
           [((''a'', ''out''), (''c'', ''x'')), ((''c'', ''y''), (''z'', ''in''))],
           [(((''a'', ''out''), (''c'', ''x'')), cluster_downstream),
            (((''c'', ''y''), (''z'', ''in'')), cluster_upstream)])
   \<and> is_connection_with ''c'' ((''a'', ''out''), (''c'', ''x''))
   \<and> Option.bind (remove_process 2 ''c'' s2)
        (\<lambda>r. map_option fst (setup_pipeline plain_hooks 2 (snd r)))
       = Some (Some (no_such_process_exception ''c''))"
  by code_simp

text \<open>
  X1. remove_process of a registered process that is not a cluster needs fuel for one
  turn only, takes the process out of process_names, and leaves in the planned, resolved,
  data-dependent, untyped and cluster-pending lists exactly the connections that do not
  name the process at either end, in their order.
\<close>

theorem remove_process_purges:
  assumes "\<not> is_setup d" and "map_find (cluster_map d) name = None"
    and "map_find (process_map d) name = Some p"
  shows "\<exists>d'. remove_process (Suc n) name d = Some (None, d')
      \<and> name \<notin> set (process_names d')
      \<and> planned_connections d' = filter (\<lambda>c. fst (fst c) \<noteq> name \<and> fst (snd c) \<noteq> name) (planned_connections d)
      \<and> connections d' = filter (\<lambda>c. fst (fst c) \<noteq> name \<and> fst (snd c) \<noteq> name) (connections d)
      \<and> data_dep_connections d' = filter (\<lambda>c. fst (fst c) \<noteq> name \<and> fst (snd c) \<noteq> name) (data_dep_connections d)
      \<and> untyped_connections d' = filter (\<lambda>c. fst (fst c) \<noteq> name \<and> fst (snd c) \<noteq> name) (untyped_connections d)
      \<and> cluster_connections d' = filter (\<lambda>cc. fst (fst (fst cc)) \<noteq> name \<and> fst (snd (fst cc)) \<noteq> name) (cluster_connections d)"
proof -
  have pred: "(\<lambda>c. \<not> is_connection_with name c) = (\<lambda>c. fst (fst c) \<noteq> name \<and> fst (snd c) \<noteq> name)"
    by (auto simp: is_connection_with_def is_addr_on_def)
  have cpred: "(\<lambda>cc. \<not> is_cluster_connection_with name cc)
      = (\<lambda>cc. fst (fst (fst cc)) \<noteq> name \<and> fst (snd (fst cc)) \<noteq> name)"
    by (auto simp: is_cluster_connection_with_def is_connection_with_def is_addr_on_def)
  show ?thesis using assms
    by (auto simp: remove_from_pipeline_def process_names_def map_erase_def pred cpred)
qed

theorem remove_process_purges_witness:
  "map_option
     (\<lambda>r. (fst r, process_names (snd r), planned_connections (snd r), connections (snd r)))
     (remove_process 1 ''b'' s5)
   = Some (None, [''a'', ''c''], [], [])"
proof -
  have h1: "\<not> is_setup s5" by code_simp
  have h2: "map_find (cluster_map s5) ''b'' = None" by code_simp
  have h3: "map_find (process_map s5) ''b'' = Some s5_b" by code_simp
  have h4: "planned_connections s5 = [((''a'', ''o''), (''b'', ''i'')), ((''b'', ''o''), (''c'', ''i''))]"
    by code_simp
  have h5: "connections s5 = [((''a'', ''o''), (''b'', ''i'')), ((''b'', ''o''), (''c'', ''i''))]"
    by code_simp
  have h6: "process_names s5 = [''a'', ''b'', ''c'']" by code_simp
  from remove_process_purges [OF h1 h2 h3, of 0] obtain d' where
    run: "remove_process 1 ''b'' s5 = Some (None, d')" and
    planned: "planned_connections d' = filter (\<lambda>c. fst (fst c) \<noteq> ''b'' \<and> fst (snd c) \<noteq> ''b'') (planned_connections s5)" and
    conns: "connections d' = filter (\<lambda>c. fst (fst c) \<noteq> ''b'' \<and> fst (snd c) \<noteq> ''b'') (connections s5)"
    by auto
  have "process_names d' = [''a'', ''c'']"
    using run h1 h2 h3 h6
    by (simp add: process_names_def remove_from_pipeline_def map_erase_def) auto
  then show ?thesis using run planned conns h4 h5 by simp
qed

text \<open>
  C2. After setup_pipeline has returned without an exception, from a state in which no call
  of set_core_frequency is recorded: set_core_frequency has been called at most once on any
  process; where exactly one process is registered, it has been called once, with 1/1, on
  that process; and for every resolved connection whose two ports both declare a frequency
  (the numerator is not zero), it has been called exactly once on the upstream and exactly
  once on the downstream process. The frequencies passed satisfy, as rational numbers,
  freq(up) * upPortFreq = freq(down) * downPortFreq, where the connection joins two
  different processes, or joins a process to itself while more than one process is
  registered and the connection is not the one the frequency map is seeded on, provided
  that no operation of the frequency arithmetic has wrapped around and no port frequency
  of a resolved connection has the denominator zero.
\<close>

theorem core_frequencies_after_setup:
  assumes "setup_pipeline h fuel d = Some (None, d')" and "core_frequency_calls d = []"
  shows "(\<forall>name. length (filter (\<lambda>call. fst call = name) (core_frequency_calls d')) \<le> 1)
       \<and> (length (process_map d') = 1 \<longrightarrow>
            core_frequency_calls d' = map (\<lambda>n. (n, Rational 1 1)) (process_names d'))
       \<and> (\<forall>c \<in> set (connections d'). \<forall>uf df.
            port_frequencies d' c = Some (uf, df) \<longrightarrow> numerator uf \<noteq> 0 \<longrightarrow> numerator df \<noteq> 0 \<longrightarrow>
            (\<exists>fu fd.
               filter (\<lambda>call. fst call = fst (fst c)) (core_frequency_calls d')
                 = [(fst (fst c), fu)]
               \<and> filter (\<lambda>call. fst call = fst (snd c)) (core_frequency_calls d')
                 = [(fst (snd c), fd)]
               \<and> (fst (fst c) \<noteq> fst (snd c)
                     \<or> (length (process_map d') \<noteq> 1 \<and> seed_connection d' \<noteq> Some c)
                    \<longrightarrow> \<not> frequency_overflow fuel d'
                    \<longrightarrow> proper_frequencies d'
                    \<longrightarrow> rational_value fu * rational_value uf
                        = rational_value fd * rational_value df)))"
proof -
  from setup_pipeline_last_pass [OF assms(1)] obtain d9 d10 where
    last: "check_port_frequencies fuel d9 = Some (None, d10)" and
    d': "d' = d10\<lparr>setup_in_progress := False, setup_successful := True\<rparr>" and
    log: "core_frequency_calls d9 = []"
    using assms(2) by auto
  from check_port_frequencies_calls [OF last] obtain calls where
    d10: "d10 = d9\<lparr>core_frequency_calls := core_frequency_calls d9 @ calls\<rparr>" and
    dist: "distinct (map fst calls)" and
    single: "length (process_map d9) = 1
               \<longrightarrow> calls = map (\<lambda>n. (n, Rational 1 1)) (process_names d9)" and
    rel: "\<forall>c \<in> set (connections d9). \<forall>uf df.
            port_frequencies d9 c = Some (uf, df) \<longrightarrow> numerator uf \<noteq> 0 \<longrightarrow> numerator df \<noteq> 0 \<longrightarrow>
            (\<exists>fu fd. map_of calls (fst (fst c)) = Some fu \<and> map_of calls (fst (snd c)) = Some fd
               \<and> ((fst (fst c) = fst (snd c)
                    \<and> (length (process_map d9) = 1 \<or> seed_connection d9 = Some c))
                  \<or> frequency_overflow fuel d9
                  \<or> \<not> proper_frequencies d9
                  \<or> rational_value fu * rational_value uf
                      = rational_value fd * rational_value df))"
    unfolding base_freq_def by blast
  have calls: "core_frequency_calls d' = calls" and pm: "process_map d' = process_map d9"
    and conns: "connections d' = connections d9"
    using d' d10 log by simp_all
  have pf: "port_frequencies d' c = port_frequencies d9 c" for c
    using pm by (rule port_frequencies_reads)
  have over: "frequency_overflow fuel d' = frequency_overflow fuel d9"
    using pm conns by (rule frequency_overflow_reads)
  have proper: "proper_frequencies d' = proper_frequencies d9"
    using pm conns by (rule proper_frequencies_reads)
  have seed: "seed_connection d' = seed_connection d9"
    using pm conns by (rule seed_connection_reads)
  have names: "process_names d' = process_names d9" using pm by (simp add: process_names_def)
  have once: "\<forall>name. length (filter (\<lambda>call. fst call = name) calls) \<le> 1"
  proof
    fix name
    show "length (filter (\<lambda>call. fst call = name) calls) \<le> 1"
      using dist by (rule distinct_filter_key_le)
  qed
  have known: "\<exists>fu fd.
      filter (\<lambda>call. fst call = fst (fst c)) calls = [(fst (fst c), fu)]
      \<and> filter (\<lambda>call. fst call = fst (snd c)) calls = [(fst (snd c), fd)]
      \<and> (fst (fst c) \<noteq> fst (snd c)
            \<or> (length (process_map d9) \<noteq> 1 \<and> seed_connection d9 \<noteq> Some c)
           \<longrightarrow> \<not> frequency_overflow fuel d9
           \<longrightarrow> proper_frequencies d9
           \<longrightarrow> rational_value fu * rational_value uf = rational_value fd * rational_value df)"
    if "c \<in> set (connections d9)" and "port_frequencies d9 c = Some (uf, df)"
      and "numerator uf \<noteq> 0" and "numerator df \<noteq> 0" for c uf df
  proof -
    from rel that obtain fu fd where
      fu: "map_of calls (fst (fst c)) = Some fu" and fd: "map_of calls (fst (snd c)) = Some fd"
      and eq: "(fst (fst c) = fst (snd c)
                 \<and> (length (process_map d9) = 1 \<or> seed_connection d9 = Some c))
               \<or> frequency_overflow fuel d9
               \<or> \<not> proper_frequencies d9
               \<or> rational_value fu * rational_value uf = rational_value fd * rational_value df"
      by blast
    show ?thesis
      using distinct_filter_key [OF dist fu] distinct_filter_key [OF dist fd] eq by blast
  qed
  have part3: "\<forall>c \<in> set (connections d9). \<forall>uf df.
      port_frequencies d9 c = Some (uf, df) \<longrightarrow> numerator uf \<noteq> 0 \<longrightarrow> numerator df \<noteq> 0 \<longrightarrow>
      (\<exists>fu fd.
         filter (\<lambda>call. fst call = fst (fst c)) calls = [(fst (fst c), fu)]
         \<and> filter (\<lambda>call. fst call = fst (snd c)) calls = [(fst (snd c), fd)]
         \<and> (fst (fst c) \<noteq> fst (snd c)
               \<or> (length (process_map d9) \<noteq> 1 \<and> seed_connection d9 \<noteq> Some c)
              \<longrightarrow> \<not> frequency_overflow fuel d9
              \<longrightarrow> proper_frequencies d9
              \<longrightarrow> rational_value fu * rational_value uf
                  = rational_value fd * rational_value df))"
    using known by blast
  show ?thesis
    unfolding calls pm conns pf names over proper seed
    using once single part3 by (intro conjI) assumption+
qed

theorem core_frequencies_after_setup_witness:
  "\<exists>d' fu fd. setup_pipeline plain_hooks 2 s5 = Some (None, d')
     \<and> filter (\<lambda>call. fst call = ''a'') (core_frequency_calls d') = [(''a'', fu)]
     \<and> filter (\<lambda>call. fst call = ''b'') (core_frequency_calls d') = [(''b'', fd)]
     \<and> rational_value fu * rational_value (Rational 1 1)
         = rational_value fd * rational_value (Rational 1 2)"
proof -
  let ?c = "((''a'', ''o''), (''b'', ''i''))"
  have "map_option
      (\<lambda>r. (fst r, connections (snd r), port_frequencies (snd r) ?c,
            frequency_overflow 2 (snd r), proper_frequencies (snd r)))
      (setup_pipeline plain_hooks 2 s5)
      = Some (None, [((''a'', ''o''), (''b'', ''i'')), ((''b'', ''o''), (''c'', ''i''))],
              Some (Rational 1 1, Rational 1 2), False, True)"
    by code_simp
  then obtain d' where run: "setup_pipeline plain_hooks 2 s5 = Some (None, d')"
    and conns: "connections d' = [((''a'', ''o''), (''b'', ''i'')), ((''b'', ''o''), (''c'', ''i''))]"
    and pf: "port_frequencies d' ?c = Some (Rational 1 1, Rational 1 2)"
    and exact: "\<not> frequency_overflow 2 d'" and proper: "proper_frequencies d'"
    by (cases "setup_pipeline plain_hooks 2 s5") auto
  have log: "core_frequency_calls s5 = []" by code_simp
  have mem: "?c \<in> set (connections d')" using conns by simp
  have "\<forall>c \<in> set (connections d'). \<forall>uf df.
      port_frequencies d' c = Some (uf, df) \<longrightarrow> numerator uf \<noteq> 0 \<longrightarrow> numerator df \<noteq> 0 \<longrightarrow>
      (\<exists>fu fd.
         filter (\<lambda>call. fst call = fst (fst c)) (core_frequency_calls d') = [(fst (fst c), fu)]
         \<and> filter (\<lambda>call. fst call = fst (snd c)) (core_frequency_calls d') = [(fst (snd c), fd)]
         \<and> (fst (fst c) \<noteq> fst (snd c)
               \<or> (length (process_map d') \<noteq> 1 \<and> seed_connection d' \<noteq> Some c)
              \<longrightarrow> \<not> frequency_overflow 2 d'
              \<longrightarrow> proper_frequencies d'
              \<longrightarrow> rational_value fu * rational_value uf
                  = rational_value fd * rational_value df))"
    using core_frequencies_after_setup [OF run log] by blast
  then have "port_frequencies d' ?c = Some (Rational 1 1, Rational 1 2)
      \<longrightarrow> numerator (Rational 1 1) \<noteq> 0 \<longrightarrow> numerator (Rational 1 2) \<noteq> 0 \<longrightarrow>
      (\<exists>fu fd.
         filter (\<lambda>call. fst call = fst (fst ?c)) (core_frequency_calls d') = [(fst (fst ?c), fu)]
         \<and> filter (\<lambda>call. fst call = fst (snd ?c)) (core_frequency_calls d') = [(fst (snd ?c), fd)]
         \<and> (fst (fst ?c) \<noteq> fst (snd ?c)
               \<or> (length (process_map d') \<noteq> 1 \<and> seed_connection d' \<noteq> Some ?c)
              \<longrightarrow> \<not> frequency_overflow 2 d'
              \<longrightarrow> proper_frequencies d'
              \<longrightarrow> rational_value fu * rational_value (Rational 1 1)
                  = rational_value fd * rational_value (Rational 1 2)))"
    using mem by blast
  then have "\<exists>fu fd.
      filter (\<lambda>call. fst call = ''a'') (core_frequency_calls d') = [(''a'', fu)]
      \<and> filter (\<lambda>call. fst call = ''b'') (core_frequency_calls d') = [(''b'', fd)]
      \<and> rational_value fu * rational_value (Rational 1 1)
          = rational_value fd * rational_value (Rational 1 2)"
    using pf exact proper by simp
  then show ?thesis using run by blast
qed

text \<open>
  Two processes joined by one connection whose upstream port declares no frequency: the
  connection is skipped, setup_pipeline succeeds, and set_core_frequency is called on
  neither process. Two processes joined by one connection with the port frequencies
  \<open>2^32/1\<close> and \<open>1/2^32\<close>: the numerator \<open>2^64\<close> of the downstream frequency wraps
  around to zero, setup_pipeline succeeds, and the frequencies passed, 1/1 and 0/1, do not
  satisfy the equation. A single process with a connection from its port o (1/1) to its
  port i (1/2): the check returns at once, setup_pipeline succeeds, and the frequency
  passed, 1/1, does not satisfy the equation.
\<close>

theorem set_core_frequency_counterexample:
  "map_option fst (setup_pipeline plain_hooks 2 unknown_freq) = Some None
   \<and> map_option (process_names \<circ> snd) (setup_pipeline plain_hooks 2 unknown_freq)
       = Some [''a'', ''b'']
   \<and> map_option (core_frequency_calls \<circ> snd) (setup_pipeline plain_hooks 2 unknown_freq)
       = Some []
   \<and> map_option fst (setup_pipeline plain_hooks 2 wide_freq) = Some None
   \<and> map_option (core_frequency_calls \<circ> snd) (setup_pipeline plain_hooks 2 wide_freq)
       = Some [(''a'', Rational 1 1), (''b'', Rational 0 1)]
   \<and> rational_value (Rational 1 1) * rational_value (Rational 4294967296 1)
       \<noteq> rational_value (Rational 0 1) * rational_value (Rational 1 4294967296)
   \<and> map_option fst (setup_pipeline plain_hooks 2 solo_pipeline) = Some None
   \<and> map_option (connections \<circ> snd) (setup_pipeline plain_hooks 2 solo_pipeline)
       = Some [((''a'', ''o''), (''a'', ''i''))]
   \<and> map_option (core_frequency_calls \<circ> snd) (setup_pipeline plain_hooks 2 solo_pipeline)
       = Some [(''a'', Rational 1 1)]
   \<and> rational_value (Rational 1 1) * rational_value (Rational 1 1)
       \<noteq> rational_value (Rational 1 1) * rational_value (Rational 1 2)"
  by code_simp

text \<open>
  X2. A connection from a process to itself, when it is the first connection with two
  known port frequencies that the check meets, is not validated: the process is seeded
  with 1/1 and then given upPortFreq / downPortFreq. Here a.o (1/1) feeds a.i (1/2,
  flagged input-nodep) and a.o2 feeds b.i: setup_pipeline succeeds with the core
  frequencies a = 2/1 and b = 2/1, although 2 * 1 is not 2 * (1/2).
\<close>

theorem self_loop_frequency:
  "map_option
     (\<lambda>r. (fst r, core_frequency_calls (snd r),
           port_frequencies (snd r) ((''a'', ''o''), (''a'', ''i''))))
     (setup_pipeline plain_hooks 2 loop_pipeline)
   = Some (None, [(''a'', Rational 2 1), (''b'', Rational 2 1)],
           Some (Rational 1 1, Rational 1 2))
   \<and> rational_value (Rational 2 1) * rational_value (Rational 1 1)
       \<noteq> rational_value (Rational 2 1) * rational_value (Rational 1 2)"
  by code_simp

end
